(* ===== verification/Prelude.thy ===== *)
theory Prelude
  imports Main "HOL-Library.Word"
begin

text \<open>
  Shared vocabulary of the development: the Go types every component uses (machine integers,
  durations, instants, errors, the outcome of a call that may panic), the parts of Go's standard
  library that several components call (\<open>strings.Split\<close> and \<open>strings.Join\<close>), and the generic lemmas
  on lists, maps and words that the component theories share.
\<close>

section \<open>Collections of facts\<close>

named_theorems go_defs \<open>definitions that a symbolic execution of the model unfolds\<close>
named_theorems tracker_frame \<open>what the tracker's helper operations leave unchanged\<close>
named_theorems client_frame \<open>what the adapters leave unchanged in the world\<close>

section \<open>Go's integers, durations and instants\<close>

text \<open>
  The service is built for 64-bit targets: \<open>int\<close> and \<open>int64\<close> are 64-bit two's complement words and
  \<open>time.Duration\<close> is an \<open>int64\<close> count of nanoseconds, so its arithmetic wraps. An instant
  (\<open>time.Time\<close>) holds its seconds in an \<open>int64\<close> of its own; it is modelled as an unbounded count of
  nanoseconds since the Unix epoch, to which \<open>Add\<close> adds the signed value of a duration.
\<close>

type_synonym i64 = "64 word"
type_synonym duration = "64 word"
type_synonym time = int

definition millisecond :: duration where
  "millisecond = 1000000"

definition second :: duration where
  "second = 1000000000"

text \<open>\<open>time.Duration(n) * time.Millisecond\<close>\<close>

definition of_ms :: "i64 \<Rightarrow> duration" where
  "of_ms n = n * millisecond"

definition time_add :: "time \<Rightarrow> duration \<Rightarrow> time" where
  "time_add t d = t + sint d"

definition time_before :: "time \<Rightarrow> time \<Rightarrow> bool" where
  "time_before t u \<longleftrightarrow> t < u"

text \<open>The zero \<open>time.Time\<close> is midnight, January 1 of year 1.\<close>

definition zero_time :: time where
  "zero_time = - 62135596800 * 1000000000"

text \<open>
  The largest number of milliseconds whose nanoseconds fit into a duration: the conversion is
  exact up to it and wraps beyond.
\<close>

definition max_ms :: int where
  "max_ms = 9223372036854"

lemma sint_mult_exact:
  fixes a b :: i64
  assumes "- (2 ^ 63) \<le> sint a * sint b" and "sint a * sint b < 2 ^ 63"
  shows "sint (a * b) = sint a * sint b"
  using assms by (simp add: sint_word_ariths signed_take_bit_int_eq_self)

lemma of_ms_exact:
  assumes "- max_ms \<le> sint n" and "sint n \<le> max_ms"
  shows "sint (of_ms n) = sint n * 1000000"
proof -
  have m: "sint millisecond = 1000000" by (simp add: millisecond_def)
  have "sint (n * millisecond) = sint n * sint millisecond"
    by (rule sint_mult_exact) (use assms in \<open>simp_all add: m max_ms_def\<close>)
  then show ?thesis by (simp add: of_ms_def m)
qed

section \<open>Errors and panics\<close>

text \<open>
  Go's \<open>error\<close> values. \<open>External\<close> is an error made outside this repository (NATS, PostgreSQL, the
  context package), known by its text. \<open>Errorf\<close> and \<open>Wrapf\<close> are \<open>fmt.Errorf\<close> without and with a
  \<open>%w\<close> verb: the format and its other arguments, kept as values, and for \<open>%w\<close> the wrapped cause.
  \<open>Permanent\<close> is the telemetry consumer's \<open>permanentError{cause}\<close>. A \<open>nil\<close> error is \<open>None\<close>.
\<close>

datatype fmt_arg = FS string | FI int

datatype go_error =
    External string
  | Errorf string "fmt_arg list"
  | Wrapf string "fmt_arg list" go_error
  | Permanent go_error

text \<open>\<open>errors.Unwrap\<close> and \<open>errors.As(err, &permanentError)\<close>: a walk down the chain of causes.\<close>

fun unwrap :: "go_error \<Rightarrow> go_error option" where
  "unwrap (Wrapf f args e) = Some e"
| "unwrap (Permanent e) = Some e"
| "unwrap _ = None"

fun errors_as_permanent :: "go_error \<Rightarrow> bool" where
  "errors_as_permanent (Permanent e) = True"
| "errors_as_permanent (Wrapf f args e) = errors_as_permanent e"
| "errors_as_permanent _ = False"

text \<open>The outcome of a call that may panic: a panic that nobody recovers ends the process.\<close>

datatype 'a go_result = Panic string | Ret 'a

fun go_bind :: "'a go_result \<Rightarrow> ('a \<Rightarrow> 'b go_result) \<Rightarrow> 'b go_result" where
  "go_bind (Panic p) f = Panic p"
| "go_bind (Ret a) f = f a"

definition returns :: "'a go_result \<Rightarrow> bool" where
  "returns r \<longleftrightarrow> (case r of Panic _ \<Rightarrow> False | Ret _ \<Rightarrow> True)"

lemma returns_simps [simp]: "returns (Ret a)" "\<not> returns (Panic p)"
  by (simp_all add: returns_def)

lemma go_bind_Ret_iff: "go_bind r f = Ret b \<longleftrightarrow> (\<exists>a. r = Ret a \<and> f a = Ret b)"
  by (cases r) auto

lemma go_bind_Panic_iff: "go_bind r f = Panic p \<longleftrightarrow> r = Panic p \<or> (\<exists>a. r = Ret a \<and> f a = Panic p)"
  by (cases r) auto

lemma go_bind_assoc: "go_bind (go_bind r f) g = go_bind r (\<lambda>a. go_bind (f a) g)"
  by (cases r) auto

section \<open>Strings\<close>

text \<open>
  \<open>strings.Split(s, sep)\<close> for a separator of one byte, which is how the two consumers use it: the
  pieces between the separators, always at least one. \<open>strings.Join(parts, sep)\<close> puts them together.
\<close>

fun split_on :: "char \<Rightarrow> string \<Rightarrow> string list" where
  "split_on c [] = [[]]"
| "split_on c (x # xs) =
     (if x = c then [] # split_on c xs
      else (case split_on c xs of [] \<Rightarrow> [[x]] | p # ps \<Rightarrow> (x # p) # ps))"

fun join_with :: "string \<Rightarrow> string list \<Rightarrow> string" where
  "join_with sep [] = []"
| "join_with sep [s] = s"
| "join_with sep (s # t # ts) = s @ sep @ join_with sep (t # ts)"

lemma split_on_not_Nil [simp]: "split_on c s \<noteq> []"
  by (induction s) (auto split: list.splits)

lemma join_split_on: "join_with [c] (split_on c s) = s"
proof (induction s)
  case Nil
  then show ?case by simp
next
  case (Cons x xs)
  obtain p ps where sp: "split_on c xs = p # ps" by (cases "split_on c xs") auto
  with Cons show ?case by (cases ps) auto
qed

lemma split_on_no_sep: "p \<in> set (split_on c s) \<Longrightarrow> c \<notin> set p"
  by (induction s arbitrary: p) (auto split: list.splits if_splits)

lemma split_on_fresh: "c \<notin> set s \<Longrightarrow> split_on c s = [s]"
  by (induction s) auto

lemma split_on_append: "c \<notin> set s \<Longrightarrow> split_on c (s @ c # t) = s # split_on c t"
  by (induction s) auto

lemma split_on_join:
  assumes "ps \<noteq> []" and "\<forall>p \<in> set ps. c \<notin> set p"
  shows "split_on c (join_with [c] ps) = ps"
  using assms
proof (induction ps rule: induct_list012)
  case (3 p q ps)
  then show ?case by (simp add: split_on_append)
qed (simp_all add: split_on_fresh)

text \<open>A separator splits a pair of strings back uniquely when the first one does not hold it.\<close>

lemma append_sep_inj:
  fixes c :: char
  assumes "c \<notin> set a" and "c \<notin> set a'"
  shows "a @ c # b = a' @ c # b' \<longleftrightarrow> a = a' \<and> b = b'"
proof
  assume eq: "a @ c # b = a' @ c # b'"
  then have "split_on c (a @ c # b) = split_on c (a' @ c # b')" by simp
  with assms have "a = a'" by (simp add: split_on_append)
  with eq show "a = a' \<and> b = b'" by simp
qed simp

section \<open>Maps and lists\<close>

lemma finite_dom_upd [simp]: "finite (dom (m(k := v))) = finite (dom m)"
  by (cases v) auto

lemma filter_cong_all: "(\<And>x. x \<in> set xs \<Longrightarrow> P x) \<Longrightarrow> filter P xs = xs"
  by (induction xs) auto

text \<open>Running a step that may panic over a list, from left to right.\<close>

fun fold_result :: "('a \<Rightarrow> 's \<Rightarrow> 's go_result) \<Rightarrow> 'a list \<Rightarrow> 's \<Rightarrow> 's go_result" where
  "fold_result f [] s = Ret s"
| "fold_result f (x # xs) s = go_bind (f x s) (fold_result f xs)"

lemma fold_result_append:
  "fold_result f (xs @ ys) s = go_bind (fold_result f xs s) (fold_result f ys)"
proof (induction xs arbitrary: s)
  case (Cons x xs)
  then show ?case by (cases "f x s") auto
qed simp

text \<open>What every step keeps, the whole run keeps.\<close>

lemma fold_result_invariant:
  assumes "\<And>x s s'. x \<in> set xs \<Longrightarrow> I s \<Longrightarrow> f x s = Ret s' \<Longrightarrow> I s'"
    and "I s" and "fold_result f xs s = Ret s'"
  shows "I s'"
  using assms
proof (induction xs arbitrary: s)
  case (Cons x xs)
  from Cons.prems(3) obtain s1 where s1: "f x s = Ret s1" "fold_result f xs s1 = Ret s'"
    by (auto simp: go_bind_Ret_iff)
  have "I s1" using Cons.prems(1) [of x s s1] Cons.prems(2) s1(1) by simp
  then show ?case using Cons.IH [OF _ _ s1(2)] Cons.prems(1) by (meson list.set_intros(2))
qed simp

lemma fold_result_returns:
  assumes "\<And>x s. x \<in> set xs \<Longrightarrow> I s \<Longrightarrow> \<exists>s'. f x s = Ret s' \<and> I s'" and "I s"
  shows "\<exists>s'. fold_result f xs s = Ret s' \<and> I s'"
  using assms
proof (induction xs arbitrary: s)
  case (Cons x xs)
  then obtain s1 where "f x s = Ret s1" "I s1" by (meson list.set_intros(1))
  then show ?case using Cons.IH [of s1] Cons.prems(1) by (auto)
qed simp

section \<open>Simulations between step relations\<close>

text \<open>A step of the first system is matched by any number of steps of the second.\<close>

locale simulation =
  fixes concrete :: "'s \<Rightarrow> 's \<Rightarrow> bool" and abstract :: "'t \<Rightarrow> 't \<Rightarrow> bool" and match :: "'s \<Rightarrow> 't \<Rightarrow> bool"
  assumes matched: "match s t \<Longrightarrow> concrete s s' \<Longrightarrow> \<exists>t'. abstract\<^sup>*\<^sup>* t t' \<and> match s' t'"
begin

lemma runs_matched:
  assumes "concrete\<^sup>*\<^sup>* s s'" and "match s t"
  shows "\<exists>t'. abstract\<^sup>*\<^sup>* t t' \<and> match s' t'"
  using assms
proof (induction rule: rtranclp_induct)
  case (step u v)
  then obtain t1 where t1: "abstract\<^sup>*\<^sup>* t t1" "match u t1" by blast
  from matched [OF t1(2) step.hyps(2)] obtain t2 where "abstract\<^sup>*\<^sup>* t1 t2" "match v t2" by blast
  with t1(1) show ?case by (meson rtranclp_trans)
qed blast

end

end
