(* ===== verification/Metrics.thy ===== *)
theory Metrics
  imports Prelude
begin

text \<open>
  \<open>internal/metrics/metrics.go\<close>: the metric handles of the service, what each is registered as, and
  the methods that the components call on them. The registry belongs to the Prometheus client and
  is a parameter. A counter is a natural number and a gauge the whole number it was last set to
  (the code converts lengths and Unix seconds to \<open>float64\<close>, exact below \<open>2^53\<close>); a histogram is the
  sequence of its observations, durations being kept in nanoseconds instead of converted to a
  \<open>float64\<close> of seconds.
\<close>

record metrics =
  MessagesReceived :: nat
  MessageParsingErrors :: nat
  MessagesWritten :: nat
  WriteErrors :: nat
  WriteLatency :: "duration list"
  BatchSize :: "nat list"
  AlertsPublished :: nat
  AlertPublishErrors :: nat
  HeartbeatMapSize :: int
  HeartbeatTickDuration :: "duration list"
  StatusUpdateErrors :: nat
  StatusUpdateDropped :: nat
  DispatchQueueLength :: int
  AlertCacheRefreshErrors :: nat
  AlertCacheLastSuccess :: int
  NATSReconnects :: nat
  LifecycleQueryErrors :: nat

section \<open>Construction and registration\<close>

datatype metric_kind = Counter | Gauge | Histogram

record metric_desc =
  desc_name :: string
  desc_help :: string
  desc_kind :: metric_kind

definition metric_descs :: "metric_desc list" where
  "metric_descs = [
    \<lparr>desc_name = ''notip_consumer_messages_received_total'',
     desc_help = ''Total NATS messages dequeued from the TELEMETRY stream.'', desc_kind = Counter\<rparr>,
    \<lparr>desc_name = ''notip_consumer_message_parsing_errors_total'',
     desc_help = ''Total messages permanently discarded (Term) due to malformed JSON or invalid subject.'',
     desc_kind = Counter\<rparr>,
    \<lparr>desc_name = ''notip_consumer_messages_written_total'',
     desc_help = ''Total telemetry records successfully written to TimescaleDB.'', desc_kind = Counter\<rparr>,
    \<lparr>desc_name = ''notip_consumer_write_errors_total'',
     desc_help = ''Total failed TimescaleDB write attempts.'', desc_kind = Counter\<rparr>,
    \<lparr>desc_name = ''notip_consumer_write_duration_seconds'',
     desc_help = ''TimescaleDB write latency in seconds.'', desc_kind = Histogram\<rparr>,
    \<lparr>desc_name = ''notip_consumer_batch_size'',
     desc_help = ''Number of telemetry records per batch flush operation.'', desc_kind = Histogram\<rparr>,
    \<lparr>desc_name = ''notip_consumer_alerts_published_total'',
     desc_help = ''Total gateway-offline alerts published to JetStream.'', desc_kind = Counter\<rparr>,
    \<lparr>desc_name = ''notip_consumer_alert_publish_errors_total'',
     desc_help = ''Total failed alert publish attempts.'', desc_kind = Counter\<rparr>,
    \<lparr>desc_name = ''notip_consumer_heartbeat_map_size'',
     desc_help = ''Number of gateways currently tracked in the heartbeat map.'', desc_kind = Gauge\<rparr>,
    \<lparr>desc_name = ''notip_consumer_heartbeat_tick_duration_seconds'',
     desc_help = ''Duration of a complete heartbeat Tick cycle in seconds.'', desc_kind = Histogram\<rparr>,
    \<lparr>desc_name = ''notip_consumer_status_update_errors_total'',
     desc_help = ''Total failed NATS RR gateway status update calls.'', desc_kind = Counter\<rparr>,
    \<lparr>desc_name = ''notip_consumer_status_update_dropped_total'',
     desc_help = ''Total status updates dropped due to a full dispatch buffer.'', desc_kind = Counter\<rparr>,
    \<lparr>desc_name = ''notip_consumer_dispatch_queue_length'',
     desc_help = ''Number of jobs currently queued in the async dispatch channel.'', desc_kind = Gauge\<rparr>,
    \<lparr>desc_name = ''notip_consumer_alert_cache_refresh_errors_total'',
     desc_help = ''Total failed alert config cache refresh attempts.'', desc_kind = Counter\<rparr>,
    \<lparr>desc_name = ''notip_consumer_alert_cache_last_success_timestamp'',
     desc_help = ''Unix timestamp of the last successful alert config fetch.'', desc_kind = Gauge\<rparr>,
    \<lparr>desc_name = ''notip_consumer_nats_reconnects_total'',
     desc_help = ''Total NATS reconnection events.'', desc_kind = Counter\<rparr>,
    \<lparr>desc_name = ''notip_consumer_lifecycle_query_errors_total'',
     desc_help = ''Total failed NATS RR gateway lifecycle query calls (per Tick candidate).'',
     desc_kind = Counter\<rparr>]"

definition zero_metrics :: metrics where
  "zero_metrics = \<lparr>MessagesReceived = 0, MessageParsingErrors = 0, MessagesWritten = 0,
     WriteErrors = 0, WriteLatency = [], BatchSize = [], AlertsPublished = 0,
     AlertPublishErrors = 0, HeartbeatMapSize = 0, HeartbeatTickDuration = [],
     StatusUpdateErrors = 0, StatusUpdateDropped = 0, DispatchQueueLength = 0,
     AlertCacheRefreshErrors = 0, AlertCacheLastSuccess = 0, NATSReconnects = 0,
     LifecycleQueryErrors = 0\<rparr>"

text \<open>
  \<open>New\<close> hands all seventeen collectors to \<open>MustRegister\<close> in one call, in the order of the fields;
  \<open>MustRegister\<close> panics when the registry refuses one.
\<close>

definition New_metrics ::
    "(metric_desc list \<Rightarrow> 'r \<Rightarrow> 'r go_result) \<Rightarrow> 'r \<Rightarrow> (metrics \<times> 'r) go_result" where
  "New_metrics mustRegister reg =
     go_bind (mustRegister metric_descs reg) (\<lambda>reg'. Ret (zero_metrics, reg'))"

section \<open>The methods of the narrow metric interfaces\<close>

definition IncMessagesReceived :: "metrics \<Rightarrow> metrics" where
  "IncMessagesReceived m = m\<lparr>MessagesReceived := Suc (MessagesReceived m)\<rparr>"

definition IncMessageParsingErrors :: "metrics \<Rightarrow> metrics" where
  "IncMessageParsingErrors m = m\<lparr>MessageParsingErrors := Suc (MessageParsingErrors m)\<rparr>"

definition IncMessagesWritten :: "metrics \<Rightarrow> metrics" where
  "IncMessagesWritten m = m\<lparr>MessagesWritten := Suc (MessagesWritten m)\<rparr>"

definition IncWriteErrors :: "metrics \<Rightarrow> metrics" where
  "IncWriteErrors m = m\<lparr>WriteErrors := Suc (WriteErrors m)\<rparr>"

definition ObserveWriteLatency :: "duration \<Rightarrow> metrics \<Rightarrow> metrics" where
  "ObserveWriteLatency d m = m\<lparr>WriteLatency := WriteLatency m @ [d]\<rparr>"

definition ObserveBatchSize :: "nat \<Rightarrow> metrics \<Rightarrow> metrics" where
  "ObserveBatchSize n m = m\<lparr>BatchSize := BatchSize m @ [n]\<rparr>"

definition IncAlertsPublished :: "metrics \<Rightarrow> metrics" where
  "IncAlertsPublished m = m\<lparr>AlertsPublished := Suc (AlertsPublished m)\<rparr>"

definition IncAlertPublishErrors :: "metrics \<Rightarrow> metrics" where
  "IncAlertPublishErrors m = m\<lparr>AlertPublishErrors := Suc (AlertPublishErrors m)\<rparr>"

definition SetHeartbeatMapSize :: "int \<Rightarrow> metrics \<Rightarrow> metrics" where
  "SetHeartbeatMapSize v m = m\<lparr>HeartbeatMapSize := v\<rparr>"

definition ObserveHeartbeatTickDuration :: "duration \<Rightarrow> metrics \<Rightarrow> metrics" where
  "ObserveHeartbeatTickDuration d m = m\<lparr>HeartbeatTickDuration := HeartbeatTickDuration m @ [d]\<rparr>"

definition IncStatusUpdateErrors :: "metrics \<Rightarrow> metrics" where
  "IncStatusUpdateErrors m = m\<lparr>StatusUpdateErrors := Suc (StatusUpdateErrors m)\<rparr>"

definition IncStatusUpdateDropped :: "metrics \<Rightarrow> metrics" where
  "IncStatusUpdateDropped m = m\<lparr>StatusUpdateDropped := Suc (StatusUpdateDropped m)\<rparr>"

definition SetDispatchQueueLength :: "int \<Rightarrow> metrics \<Rightarrow> metrics" where
  "SetDispatchQueueLength v m = m\<lparr>DispatchQueueLength := v\<rparr>"

definition IncAlertCacheRefreshErrors :: "metrics \<Rightarrow> metrics" where
  "IncAlertCacheRefreshErrors m = m\<lparr>AlertCacheRefreshErrors := Suc (AlertCacheRefreshErrors m)\<rparr>"

definition SetAlertCacheLastSuccess :: "int \<Rightarrow> metrics \<Rightarrow> metrics" where
  "SetAlertCacheLastSuccess ts m = m\<lparr>AlertCacheLastSuccess := ts\<rparr>"

definition IncNATSReconnects :: "metrics \<Rightarrow> metrics" where
  "IncNATSReconnects m = m\<lparr>NATSReconnects := Suc (NATSReconnects m)\<rparr>"

definition IncLifecycleQueryErrors :: "metrics \<Rightarrow> metrics" where
  "IncLifecycleQueryErrors m = m\<lparr>LifecycleQueryErrors := Suc (LifecycleQueryErrors m)\<rparr>"

lemmas metric_defs =
  IncMessagesReceived_def IncMessageParsingErrors_def IncMessagesWritten_def IncWriteErrors_def
  ObserveWriteLatency_def ObserveBatchSize_def IncAlertsPublished_def IncAlertPublishErrors_def
  SetHeartbeatMapSize_def ObserveHeartbeatTickDuration_def IncStatusUpdateErrors_def
  IncStatusUpdateDropped_def SetDispatchQueueLength_def IncAlertCacheRefreshErrors_def
  SetAlertCacheLastSuccess_def IncNATSReconnects_def IncLifecycleQueryErrors_def

lemma metric_names_distinct: "distinct (map desc_name metric_descs)"
  by (simp add: metric_descs_def)

end
