(* ===== verification/Domain_Model.thy ===== *)
theory Domain_Model
  imports Metrics
begin

text \<open>
  \<open>internal/domain/model/model.go\<close> and \<open>internal/domain/port/port.go\<close>: the data the service moves
  and the driven ports through which the core talks to its adapters. Strings that come from the
  wire and are only compared (sensor types, lifecycle states) stay strings with named constants, as
  in the code; the runtime status of a gateway, which only the service itself produces, is a
  datatype.
\<close>

section \<open>Telemetry\<close>

record opaque_blob =
  blob_Value :: string

type_synonym sensor_type = string

definition SensorTypeTemperature :: sensor_type where "SensorTypeTemperature = ''temperature''"
definition SensorTypeHumidity :: sensor_type where "SensorTypeHumidity = ''humidity''"
definition SensorTypeMovement :: sensor_type where "SensorTypeMovement = ''movement''"
definition SensorTypePressure :: sensor_type where "SensorTypePressure = ''pressure''"
definition SensorTypeBiometric :: sensor_type where "SensorTypeBiometric = ''biometric''"

record telemetry_envelope =
  env_GatewayID :: string
  env_SensorID :: string
  env_SensorType :: sensor_type
  env_Timestamp :: time
  env_KeyVersion :: i64
  env_EncryptedData :: opaque_blob
  env_IV :: opaque_blob
  env_AuthTag :: opaque_blob

record telemetry_row =
  row_Time :: time
  row_TenantID :: string
  row_GatewayID :: string
  row_SensorID :: string
  row_SensorType :: string
  row_EncryptedData :: opaque_blob
  row_IV :: opaque_blob
  row_AuthTag :: opaque_blob
  row_KeyVersion :: i64

section \<open>Alerts, alert configuration, gateway status\<close>

record alert_payload =
  al_GatewayID :: string
  al_LastSeen :: time
  al_TimeoutMs :: i64
  al_Timestamp :: time

record alert_config =
  cfg_TenantID :: string
  cfg_GatewayID :: "string option"
  cfg_TimeoutMs :: i64

datatype gateway_status = Offline | Online

record gateway_status_update =
  upd_GatewayID :: string
  upd_Status :: gateway_status
  upd_LastSeenAt :: time

record gateway_status_update_response =
  resp_Success :: bool
  resp_Error :: string

section \<open>Lifecycle states\<close>

type_synonym lifecycle_state = string

definition LifecycleOnline :: lifecycle_state where "LifecycleOnline = ''online''"
definition LifecycleOffline :: lifecycle_state where "LifecycleOffline = ''offline''"
definition LifecyclePaused :: lifecycle_state where "LifecyclePaused = ''paused''"
definition LifecycleProvisioning :: lifecycle_state where "LifecycleProvisioning = ''provisioning''"
definition LifecycleUnknown :: lifecycle_state where "LifecycleUnknown = ''unknown''"

lemmas lifecycle_defs =
  LifecycleOnline_def LifecycleOffline_def LifecyclePaused_def LifecycleProvisioning_def
  LifecycleUnknown_def

record gateway_lifecycle_request =
  lreq_GatewayID :: string
  lreq_TenantID :: string

record gateway_lifecycle_response =
  lresp_GatewayID :: string
  lresp_State :: lifecycle_state

section \<open>The world and the driven ports\<close>

text \<open>
  A call of the service reads and changes a world: the metric handles, which every component
  shares, and a part \<open>ext\<close> that belongs to the outside (NATS, PostgreSQL, the clock, the other
  components), whose type is a parameter. A call through a port is a function of its arguments and
  the world that returns its result and the new world.
\<close>

record 'x world =
  mtr :: metrics
  ext :: 'x

definition with_metrics :: "(metrics \<Rightarrow> metrics) \<Rightarrow> 'x world \<Rightarrow> 'x world" where
  "with_metrics f w = w\<lparr>mtr := f (mtr w)\<rparr>"

lemma with_metrics_simps [simp]:
  "mtr (with_metrics f w) = f (mtr w)" "ext (with_metrics f w) = ext w"
  by (simp_all add: with_metrics_def)

text \<open>A call to the outside cannot touch the metric handles of the service.\<close>

definition outside :: "('x \<Rightarrow> 'a \<times> 'x) \<Rightarrow> 'x world \<Rightarrow> 'a \<times> 'x world" where
  "outside f w = (let (a, x) = f (ext w) in (a, w\<lparr>ext := x\<rparr>))"

lemma outside_simps [simp]:
  "mtr (snd (outside f w)) = mtr w" "ext (snd (outside f w)) = snd (f (ext w))"
  "fst (outside f w) = fst (f (ext w))"
  by (simp_all add: outside_def split: prod.splits)

lemma outsideE: "outside f w = (a, w') \<Longrightarrow> f (ext w) = (a, ext w') \<and> mtr w' = mtr w"
  by (auto simp: outside_def split: prod.splits)

record 'x driven_ports =
  clock_Now :: "'x world \<Rightarrow> time \<times> 'x world"
  Publish :: "string \<Rightarrow> alert_payload \<Rightarrow> 'x world \<Rightarrow> go_error option \<times> 'x world"
  UpdateStatus :: "gateway_status_update \<Rightarrow> 'x world \<Rightarrow> go_error option \<times> 'x world"
  TimeoutFor :: "string \<Rightarrow> string \<Rightarrow> 'x world \<Rightarrow> i64"
  GetGatewayLifecycle ::
    "string \<Rightarrow> string \<Rightarrow> 'x world \<Rightarrow> (lifecycle_state \<times> go_error option) \<times> 'x world"

text \<open>
  The driving ports, through which adapters call the core. A check of the timer leaves open in which
  order the map is iterated; what the call is given for it is a parameter.
\<close>

type_synonym 'x telemetry_message_handler =
  "string \<Rightarrow> telemetry_envelope \<Rightarrow> 'x world \<Rightarrow> (go_error option \<times> 'x world) go_result"

type_synonym 'x decommission_event_handler = "string \<Rightarrow> string \<Rightarrow> 'x world \<Rightarrow> 'x world"

type_synonym ('x, 'o) heartbeat_ticker = "'o \<Rightarrow> 'x world \<Rightarrow> 'x world go_result"

end
