(* ===== verification/Tracker.thy ===== *)
theory Tracker
  imports Domain_Model "HOL-Library.List_Lexorder" "HOL-Library.Char_ord"
begin

text \<open>
  \<open>internal/service/heartbeat_tracker.go\<close>: the heartbeat tracker, with one definition per method.
  A method is a function of the driven ports, its arguments, the tracker and the world; a panic is a
  result. Methods are taken here as the code of one goroutine; \<open>Tracker_Concurrent\<close> interleaves them.
\<close>

section \<open>State\<close>

datatype gateway_key = GatewayKey (key_tenantID: string) (key_gatewayID: string)

record heartbeat_entry =
  he_tenantID :: string
  he_gatewayID :: string
  lastSeen :: time
  knownStatus :: gateway_status

record status_update_job =
  job_update :: gateway_status_update

text \<open>
  The background goroutine is blocked in its receive (\<open>Parked\<close>), about to receive (\<open>Ready\<close>), holding
  a job it has received (\<open>Got\<close>), or has left its loop and closed \<open>done\<close> (\<open>Finished\<close>). A send on the
  channel hands its value straight to a parked receiver and otherwise needs a free place in the
  buffer, which is why the model keeps track of it: with a buffer of size 0 only the hand-over works.
\<close>

datatype worker_state = Parked | Ready | Got status_update_job | Finished

record tracker =
  startTime :: time
  gracePeriod :: duration
  beats :: "gateway_key \<rightharpoonup> heartbeat_entry"
  dispatchCap :: nat
  dispatchCh :: "status_update_job list"
  dispatchClosed :: bool
  worker :: worker_state

definition entry_key :: "heartbeat_entry \<Rightarrow> gateway_key" where
  "entry_key e = GatewayKey (he_tenantID e) (he_gatewayID e)"

definition tracked :: "tracker \<Rightarrow> nat" where
  "tracked t = card (dom (beats t))"

type_synonym 'x tstate = "tracker \<times> 'x world"

section \<open>Construction\<close>

text \<open>\<open>make(chan T, n)\<close> panics for a negative \<open>n\<close>.\<close>

definition NewHeartbeatTracker ::
    "'x driven_ports \<Rightarrow> i64 \<Rightarrow> duration \<Rightarrow> 'x world \<Rightarrow> 'x tstate go_result" where
  "NewHeartbeatTracker P bufSize grace w =
     (let (now, w1) = clock_Now P w in
      if sint bufSize < 0 then Panic ''makechan: size out of range''
      else Ret (\<lparr>startTime = now, gracePeriod = grace, beats = Map.empty,
                 dispatchCap = nat (sint bufSize), dispatchCh = [], dispatchClosed = False,
                 worker = Ready\<rparr>, w1))"

section \<open>Dispatch of status updates\<close>

text \<open>
  The \<open>select\<close> with a \<open>default\<close> case: \<open>Ret None\<close> is the default case. A send on a closed channel panics
  even in a \<open>select\<close> with a default.
\<close>

definition try_send :: "status_update_job \<Rightarrow> tracker \<Rightarrow> tracker option go_result" where
  "try_send j t =
     (if dispatchClosed t then Panic ''send on closed channel''
      else if worker t = Parked then Ret (Some (t\<lparr>worker := Got j\<rparr>))
      else if length (dispatchCh t) < dispatchCap t
        then Ret (Some (t\<lparr>dispatchCh := dispatchCh t @ [j]\<rparr>))
      else Ret None)"

definition dispatchStatusUpdate ::
    "gateway_status_update \<Rightarrow> 'x tstate \<Rightarrow> 'x tstate go_result" where
  "dispatchStatusUpdate u s =
     (let (t, w) = s in
      go_bind (try_send \<lparr>job_update = u\<rparr> t)
        (\<lambda>r. case r of
            Some t' \<Rightarrow> Ret (t', w)
          | None \<Rightarrow> Ret (t, with_metrics IncStatusUpdateDropped w)))"

text \<open>The loop of \<open>dispatchWorker\<close>, one step at a time: receive a job, then perform it.\<close>

definition worker_receive :: "tracker \<Rightarrow> tracker" where
  "worker_receive t =
     (case dispatchCh t of
        j # js \<Rightarrow> t\<lparr>dispatchCh := js, worker := Got j\<rparr>
      | [] \<Rightarrow> t\<lparr>worker := (if dispatchClosed t then Finished else Parked)\<rparr>)"

definition worker_perform :: "'x driven_ports \<Rightarrow> status_update_job \<Rightarrow> 'x tstate \<Rightarrow> 'x tstate" where
  "worker_perform P j s =
     (let (t, w) = s;
          w1 = with_metrics (SetDispatchQueueLength (int (length (dispatchCh t)))) w;
          (err, w2) = UpdateStatus P (job_update j) w1
      in (t\<lparr>worker := Ready\<rparr>, w2))"

text \<open>
  The loop runs on until it blocks in a receive on the open, empty channel or has drained the closed
  one.
\<close>

function dispatchWorker :: "'x driven_ports \<Rightarrow> 'x tstate \<Rightarrow> 'x tstate" where
  "dispatchWorker P (t, w) =
     (case worker t of
        Parked \<Rightarrow> (t, w)
      | Finished \<Rightarrow> (t, w)
      | Ready \<Rightarrow> dispatchWorker P (worker_receive t, w)
      | Got j \<Rightarrow> dispatchWorker P (worker_perform P j (t, w)))"
  by pat_completeness auto
termination
  by (relation "measure (\<lambda>(P, t, w). 2 * length (dispatchCh t) +
        (case worker t of Ready \<Rightarrow> 1 | Got j \<Rightarrow> 2 | _ \<Rightarrow> 0))")
     (auto simp: worker_receive_def worker_perform_def Let_def split: list.splits prod.splits)

declare dispatchWorker.simps [simp del]

text \<open>
  \<open>Close\<close>: the first call closes the channel, which wakes a parked receiver, and waits until the
  worker is done; later calls do nothing.
\<close>

definition close_channel :: "tracker \<Rightarrow> tracker" where
  "close_channel t =
     t\<lparr>dispatchClosed := True, worker := (if worker t = Parked then Ready else worker t)\<rparr>"

definition Close :: "'x driven_ports \<Rightarrow> 'x tstate \<Rightarrow> 'x tstate" where
  "Close P s = (let (t, w) = s in
     if dispatchClosed t then (t, w) else dispatchWorker P (close_channel t, w))"

section \<open>Telemetry and decommission events\<close>

text \<open>The part of \<open>HandleTelemetry\<close> under the write lock, for a clock reading taken before it.\<close>

definition telemetry_locked ::
    "time \<Rightarrow> string \<Rightarrow> string \<Rightarrow> 'x tstate \<Rightarrow> 'x tstate go_result" where
  "telemetry_locked now tenantID gatewayID s =
     (let (t, w) = s; key = GatewayKey tenantID gatewayID in
      case beats t key of
        None \<Rightarrow>
          (let t1 = t\<lparr>beats := (beats t)(key \<mapsto>
                 \<lparr>he_tenantID = tenantID, he_gatewayID = gatewayID, lastSeen = now,
                  knownStatus = Online\<rparr>)\<rparr>;
               w1 = with_metrics (SetHeartbeatMapSize (int (tracked t1))) w
           in dispatchStatusUpdate
                \<lparr>upd_GatewayID = gatewayID, upd_Status = Online, upd_LastSeenAt = now\<rparr> (t1, w1))
      | Some entry \<Rightarrow>
          (let entry1 = entry\<lparr>lastSeen := now\<rparr> in
           if knownStatus entry1 = Offline
           then dispatchStatusUpdate
                  \<lparr>upd_GatewayID = gatewayID, upd_Status = Online, upd_LastSeenAt = now\<rparr>
                  (t\<lparr>beats := (beats t)(key \<mapsto> entry1\<lparr>knownStatus := Online\<rparr>)\<rparr>, w)
           else Ret (t\<lparr>beats := (beats t)(key \<mapsto> entry1)\<rparr>, w)))"

definition HandleTelemetry ::
    "'x driven_ports \<Rightarrow> string \<Rightarrow> telemetry_envelope \<Rightarrow> 'x tstate
       \<Rightarrow> (go_error option \<times> 'x tstate) go_result" where
  "HandleTelemetry P tenantID env s =
     (let (t, w) = s; (now, w1) = clock_Now P w in
      go_bind (telemetry_locked now tenantID (env_GatewayID env) (t, w1)) (\<lambda>s'. Ret (None, s')))"

definition HandleDecommission :: "string \<Rightarrow> string \<Rightarrow> 'x tstate \<Rightarrow> 'x tstate" where
  "HandleDecommission tenantID gatewayID s =
     (let (t, w) = s;
          t1 = t\<lparr>beats := (beats t)(GatewayKey tenantID gatewayID := None)\<rparr>
      in (t1, with_metrics (SetHeartbeatMapSize (int (tracked t1))) w))"

section \<open>The periodic liveness check\<close>

text \<open>
  Go iterates over a map in an order of its own choosing: \<open>order\<close> is that order, a list of all keys
  without repetition. The snapshot is the list of copied entries.
\<close>

definition iteration_order :: "gateway_key list \<Rightarrow> tracker \<Rightarrow> bool" where
  "iteration_order order t \<longleftrightarrow> distinct order \<and> set order = dom (beats t)"

definition snapshot :: "gateway_key list \<Rightarrow> tracker \<Rightarrow> heartbeat_entry list" where
  "snapshot order t = List.map_filter (beats t) order"

definition deadline :: "heartbeat_entry \<Rightarrow> i64 \<Rightarrow> time" where
  "deadline e timeoutMs = time_add (lastSeen e) (of_ms timeoutMs)"

text \<open>Phase 3: mark the gateway offline, if it is still tracked.\<close>

definition mark_offline :: "gateway_key \<Rightarrow> tracker \<Rightarrow> tracker" where
  "mark_offline key t =
     (case beats t key of
        None \<Rightarrow> t
      | Some real \<Rightarrow> t\<lparr>beats := (beats t)(key \<mapsto> real\<lparr>knownStatus := Offline\<rparr>)\<rparr>)"

definition offline_alert :: "time \<Rightarrow> heartbeat_entry \<Rightarrow> i64 \<Rightarrow> alert_payload" where
  "offline_alert now e timeoutMs =
     \<lparr>al_GatewayID = he_gatewayID e, al_LastSeen = lastSeen e, al_TimeoutMs = timeoutMs,
      al_Timestamp = now\<rparr>"

definition offline_update :: "heartbeat_entry \<Rightarrow> gateway_status_update" where
  "offline_update e =
     \<lparr>upd_GatewayID = he_gatewayID e, upd_Status = Offline, upd_LastSeenAt = lastSeen e\<rparr>"

text \<open>The body of the loop of phase 2, for one entry of the snapshot.\<close>

definition tick_entry ::
    "'x driven_ports \<Rightarrow> time \<Rightarrow> heartbeat_entry \<Rightarrow> 'x tstate \<Rightarrow> 'x tstate go_result" where
  "tick_entry P now e s =
     (let (t, w) = s in
      if knownStatus e = Offline then Ret (t, w)
      else
        let timeoutMs = TimeoutFor P (he_tenantID e) (he_gatewayID e) w in
        if time_before now (deadline e timeoutMs) then Ret (t, w)
        else
          let ((state, err), w1) = GetGatewayLifecycle P (he_tenantID e) (he_gatewayID e) w in
          if err = None \<and> state = LifecyclePaused then Ret (t, w1)
          else
            case Publish P (he_tenantID e) (offline_alert now e timeoutMs) w1 of
              (Some e', w2) \<Rightarrow> Ret (t, w2)
            | (None, w2) \<Rightarrow>
                go_bind (dispatchStatusUpdate (offline_update e) (t, w2))
                  (\<lambda>(t1, w3). Ret (mark_offline (entry_key e) t1, w3)))"

definition Tick ::
    "'x driven_ports \<Rightarrow> gateway_key list \<Rightarrow> 'x tstate \<Rightarrow> 'x tstate go_result" where
  "Tick P order s =
     (let (t, w) = s; (now0, w0) = clock_Now P w in
      if time_before now0 (time_add (startTime t) (gracePeriod t)) then Ret (t, w0)
      else
        let (now, w1) = clock_Now P w0 in
        fold_result (tick_entry P now) (snapshot order t) (t, w1))"

end
