(* ===== verification/Tracker_Lemmas.thy ===== *)
theory Tracker_Lemmas
  imports Tracker
begin

text \<open>
  The library of the heartbeat tracker: its well-formedness invariant, what its operations leave
  unchanged, the verdict that a tick reaches on each entry, and the progress of the dispatch worker.
\<close>

section \<open>Well-formed trackers\<close>

definition tracker_inv :: "tracker \<Rightarrow> bool" where
  "tracker_inv t \<longleftrightarrow>
     finite (dom (beats t)) \<and>
     (\<forall>k e. beats t k = Some e \<longrightarrow> entry_key e = k) \<and>
     length (dispatchCh t) \<le> dispatchCap t \<and>
     (worker t = Parked \<longrightarrow> dispatchCh t = [] \<and> \<not> dispatchClosed t) \<and>
     (worker t = Finished \<longrightarrow> dispatchCh t = [] \<and> dispatchClosed t)"

lemma tracker_invD:
  assumes "tracker_inv t"
  shows "finite (dom (beats t))" and "beats t k = Some e \<Longrightarrow> entry_key e = k"
    and "length (dispatchCh t) \<le> dispatchCap t"
    and "worker t = Parked \<Longrightarrow> dispatchCh t = [] \<and> \<not> dispatchClosed t"
    and "worker t = Finished \<Longrightarrow> dispatchCh t = [] \<and> dispatchClosed t"
  using assms unfolding tracker_inv_def by blast+

text \<open>The invariant depends on the map only through its keys and the keys of its entries.\<close>

lemma tracker_inv_beats:
  assumes "tracker_inv t" and "\<And>k e. m k = Some e \<Longrightarrow> entry_key e = k" and "finite (dom m)"
  shows "tracker_inv (t\<lparr>beats := m\<rparr>)"
  using assms by (simp add: tracker_inv_def)

lemma tracker_inv_upd:
  assumes "tracker_inv t" and "entry_key e = k"
  shows "tracker_inv (t\<lparr>beats := (beats t)(k \<mapsto> e)\<rparr>)"
  using assms by (intro tracker_inv_beats) (auto simp: tracker_invD split: if_splits)

section \<open>Sending\<close>

lemma try_send_Ret:
  "try_send j t = Ret r \<longleftrightarrow> \<not> dispatchClosed t \<and>
     r = (if worker t = Parked then Some (t\<lparr>worker := Got j\<rparr>)
          else if length (dispatchCh t) < dispatchCap t
            then Some (t\<lparr>dispatchCh := dispatchCh t @ [j]\<rparr>)
          else None)"
  by (auto simp: try_send_def)

lemma try_send_inv: "tracker_inv t \<Longrightarrow> try_send j t = Ret (Some t') \<Longrightarrow> tracker_inv t'"
  by (auto simp: try_send_Ret tracker_inv_def split: if_splits)

lemma try_send_frame:
  assumes "try_send j t = Ret (Some t')"
  shows "beats t' = beats t" "startTime t' = startTime t" "gracePeriod t' = gracePeriod t"
    "dispatchCap t' = dispatchCap t" "dispatchClosed t' = dispatchClosed t"
  using assms by (auto simp: try_send_Ret split: if_splits)

text \<open>The jobs that have been accepted and not performed yet, oldest first.\<close>

definition pending_jobs :: "tracker \<Rightarrow> status_update_job list" where
  "pending_jobs t = (case worker t of Got j \<Rightarrow> [j] | _ \<Rightarrow> []) @ dispatchCh t"

lemma try_send_pending:
  "tracker_inv t \<Longrightarrow> try_send j t = Ret (Some t') \<Longrightarrow> pending_jobs t' = pending_jobs t @ [j]"
  by (auto simp: try_send_Ret pending_jobs_def dest: tracker_invD(4)
           split: if_splits worker_state.splits)

lemma dispatch_cases:
  assumes "dispatchStatusUpdate u (t, w) = Ret (t', w')"
  obtains (sent) "try_send \<lparr>job_update = u\<rparr> t = Ret (Some t')" "w' = w"
  | (dropped) "try_send \<lparr>job_update = u\<rparr> t = Ret None" "t' = t"
      "w' = with_metrics IncStatusUpdateDropped w"
  using assms
  by (cases "try_send \<lparr>job_update = u\<rparr> t")
     (auto simp: dispatchStatusUpdate_def split: option.splits)

lemma dispatch_frame [tracker_frame]:
  assumes "dispatchStatusUpdate u (t, w) = Ret (t', w')"
  shows "beats t' = beats t" "startTime t' = startTime t" "gracePeriod t' = gracePeriod t"
    "dispatchCap t' = dispatchCap t" "dispatchClosed t' = dispatchClosed t"
    "ext w' = ext w" "AlertsPublished (mtr w') = AlertsPublished (mtr w)"
  using assms by (auto elim!: dispatch_cases simp: try_send_frame IncStatusUpdateDropped_def)

lemma dispatch_inv:
  "tracker_inv t \<Longrightarrow> dispatchStatusUpdate u (t, w) = Ret (t', w') \<Longrightarrow> tracker_inv t'"
  by (erule dispatch_cases) (auto intro: try_send_inv)

lemma dispatch_returns_iff:
  "(\<exists>s'. dispatchStatusUpdate u (t, w) = Ret s') \<longleftrightarrow> \<not> dispatchClosed t"
  by (auto simp: dispatchStatusUpdate_def try_send_def split: option.splits)

lemma dispatch_closed:
  "dispatchClosed t \<Longrightarrow>
     dispatchStatusUpdate u (t, w) = Panic ''send on closed channel''"
  by (simp add: dispatchStatusUpdate_def try_send_def)

section \<open>Telemetry and decommission\<close>

lemma telemetry_locked_beats:
  assumes "telemetry_locked now tenantID gatewayID (t, w) = Ret (t', w')"
  shows "beats t' = (beats t)(GatewayKey tenantID gatewayID \<mapsto>
           (case beats t (GatewayKey tenantID gatewayID) of
              None \<Rightarrow> \<lparr>he_tenantID = tenantID, he_gatewayID = gatewayID, lastSeen = now,
                        knownStatus = Online\<rparr>
            | Some e \<Rightarrow> e\<lparr>lastSeen := now, knownStatus := Online\<rparr>))"
  using assms
  by (cases "beats t (GatewayKey tenantID gatewayID)")
     (auto simp: telemetry_locked_def Let_def dest!: dispatch_frame(1) split: if_splits;
      cases "knownStatus (the (beats t (GatewayKey tenantID gatewayID)))"; simp)+

lemma telemetry_locked_frame [tracker_frame]:
  assumes "telemetry_locked now tenantID gatewayID (t, w) = Ret (t', w')"
  shows "startTime t' = startTime t" "gracePeriod t' = gracePeriod t"
    "dispatchCap t' = dispatchCap t" "dispatchClosed t' = dispatchClosed t" "ext w' = ext w"
  using assms
  by (auto simp: telemetry_locked_def Let_def dest: dispatch_frame split: option.splits if_splits)

lemma telemetry_locked_inv:
  assumes "tracker_inv t" and "telemetry_locked now tenantID gatewayID (t, w) = Ret (t', w')"
  shows "tracker_inv t'"
proof -
  let ?k = "GatewayKey tenantID gatewayID"
  have upd: "tracker_inv t1 \<Longrightarrow> dispatchStatusUpdate u (t1, w1) = Ret (t', w') \<Longrightarrow> tracker_inv t'"
    for u t1 w1 by (rule dispatch_inv)
  show ?thesis
  proof (cases "beats t ?k")
    case None
    have "tracker_inv (t\<lparr>beats := (beats t)(?k \<mapsto>
        \<lparr>he_tenantID = tenantID, he_gatewayID = gatewayID, lastSeen = now, knownStatus = Online\<rparr>)\<rparr>)"
      by (rule tracker_inv_upd [OF assms(1)]) (simp add: entry_key_def)
    with None assms(2) show ?thesis
      by (simp add: telemetry_locked_def Let_def upd)
  next
    case (Some e)
    then have "entry_key e = ?k" by (rule tracker_invD(2) [OF assms(1)])
    then have "tracker_inv (t\<lparr>beats := (beats t)(?k \<mapsto> e\<lparr>lastSeen := now\<rparr>)\<rparr>)"
      and "tracker_inv (t\<lparr>beats := (beats t)(?k \<mapsto> e\<lparr>lastSeen := now, knownStatus := Online\<rparr>)\<rparr>)"
      by (auto intro!: tracker_inv_upd [OF assms(1)] simp: entry_key_def)
    with Some assms(2) show ?thesis
      by (auto simp: telemetry_locked_def Let_def upd split: if_splits)
  qed
qed

lemma telemetry_locked_returns:
  "\<not> dispatchClosed t \<Longrightarrow> \<exists>t' w'. telemetry_locked now tenantID gatewayID (t, w) = Ret (t', w')"
  using dispatch_returns_iff [where 'a = 'a]
  by (auto simp: telemetry_locked_def Let_def split: option.splits)

lemma HandleTelemetry_Ret:
  "HandleTelemetry P tenantID env (t, w) = Ret (r, s') \<longleftrightarrow>
     r = None \<and> telemetry_locked (fst (clock_Now P w)) tenantID (env_GatewayID env)
                  (t, snd (clock_Now P w)) = Ret s'"
  by (cases s') (auto simp: HandleTelemetry_def go_bind_Ret_iff split: prod.splits)

lemma HandleDecommission_beats [simp]:
  "beats (fst (HandleDecommission tenantID gatewayID s)) =
     (beats (fst s))(GatewayKey tenantID gatewayID := None)"
  by (simp add: HandleDecommission_def Let_def split: prod.splits)

lemma HandleDecommission_inv:
  "tracker_inv (fst s) \<Longrightarrow> tracker_inv (fst (HandleDecommission tenantID gatewayID s))"
  by (auto simp: HandleDecommission_def Let_def tracker_invD intro!: tracker_inv_beats
           split: prod.splits if_splits)

section \<open>A canonical iteration order\<close>

text \<open>
  Gateway keys are ordered by tenant and then by gateway. Go's iteration order is arbitrary; this
  order shows that one always exists.
\<close>

instantiation gateway_key :: linorder
begin

definition less_eq_gateway_key :: "gateway_key \<Rightarrow> gateway_key \<Rightarrow> bool" where
  "less_eq_gateway_key a b \<longleftrightarrow> key_tenantID a < key_tenantID b
     \<or> key_tenantID a = key_tenantID b \<and> key_gatewayID a \<le> key_gatewayID b"

definition less_gateway_key :: "gateway_key \<Rightarrow> gateway_key \<Rightarrow> bool" where
  "less_gateway_key a b \<longleftrightarrow> key_tenantID a < key_tenantID b
     \<or> key_tenantID a = key_tenantID b \<and> key_gatewayID a < key_gatewayID b"

instance
proof
  fix a b :: gateway_key
  show "a \<le> b \<Longrightarrow> b \<le> a \<Longrightarrow> a = b"
    by (cases a; cases b) (auto simp: less_eq_gateway_key_def)
qed (auto simp: less_eq_gateway_key_def less_gateway_key_def)

end

definition canonical_order :: "tracker \<Rightarrow> gateway_key list" where
  "canonical_order t = sorted_list_of_set (dom (beats t))"

lemma canonical_order_ok: "tracker_inv t \<Longrightarrow> iteration_order (canonical_order t) t"
  by (simp add: iteration_order_def canonical_order_def tracker_invD(1))

end
