(* ===== verification/Tracker_Tick.thy ===== *)
theory Tracker_Tick
  imports Tracker_Lemmas
begin

text \<open>
  Lemmas on \<open>Tick\<close>: the verdict the loop reaches on an entry of the snapshot, the effect of the whole
  loop as a function of the verdicts, and the drain of the dispatch channel by the worker.
\<close>

section \<open>Verdicts\<close>

datatype verdict = Already_offline | Not_due | Silenced | Publish_failed | Fired

text \<open>
  What phase 2 decides for an entry in a world, and the world after its queries: the code up to the
  dispatch of the status update.
\<close>

definition tick_verdict ::
    "'x driven_ports \<Rightarrow> time \<Rightarrow> heartbeat_entry \<Rightarrow> 'x world \<Rightarrow> verdict \<times> 'x world" where
  "tick_verdict P now e w =
     (let timeoutMs = TimeoutFor P (he_tenantID e) (he_gatewayID e) w;
          ((state, err), w1) = GetGatewayLifecycle P (he_tenantID e) (he_gatewayID e) w;
          (pe, w2) = Publish P (he_tenantID e) (offline_alert now e timeoutMs) w1
      in if knownStatus e = Offline then (Already_offline, w)
         else if now < deadline e timeoutMs then (Not_due, w)
         else if err = None \<and> state = LifecyclePaused then (Silenced, w1)
         else if pe \<noteq> None then (Publish_failed, w2)
         else (Fired, w2))"

definition fire :: "heartbeat_entry \<Rightarrow> 'x tstate \<Rightarrow> 'x tstate go_result" where
  "fire e s = go_bind (dispatchStatusUpdate (offline_update e) s)
                (\<lambda>(t1, w1). Ret (mark_offline (entry_key e) t1, w1))"

lemma tick_entry_verdict:
  "tick_entry P now e (t, w) =
     (case tick_verdict P now e w of
        (Fired, w') \<Rightarrow> fire e (t, w')
      | (v, w') \<Rightarrow> Ret (t, w'))"
  by (auto simp: tick_entry_def tick_verdict_def fire_def Let_def time_before_def
           split: prod.splits option.splits)

lemma tick_verdict_Fired:
  "fst (tick_verdict P now e w) = Fired \<longleftrightarrow>
     knownStatus e = Online
     \<and> deadline e (TimeoutFor P (he_tenantID e) (he_gatewayID e) w) \<le> now
     \<and> (let ((state, err), w1) = GetGatewayLifecycle P (he_tenantID e) (he_gatewayID e) w in
         (err \<noteq> None \<or> state \<noteq> LifecyclePaused)
         \<and> fst (Publish P (he_tenantID e)
              (offline_alert now e (TimeoutFor P (he_tenantID e) (he_gatewayID e) w)) w1) = None)"
  by (cases "knownStatus e") (auto simp: tick_verdict_def Let_def split: prod.splits)

lemma tick_verdict_queries:
  "fst (tick_verdict P now e w) \<in> {Already_offline, Not_due} \<Longrightarrow> snd (tick_verdict P now e w) = w"
  by (auto simp: tick_verdict_def Let_def split: prod.splits if_splits)

lemma mark_offline_beats [simp]:
  "beats (mark_offline k t) = (beats t)(k := map_option (\<lambda>e. e\<lparr>knownStatus := Offline\<rparr>) (beats t k))"
  by (auto simp: mark_offline_def fun_eq_iff split: option.splits)

lemma mark_offline_frame [simp]:
  "startTime (mark_offline k t) = startTime t" "gracePeriod (mark_offline k t) = gracePeriod t"
  "dispatchCap (mark_offline k t) = dispatchCap t" "dispatchCh (mark_offline k t) = dispatchCh t"
  "dispatchClosed (mark_offline k t) = dispatchClosed t" "worker (mark_offline k t) = worker t"
  by (simp_all add: mark_offline_def split: option.splits)

lemma mark_offline_inv: "tracker_inv t \<Longrightarrow> tracker_inv (mark_offline k t)"
proof -
  assume inv: "tracker_inv t"
  have "entry_key (e\<lparr>knownStatus := Offline\<rparr>) = k" if "beats t k = Some e" for e
    using tracker_invD(2) [OF inv that] by (simp add: entry_key_def)
  with inv show ?thesis
    by (auto simp: mark_offline_def intro: tracker_inv_upd split: option.splits)
qed

lemma fire_Ret:
  "fire e (t, w) = Ret (t', w') \<longleftrightarrow>
     (\<exists>t1. dispatchStatusUpdate (offline_update e) (t, w) = Ret (t1, w')
        \<and> t' = mark_offline (entry_key e) t1)"
  by (auto simp: fire_def go_bind_Ret_iff)

lemma fire_returns: "\<not> dispatchClosed t \<Longrightarrow> \<exists>s'. fire e (t, w) = Ret s'"
  using dispatch_returns_iff [of "offline_update e" t w] by (auto simp: fire_def)

section \<open>One entry\<close>

text \<open>The fields that no method of an open tracker changes.\<close>

definition tracker_config :: "tracker \<Rightarrow> time \<times> duration \<times> nat \<times> bool" where
  "tracker_config t = (startTime t, gracePeriod t, dispatchCap t, dispatchClosed t)"

definition set_offline :: "gateway_key set \<Rightarrow> (gateway_key \<rightharpoonup> heartbeat_entry) \<Rightarrow> (gateway_key \<rightharpoonup> heartbeat_entry)"
where
  "set_offline K m = (\<lambda>k. if k \<in> K then map_option (\<lambda>e. e\<lparr>knownStatus := Offline\<rparr>) (m k) else m k)"

lemma set_offline_empty [simp]: "set_offline {} m = m"
  by (simp add: set_offline_def)

lemma set_offline_Un: "set_offline A (set_offline B m) = set_offline (A \<union> B) m"
  by (auto simp: set_offline_def fun_eq_iff option.map_comp comp_def)

lemma dom_set_offline [simp]: "dom (set_offline K m) = dom m"
  by (auto simp: set_offline_def dom_def)

lemma tick_entry_Ret:
  assumes "tick_entry P now e (t, w) = Ret (t', w')"
  shows "beats t' = set_offline (if fst (tick_verdict P now e w) = Fired then {entry_key e} else {})
           (beats t)"
    and "tracker_config t' = tracker_config t"
    and "tracker_inv t \<Longrightarrow> tracker_inv t'"
proof -
  obtain v w1 where v: "tick_verdict P now e w = (v, w1)" by (cases "tick_verdict P now e w")
  have "beats t' = set_offline (if v = Fired then {entry_key e} else {}) (beats t)
      \<and> tracker_config t' = tracker_config t
      \<and> (tracker_inv t \<longrightarrow> tracker_inv t')"
  proof (cases "v = Fired")
    case True
    with assms v obtain t1 where t1: "dispatchStatusUpdate (offline_update e) (t, w1) = Ret (t1, w')"
      "t' = mark_offline (entry_key e) t1"
      by (auto simp: tick_entry_verdict fire_Ret)
    then have "tracker_inv t \<longrightarrow> tracker_inv t'"
      by (auto intro: mark_offline_inv dispatch_inv)
    with True t1 show ?thesis
      by (simp add: set_offline_def fun_eq_iff tracker_config_def dispatch_frame [OF t1(1)])
  next
    case False
    with assms v have "t' = t" by (cases v) (auto simp: tick_entry_verdict)
    with False show ?thesis by simp
  qed
  with v show "beats t' = set_offline (if fst (tick_verdict P now e w) = Fired then {entry_key e} else {})
           (beats t)"
    and "tracker_config t' = tracker_config t"
    and "tracker_inv t \<Longrightarrow> tracker_inv t'" by simp_all
qed

lemma tick_entry_returns:
  "\<not> dispatchClosed t \<Longrightarrow> \<exists>s'. tick_entry P now e (t, w) = Ret s'"
  using fire_returns [of t e]
  by (cases "tick_verdict P now e w"; cases "fst (tick_verdict P now e w)")
     (auto simp: tick_entry_verdict)

section \<open>The loop over the snapshot\<close>

text \<open>The verdicts of a run of the loop, in order; the run stops where an entry panics.\<close>

fun tick_verdicts ::
    "'x driven_ports \<Rightarrow> time \<Rightarrow> heartbeat_entry list \<Rightarrow> 'x tstate \<Rightarrow> (heartbeat_entry \<times> verdict) list" where
  "tick_verdicts P now [] s = []"
| "tick_verdicts P now (e # es) s =
     (e, fst (tick_verdict P now e (snd s))) #
     (case tick_entry P now e s of Panic _ \<Rightarrow> [] | Ret s' \<Rightarrow> tick_verdicts P now es s')"

definition fired_entries :: "(heartbeat_entry \<times> verdict) list \<Rightarrow> heartbeat_entry list" where
  "fired_entries vs = map fst (filter (\<lambda>(e, v). v = Fired) vs)"

definition fired_keys :: "(heartbeat_entry \<times> verdict) list \<Rightarrow> gateway_key set" where
  "fired_keys vs = set (map entry_key (fired_entries vs))"

lemma fired_simps [simp]:
  "fired_entries [] = []"
  "fired_entries ((e, v) # vs) = (if v = Fired then e # fired_entries vs else fired_entries vs)"
  "fired_keys [] = {}"
  "fired_keys ((e, v) # vs) = (if v = Fired then {entry_key e} else {}) \<union> fired_keys vs"
  by (simp_all add: fired_entries_def fired_keys_def)

lemma tick_verdicts_sound:
  "(e, v) \<in> set (tick_verdicts P now es s) \<Longrightarrow> e \<in> set es \<and> (\<exists>w1. v = fst (tick_verdict P now e w1))"
  by (induction es arbitrary: s) (auto split: go_result.splits)

lemma tick_verdicts_entries:
  "fold_result (tick_entry P now) es s = Ret s' \<Longrightarrow> map fst (tick_verdicts P now es s) = es"
  by (induction es arbitrary: s) (auto simp: go_bind_Ret_iff)

lemma tick_loop_Ret:
  assumes "fold_result (tick_entry P now) es (t, w) = Ret (t', w')"
  shows "beats t' = set_offline (fired_keys (tick_verdicts P now es (t, w))) (beats t)
    \<and> tracker_config t' = tracker_config t \<and> (tracker_inv t \<longrightarrow> tracker_inv t')"
  using assms
proof (induction es arbitrary: t w)
  case (Cons e es)
  then obtain t1 w1 where s1: "tick_entry P now e (t, w) = Ret (t1, w1)"
    "fold_result (tick_entry P now) es (t1, w1) = Ret (t', w')"
    by (auto simp: go_bind_Ret_iff)
  note step = tick_entry_Ret [OF s1(1)] and IH = Cons.IH [OF s1(2)]
  from IH step(1) s1(1)
  have "beats t' = set_offline (fired_keys (tick_verdicts P now (e # es) (t, w))) (beats t)"
    by (simp add: set_offline_Un Un_commute)
  with IH step(2,3) show ?case by simp
qed simp

lemma tick_loop_returns:
  assumes "\<not> dispatchClosed t"
  shows "\<exists>s'. fold_result (tick_entry P now) es (t, w) = Ret s'"
proof -
  have "\<exists>s'. fold_result (tick_entry P now) es (t, w) = Ret s' \<and> \<not> dispatchClosed (fst s')"
  proof (rule fold_result_returns)
    fix e and s :: "'a tstate"
    assume "\<not> dispatchClosed (fst s)"
    then obtain s' where "tick_entry P now e s = Ret s'"
      using tick_entry_returns [of "fst s" P now e "snd s"] by auto
    moreover from this have "dispatchClosed (fst s') = dispatchClosed (fst s)"
      using tick_entry_Ret(2) [of P now e "fst s" "snd s" "fst s'" "snd s'"] by (simp add: tracker_config_def)
    ultimately show "\<exists>s'. tick_entry P now e s = Ret s' \<and> \<not> dispatchClosed (fst s')"
      using \<open>\<not> dispatchClosed (fst s)\<close> by simp
  qed (use assms in simp)
  then show ?thesis by blast
qed

lemma set_snapshot: "iteration_order order t \<Longrightarrow> set (snapshot order t) = ran (beats t)"
  by (auto simp: snapshot_def iteration_order_def ran_def map_filter_def image_iff domIff)
     (metis domI option.sel)

lemma snapshot_keys:
  assumes "tracker_inv t" and "iteration_order order t"
  shows "map entry_key (snapshot order t) = order"
proof -
  have "map entry_key (List.map_filter (beats t) ks) = ks" if "set ks \<subseteq> dom (beats t)" for ks
    using that by (induction ks) (auto simp: map_filter_simps tracker_invD(2) [OF assms(1)] split: option.splits)
  then show ?thesis using assms(2) by (simp add: snapshot_def iteration_order_def)
qed

text \<open>In grace, or on the snapshot: the verdicts of a whole tick.\<close>

definition in_grace :: "'x driven_ports \<Rightarrow> 'x tstate \<Rightarrow> bool" where
  "in_grace P s \<longleftrightarrow> fst (clock_Now P (snd s)) < startTime (fst s) + sint (gracePeriod (fst s))"

definition Tick_verdicts ::
    "'x driven_ports \<Rightarrow> gateway_key list \<Rightarrow> 'x tstate \<Rightarrow> (heartbeat_entry \<times> verdict) list" where
  "Tick_verdicts P order s =
     (if in_grace P s then []
      else let (now, w1) = clock_Now P (snd (clock_Now P (snd s))) in
        tick_verdicts P now (snapshot order (fst s)) (fst s, w1))"

lemma Tick_unfold:
  "Tick P order (t, w) =
     (if in_grace P (t, w) then Ret (t, snd (clock_Now P w))
      else let (now, w1) = clock_Now P (snd (clock_Now P w)) in
        fold_result (tick_entry P now) (snapshot order t) (t, w1))"
  by (auto simp: Tick_def in_grace_def time_before_def time_add_def Let_def split: prod.splits)

lemma Tick_Ret:
  assumes "Tick P order (t, w) = Ret (t', w')"
  shows "beats t' = set_offline (fired_keys (Tick_verdicts P order (t, w))) (beats t)
    \<and> tracker_config t' = tracker_config t \<and> (tracker_inv t \<longrightarrow> tracker_inv t')"
proof (cases "in_grace P (t, w)")
  case True
  with assms show ?thesis by (simp add: Tick_unfold Tick_verdicts_def)
next
  case False
  obtain now w1 where n: "clock_Now P (snd (clock_Now P w)) = (now, w1)" by fastforce
  with assms False have "fold_result (tick_entry P now) (snapshot order t) (t, w1) = Ret (t', w')"
    by (simp add: Tick_unfold)
  from tick_loop_Ret [OF this] False n show ?thesis by (simp add: Tick_verdicts_def)
qed

lemma Tick_returns: "\<not> dispatchClosed t \<Longrightarrow> \<exists>t' w'. Tick P order (t, w) = Ret (t', w')"
  using tick_loop_returns [of t P] by (auto simp: Tick_unfold split: prod.splits)

end
