(* ===== verification/Tracker_Spec.thy ===== *)
theory Tracker_Spec
  imports Tracker_Tick
begin

text \<open>
  What the tracker promises, without clocks, channels or I/O: a fleet is the set of known gateways
  with their status, and three kinds of events change it. The detailed tracker refines it under the
  abstraction that forgets everything but the status of each entry.
\<close>

section \<open>The abstract fleet\<close>

type_synonym fleet = "gateway_key \<rightharpoonup> gateway_status"

datatype fleet_event =
    Heartbeat gateway_key
  | Decommissioned gateway_key
  | Timeouts "gateway_key set"

fun fleet_step :: "fleet_event \<Rightarrow> fleet \<Rightarrow> fleet" where
  "fleet_step (Heartbeat k) m = m(k \<mapsto> Online)"
| "fleet_step (Decommissioned k) m = m(k := None)"
| "fleet_step (Timeouts K) m = (\<lambda>k. if k \<in> K then map_option (\<lambda>_. Offline) (m k) else m k)"

text \<open>Only gateways that are online can time out.\<close>

fun fleet_enabled :: "fleet_event \<Rightarrow> fleet \<Rightarrow> bool" where
  "fleet_enabled (Timeouts K) m \<longleftrightarrow> (\<forall>k \<in> K. m k = Some Online)"
| "fleet_enabled _ m \<longleftrightarrow> True"

inductive fleet_run :: "fleet \<Rightarrow> fleet_event list \<Rightarrow> fleet \<Rightarrow> bool" where
  fleet_run_Nil: "fleet_run m [] m"
| fleet_run_Cons: "fleet_enabled ev m \<Longrightarrow> fleet_run (fleet_step ev m) evs m' \<Longrightarrow> fleet_run m (ev # evs) m'"

inductive_cases fleet_run_NilE [elim!]: "fleet_run m [] m'"
inductive_cases fleet_run_ConsE [elim!]: "fleet_run m (ev # evs) m'"

text \<open>The events that set the status of a gateway; the last of them decides.\<close>

fun concerns :: "gateway_key \<Rightarrow> fleet_event \<Rightarrow> bool" where
  "concerns k (Heartbeat k') \<longleftrightarrow> k' = k"
| "concerns k (Decommissioned k') \<longleftrightarrow> k' = k"
| "concerns k (Timeouts K) \<longleftrightarrow> k \<in> K"

lemma fleet_step_unconcerned: "\<not> concerns k ev \<Longrightarrow> fleet_step ev m k = m k"
  by (cases ev) auto

definition last_event :: "gateway_key \<Rightarrow> fleet_event list \<Rightarrow> fleet_event option" where
  "last_event k evs = (case rev (filter (concerns k) evs) of [] \<Rightarrow> None | ev # _ \<Rightarrow> Some ev)"

lemma last_event_snoc:
  "last_event k (evs @ [ev]) = (if concerns k ev then Some ev else last_event k evs)"
  by (simp add: last_event_def)

lemma fleet_run_snoc:
  "fleet_run m (evs @ [ev]) m' \<longleftrightarrow>
     (\<exists>m1. fleet_run m evs m1 \<and> fleet_enabled ev m1 \<and> m' = fleet_step ev m1)"
proof (induction evs arbitrary: m)
  case Nil
  then show ?case by (auto intro: fleet_run.intros)
next
  case (Cons e evs)
  then show ?case by (auto intro: fleet_run_Cons)
qed

text \<open>
  Starting from an empty fleet, the status of a gateway is what its last event says: online after a
  heartbeat, offline after a timeout, unknown after its decommissioning or before any event.
\<close>

lemma fleet_run_status:
  assumes "fleet_run Map.empty evs m"
  shows "m k = (case last_event k evs of
      Some (Heartbeat _) \<Rightarrow> Some Online
    | Some (Timeouts _) \<Rightarrow> Some Offline
    | _ \<Rightarrow> None)"
  using assms
proof (induction evs arbitrary: m rule: rev_induct)
  case Nil
  then show ?case by (auto simp: last_event_def)
next
  case (snoc ev evs)
  then obtain m1 where m1: "fleet_run Map.empty evs m1" "fleet_enabled ev m1" "m = fleet_step ev m1"
    by (auto simp: fleet_run_snoc)
  show ?case
  proof (cases "concerns k ev")
    case True
    with m1(2,3) show ?thesis by (cases ev) (auto simp: last_event_snoc)
  next
    case False
    with m1 snoc.IH [OF m1(1)] show ?thesis
      by (simp add: last_event_snoc fleet_step_unconcerned)
  qed
qed

section \<open>The abstraction\<close>

definition fleet_of :: "tracker \<Rightarrow> fleet" where
  "fleet_of t = (\<lambda>k. map_option knownStatus (beats t k))"

lemma fleet_of_upd: "beats t' = (beats t)(k \<mapsto> e) \<Longrightarrow> fleet_of t' = (fleet_of t)(k \<mapsto> knownStatus e)"
  by (simp add: fleet_of_def fun_eq_iff)

lemma fleet_of_set_offline:
  "beats t' = set_offline K (beats t) \<Longrightarrow> fleet_of t' = fleet_step (Timeouts K) (fleet_of t)"
  by (auto simp: fleet_of_def set_offline_def fun_eq_iff option.map_comp comp_def)

section \<open>Calls of the tracker\<close>

datatype tracker_call =
    Call_telemetry string telemetry_envelope
  | Call_decommission string string
  | Call_tick "gateway_key list"
  | Call_worker

fun exec_call :: "'x driven_ports \<Rightarrow> tracker_call \<Rightarrow> 'x tstate \<Rightarrow> 'x tstate go_result" where
  "exec_call P (Call_telemetry tenantID env) s =
     go_bind (HandleTelemetry P tenantID env s) (\<lambda>(err, s'). Ret s')"
| "exec_call P (Call_decommission tenantID gatewayID) s =
     Ret (HandleDecommission tenantID gatewayID s)"
| "exec_call P (Call_tick order) s = Tick P order s"
| "exec_call P Call_worker s = Ret (dispatchWorker P s)"

text \<open>The map order of a tick is an enumeration of the gateways tracked at that moment.\<close>

fun call_ok :: "tracker_call \<Rightarrow> tracker \<Rightarrow> bool" where
  "call_ok (Call_tick order) t \<longleftrightarrow> iteration_order order t"
| "call_ok _ t \<longleftrightarrow> True"

inductive exec_calls :: "'x driven_ports \<Rightarrow> 'x tstate \<Rightarrow> tracker_call list \<Rightarrow> 'x tstate \<Rightarrow> bool"
  for P where
  exec_Nil: "exec_calls P s [] s"
| exec_Cons: "call_ok c (fst s) \<Longrightarrow> exec_call P c s = Ret s1 \<Longrightarrow> exec_calls P s1 cs s'
     \<Longrightarrow> exec_calls P s (c # cs) s'"

text \<open>The event a call stands for; the worker's turn is none.\<close>

fun event_of :: "'x driven_ports \<Rightarrow> tracker_call \<Rightarrow> 'x tstate \<Rightarrow> fleet_event list" where
  "event_of P (Call_telemetry tenantID env) s = [Heartbeat (GatewayKey tenantID (env_GatewayID env))]"
| "event_of P (Call_decommission tenantID gatewayID) s = [Decommissioned (GatewayKey tenantID gatewayID)]"
| "event_of P (Call_tick order) s = [Timeouts (fired_keys (Tick_verdicts P order s))]"
| "event_of P Call_worker s = []"

lemma worker_receive_frame [simp]:
  "beats (worker_receive t) = beats t" "dispatchClosed (worker_receive t) = dispatchClosed t"
  "dispatchCap (worker_receive t) = dispatchCap t" "startTime (worker_receive t) = startTime t"
  "gracePeriod (worker_receive t) = gracePeriod t"
  by (simp_all add: worker_receive_def split: list.splits)

lemma worker_receive_inv: "worker t = Ready \<Longrightarrow> tracker_inv t \<Longrightarrow> tracker_inv (worker_receive t)"
  by (auto simp: worker_receive_def tracker_inv_def split: list.splits)

lemma worker_perform_fst [simp]: "fst (worker_perform P j (t, w)) = t\<lparr>worker := Ready\<rparr>"
  by (simp add: worker_perform_def Let_def split: prod.splits)

lemma dispatchWorker_frame:
  "beats (fst (dispatchWorker P (t, w))) = beats t
     \<and> tracker_config (fst (dispatchWorker P (t, w))) = tracker_config t
     \<and> (tracker_inv t \<longrightarrow> tracker_inv (fst (dispatchWorker P (t, w))))"
proof (induction P "(t, w)" arbitrary: t w rule: dispatchWorker.induct)
  case (1 P t w)
  show ?case
  proof (cases "worker t")
    case Ready
    with 1(1) show ?thesis
      by (subst (1 2 3) dispatchWorker.simps)
         (auto simp: tracker_config_def worker_receive_inv)
  next
    case (Got j)
    obtain t1 w1 where p: "worker_perform P j (t, w) = (t1, w1)" by fastforce
    then have t1: "t1 = t\<lparr>worker := Ready\<rparr>" by (metis fst_conv worker_perform_fst)
    have "tracker_inv t \<Longrightarrow> tracker_inv t1" by (simp add: t1 tracker_inv_def)
    with 1(2) [OF Got p] show ?thesis
      by (subst (1 2 3) dispatchWorker.simps) (auto simp: Got p t1 tracker_config_def)
  qed (simp_all add: dispatchWorker.simps)
qed

text \<open>A fired entry was online in the tracker when the tick began.\<close>

lemma fired_was_online:
  assumes inv: "tracker_inv t" and ord: "iteration_order order t"
    and k: "k \<in> fired_keys (Tick_verdicts P order (t, w))"
  shows "\<exists>e. beats t k = Some e \<and> knownStatus e = Online
    \<and> (\<exists>w1. fst (tick_verdict P (fst (clock_Now P (snd (clock_Now P w)))) e w1) = Fired)"
proof -
  obtain now w1 where n: "clock_Now P (snd (clock_Now P w)) = (now, w1)" by fastforce
  from k n obtain e where e: "(e, Fired) \<in> set (tick_verdicts P now (snapshot order t) (t, w1))"
    and ke: "k = entry_key e"
    by (auto simp: Tick_verdicts_def fired_keys_def fired_entries_def split: if_splits)
  from tick_verdicts_sound [OF e] obtain w2 where "e \<in> ran (beats t)"
    and f: "fst (tick_verdict P now e w2) = Fired"
    by (metis set_snapshot [OF ord])
  then obtain k' where "beats t k' = Some e" by (auto simp: ran_def)
  with tracker_invD(2) [OF inv this] ke have "beats t k = Some e" by simp
  moreover from f have "knownStatus e = Online" by (simp add: tick_verdict_Fired)
  ultimately show ?thesis using f n by auto
qed

section \<open>Refinement\<close>

lemma exec_call_inv:
  assumes "tracker_inv (fst s)" and "exec_call P c s = Ret s'"
  shows "tracker_inv (fst s')"
proof (cases c)
  case (Call_telemetry tenantID env)
  with assms show ?thesis
    by (cases s; cases s') (auto simp: go_bind_Ret_iff HandleTelemetry_Ret dest: telemetry_locked_inv)
next
  case (Call_decommission tenantID gatewayID)
  with assms show ?thesis by (auto simp: HandleDecommission_inv)
next
  case (Call_tick order)
  with assms show ?thesis using Tick_Ret [of P order "fst s" "snd s" "fst s'" "snd s'"] by simp
next
  case Call_worker
  with assms show ?thesis using dispatchWorker_frame [of P "fst s" "snd s"] by auto
qed

lemma exec_call_refines:
  assumes inv: "tracker_inv (fst s)" and ok: "call_ok c (fst s)" and run: "exec_call P c s = Ret s'"
  shows "fleet_run (fleet_of (fst s)) (event_of P c s) (fleet_of (fst s'))"
proof -
  obtain t w where s: "s = (t, w)" by (cases s)
  obtain t' w' where s': "s' = (t', w')" by (cases s')
  show ?thesis
  proof (cases c)
    case (Call_telemetry tenantID env)
    let ?k = "GatewayKey tenantID (env_GatewayID env)"
    from run have "telemetry_locked (fst (clock_Now P w)) tenantID (env_GatewayID env)
        (t, snd (clock_Now P w)) = Ret (t', w')"
      by (auto simp: Call_telemetry s s' go_bind_Ret_iff HandleTelemetry_Ret)
    from telemetry_locked_beats [OF this] have "fleet_of t' = (fleet_of t)(?k \<mapsto> Online)"
      by (subst fleet_of_upd) (auto split: option.splits)
    then show ?thesis by (auto simp: Call_telemetry s s' intro!: fleet_run.intros)
  next
    case (Call_decommission tenantID gatewayID)
    with run have "beats t' = (beats t)(GatewayKey tenantID gatewayID := None)"
      by (metis HandleDecommission_beats exec_call.simps(2) fst_conv go_result.inject(2) s s')
    then have "fleet_of t' = (fleet_of t)(GatewayKey tenantID gatewayID := None)"
      by (simp add: fleet_of_def fun_eq_iff)
    then show ?thesis by (auto simp: Call_decommission s s' intro!: fleet_run.intros)
  next
    case (Call_tick order)
    with run have "beats t' = set_offline (fired_keys (Tick_verdicts P order (t, w))) (beats t)"
      using Tick_Ret [of P order t w t' w'] by (simp add: s s')
    from fleet_of_set_offline [OF this]
    have "fleet_of t' = fleet_step (Timeouts (fired_keys (Tick_verdicts P order (t, w)))) (fleet_of t)" .
    moreover have "fleet_enabled (Timeouts (fired_keys (Tick_verdicts P order (t, w)))) (fleet_of t)"
      using fired_was_online [of t order _ P w] inv ok Call_tick
      by (fastforce simp: s fleet_of_def)
    ultimately show ?thesis
      by (auto simp del: fleet_step.simps fleet_enabled.simps simp: Call_tick s s' intro!: fleet_run.intros)
  next
    case Call_worker
    with run have "fleet_of t' = fleet_of t"
      using dispatchWorker_frame [of P t w] by (simp add: s s' fleet_of_def)
    then show ?thesis by (simp add: Call_worker s s' fleet_run_Nil)
  qed
qed

lemma fleet_run_append:
  "fleet_run m as m1 \<Longrightarrow> fleet_run m1 bs m2 \<Longrightarrow> fleet_run m (as @ bs) m2"
  by (induction rule: fleet_run.induct) (auto intro: fleet_run.intros)

text \<open>The events of a run of calls.\<close>

fun events_of :: "'x driven_ports \<Rightarrow> tracker_call list \<Rightarrow> 'x tstate \<Rightarrow> fleet_event list" where
  "events_of P [] s = []"
| "events_of P (c # cs) s = event_of P c s @
     (case exec_call P c s of Panic _ \<Rightarrow> [] | Ret s' \<Rightarrow> events_of P cs s')"

lemma exec_calls_refines:
  "exec_calls P s cs s' \<Longrightarrow> tracker_inv (fst s) \<Longrightarrow>
     tracker_inv (fst s') \<and> fleet_run (fleet_of (fst s)) (events_of P cs s) (fleet_of (fst s'))"
proof (induction rule: exec_calls.induct)
  case (exec_Nil s)
  then show ?case by (simp add: fleet_run_Nil)
next
  case (exec_Cons c s s1 cs s')
  from exec_Cons.prems exec_Cons.hyps(2) have "tracker_inv (fst s1)" by (rule exec_call_inv)
  with exec_Cons.IH exec_call_refines [OF exec_Cons.prems exec_Cons.hyps(1,2)] exec_Cons.hyps(2)
  show ?case by (auto intro: fleet_run_append)
qed

end
