(* ===== verification/RR_Client.thy ===== *)
theory RR_Client
  imports Domain_Model
begin

text \<open>
  \<open>internal/adapter/driven/nats_rr_client.go\<close>: request-reply over NATS with a timeout per attempt and
  retries with backoff. The NATS connection, the race of a timer against the cancellation of the
  context, and the JSON codec of the payloads are parameters.
\<close>

section \<open>Subjects, payload codec, client\<close>

definition subjectAlertConfigsList :: string where
  "subjectAlertConfigsList = ''internal.mgmt.alert-configs.list''"

definition subjectGatewayUpdateStatus :: string where
  "subjectGatewayUpdateStatus = ''internal.mgmt.gateway.update-status''"

definition subjectGatewayGetStatus :: string where
  "subjectGatewayGetStatus = ''internal.mgmt.gateway.get-status''"

definition errFmtNATSRR :: string where
  "errFmtNATSRR = ''nats rr %s: %w''"

text \<open>
  \<open>json.Marshal\<close> and \<open>json.Unmarshal\<close> at the types that cross the wire: a result, or the text of an
  error.
\<close>

record json_codec =
  enc_status_update :: "gateway_status_update \<Rightarrow> string + string"
  enc_lifecycle_request :: "gateway_lifecycle_request \<Rightarrow> string + string"
  enc_alert :: "alert_payload \<Rightarrow> string + string"
  dec_alert_configs :: "string \<Rightarrow> string + alert_config list"
  dec_update_response :: "string \<Rightarrow> string + gateway_status_update_response"
  dec_lifecycle_response :: "string \<Rightarrow> string + gateway_lifecycle_response"
  dec_envelope :: "string \<Rightarrow> string + telemetry_envelope"

text \<open>
  \<open>rr_nc\<close> is \<open>RequestWithContext\<close> under a deadline: the data of the reply or the text of an error.
\<close>

record 'x rr_client =
  rr_nc :: "duration \<Rightarrow> string \<Rightarrow> string \<Rightarrow> 'x \<Rightarrow> (string + string) \<times> 'x"
  rr_timeout :: duration
  rr_maxRetries :: i64
  rr_backoff :: "duration list"
  rr_sleep :: "duration \<Rightarrow> 'x \<Rightarrow> go_error option \<times> 'x"

text \<open>
  The \<open>sleep\<close> that the constructor installs: a timer against \<open>ctx.Done()\<close>. Which of the two comes
  first is the environment's choice: \<open>None\<close> for the timer, the text of \<open>ctx.Err()\<close> otherwise.
\<close>

definition wait_or_done ::
    "(duration \<Rightarrow> 'x \<Rightarrow> string option \<times> 'x) \<Rightarrow> duration \<Rightarrow> 'x \<Rightarrow> go_error option \<times> 'x" where
  "wait_or_done race d x =
     (case race d x of
        (Some ctxErr, x') \<Rightarrow> (Some (External ctxErr), x')
      | (None, x') \<Rightarrow> (None, x'))"

definition NewNATSRRClient ::
    "(duration \<Rightarrow> string \<Rightarrow> string \<Rightarrow> 'x \<Rightarrow> (string + string) \<times> 'x)
      \<Rightarrow> (duration \<Rightarrow> 'x \<Rightarrow> string option \<times> 'x) \<Rightarrow> duration \<Rightarrow> 'x rr_client" where
  "NewNATSRRClient nc race timeout =
     \<lparr>rr_nc = nc, rr_timeout = timeout, rr_maxRetries = 3,
      rr_backoff = [second, 2 * second, 4 * second], rr_sleep = wait_or_done race\<rparr>"

section \<open>The retry loop\<close>

text \<open>\<open>c.backoff[min(attempt, len(c.backoff)-1)]\<close>: an empty slice is indexed at -1, which panics.\<close>

definition backoff_delay :: "duration list \<Rightarrow> nat \<Rightarrow> duration go_result" where
  "backoff_delay ds attempt =
     (case ds of
        [] \<Rightarrow> Panic ''index out of range [-1]''
      | _ \<Rightarrow> Ret (ds ! min attempt (length ds - 1)))"

definition exhausted :: "'x rr_client \<Rightarrow> string list \<Rightarrow> go_error" where
  "exhausted c errs =
     Errorf ''exhausted retries (%d): %s'' [FI (sint (rr_maxRetries c)), FS (join_with ''; '' errs)]"

function retry_loop ::
    "'x rr_client \<Rightarrow> string \<Rightarrow> string \<Rightarrow> nat \<Rightarrow> string list \<Rightarrow> 'x
      \<Rightarrow> ((go_error + string) \<times> 'x) go_result" where
  "retry_loop c subject body attempt errs x =
     (if sint (rr_maxRetries c) < int attempt then Ret (Inl (exhausted c errs), x)
      else
        case rr_nc c (rr_timeout c) subject body x of
          (Inr msg, x1) \<Rightarrow> Ret (Inr msg, x1)
        | (Inl err, x1) \<Rightarrow>
            if int attempt = sint (rr_maxRetries c)
            then Ret (Inl (exhausted c (errs @ [err])), x1)
            else go_bind (backoff_delay (rr_backoff c) attempt) (\<lambda>delay.
              case rr_sleep c delay x1 of
                (Some e, x2) \<Rightarrow> Ret (Inl e, x2)
              | (None, x2) \<Rightarrow> retry_loop c subject body (Suc attempt) (errs @ [err]) x2))"
  by pat_completeness auto
termination
  by (relation "measure (\<lambda>(c, subject, body, attempt, errs, x).
        nat (sint (rr_maxRetries c) + 1 - int attempt))") auto

declare retry_loop.simps [simp del]

definition requestWithRetry ::
    "'x rr_client \<Rightarrow> string \<Rightarrow> string \<Rightarrow> 'x \<Rightarrow> ((go_error + string) \<times> 'x) go_result" where
  "requestWithRetry c subject body x = retry_loop c subject body 0 [] x"

section \<open>The three calls\<close>

definition FetchAlertConfigs ::
    "json_codec \<Rightarrow> 'x rr_client \<Rightarrow> 'x \<Rightarrow> ((go_error + alert_config list) \<times> 'x) go_result" where
  "FetchAlertConfigs J c x =
     go_bind (requestWithRetry c subjectAlertConfigsList [] x) (\<lambda>(r, x1). Ret
       (case r of
          Inl err \<Rightarrow> Inl (Wrapf errFmtNATSRR [FS subjectAlertConfigsList] err)
        | Inr msg \<Rightarrow>
            (case dec_alert_configs J msg of
               Inl e \<Rightarrow> Inl (Wrapf ''unmarshal alert configs: %w'' [] (External e))
             | Inr configs \<Rightarrow> Inr configs), x1))"

definition UpdateGatewayStatus ::
    "json_codec \<Rightarrow> 'x rr_client \<Rightarrow> gateway_status_update \<Rightarrow> 'x \<Rightarrow> (go_error option \<times> 'x) go_result" where
  "UpdateGatewayStatus J c update x =
     (case enc_status_update J update of
        Inl e \<Rightarrow> Ret (Some (Wrapf ''marshal gateway status update: %w'' [] (External e)), x)
      | Inr body \<Rightarrow>
          go_bind (requestWithRetry c subjectGatewayUpdateStatus body x) (\<lambda>(r, x1). Ret
            (case r of
               Inl err \<Rightarrow> Some (Wrapf errFmtNATSRR [FS subjectGatewayUpdateStatus] err)
             | Inr msg \<Rightarrow>
                 (case dec_update_response J msg of
                    Inl e \<Rightarrow> Some (Wrapf ''unmarshal gateway status update response: %w'' [] (External e))
                  | Inr result \<Rightarrow>
                      if \<not> resp_Success result
                      then Some (Errorf ''gateway status update rejected by management-api: %s''
                             [FS (resp_Error result)])
                      else None), x1)))"

definition validateGatewayLifecycleResponse ::
    "gateway_lifecycle_response \<Rightarrow> string \<Rightarrow> go_error option" where
  "validateGatewayLifecycleResponse result expectedGatewayID =
     (if lresp_GatewayID result = []
      then Some (Errorf ''gateway lifecycle response missing gateway_id'' [])
      else if expectedGatewayID \<noteq> [] \<and> lresp_GatewayID result \<noteq> expectedGatewayID
      then Some (Errorf ''gateway lifecycle response gateway_id mismatch: expected %s got %s''
             [FS expectedGatewayID, FS (lresp_GatewayID result)])
      else if lresp_State result \<in>
             {LifecycleOnline, LifecycleOffline, LifecyclePaused, LifecycleProvisioning}
      then None
      else Some (Errorf ''invalid gateway lifecycle state: %q'' [FS (lresp_State result)]))"

definition RR_GetGatewayLifecycle ::
    "json_codec \<Rightarrow> 'x rr_client \<Rightarrow> string \<Rightarrow> string \<Rightarrow> 'x
      \<Rightarrow> ((lifecycle_state \<times> go_error option) \<times> 'x) go_result" where
  "RR_GetGatewayLifecycle J c tenantID gatewayID x =
     (case enc_lifecycle_request J \<lparr>lreq_GatewayID = gatewayID, lreq_TenantID = tenantID\<rparr> of
        Inl e \<Rightarrow> Ret ((LifecycleUnknown,
                   Some (Wrapf ''marshal gateway lifecycle request: %w'' [] (External e))), x)
      | Inr body \<Rightarrow>
          go_bind (requestWithRetry c subjectGatewayGetStatus body x) (\<lambda>(r, x1). Ret
            (case r of
               Inl err \<Rightarrow> (LifecycleUnknown,
                   Some (Wrapf errFmtNATSRR [FS subjectGatewayGetStatus] err))
             | Inr msg \<Rightarrow>
                 (case dec_lifecycle_response J msg of
                    Inl e \<Rightarrow> (LifecycleUnknown,
                       Some (Wrapf ''unmarshal gateway lifecycle response: %w'' [] (External e)))
                  | Inr result \<Rightarrow>
                      (case validateGatewayLifecycleResponse result gatewayID of
                         Some e \<Rightarrow> (LifecycleUnknown, Some e)
                       | None \<Rightarrow> (lresp_State result, None))), x1)))"

end
