(* ===== verification/Alert_Cache.thy ===== *)
theory Alert_Cache
  imports RR_Client
begin

text \<open>
  \<open>internal/adapter/driven/alert_config_cache.go\<close>: the snapshot of the alert configurations that the
  tracker reads its timeouts from, its refresh, the initial fetch with backoff and the refresh loop.
  The fetcher, \<open>time.Now\<close> and the timer race are parameters.
\<close>

section \<open>The snapshot and the cache\<close>

record alert_config_snapshot =
  byGateway :: "string \<rightharpoonup> alert_config"
  byTenant :: "string \<rightharpoonup> alert_config"
  fetchedAt :: time

type_synonym 'x config_fetcher = "'x \<Rightarrow> ((go_error + alert_config list) \<times> 'x) go_result"

text \<open>
  \<open>cache_wait\<close> is the \<open>wait\<close> field, \<open>cache_now\<close> the call of \<open>time.Now\<close>. The metrics of the cache are the
  handles of the world it runs in. The zero \<open>time.Time\<close> of the first snapshot is year 1.
\<close>

record 'x alert_config_cache =
  snapshot_ptr :: alert_config_snapshot
  cache_rrClient :: "'x config_fetcher"
  defaultTimeoutMs :: i64
  refreshInterval :: duration
  cache_maxRetries :: i64
  initialBackoff :: duration
  maxBackoff :: duration
  cache_wait :: "duration \<Rightarrow> 'x \<Rightarrow> go_error option \<times> 'x"
  cache_now :: "'x \<Rightarrow> time \<times> 'x"

definition empty_snapshot :: alert_config_snapshot where
  "empty_snapshot = \<lparr>byGateway = Map.empty, byTenant = Map.empty, fetchedAt = zero_time\<rparr>"

definition NewAlertConfigCache ::
    "'x config_fetcher \<Rightarrow> ('x \<Rightarrow> time \<times> 'x) \<Rightarrow> (duration \<Rightarrow> 'x \<Rightarrow> string option \<times> 'x)
      \<Rightarrow> i64 \<Rightarrow> duration \<Rightarrow> i64 \<Rightarrow> i64 \<Rightarrow> i64 \<Rightarrow> 'x alert_config_cache" where
  "NewAlertConfigCache rrClient now race defaultMs interval retries initialBackoffMs maxBackoffMs =
     \<lparr>snapshot_ptr = empty_snapshot, cache_rrClient = rrClient, defaultTimeoutMs = defaultMs,
      refreshInterval = interval, cache_maxRetries = retries,
      initialBackoff = of_ms initialBackoffMs, maxBackoff = of_ms maxBackoffMs,
      cache_wait = wait_or_done race, cache_now = now\<rparr>"

section \<open>Lookup\<close>

definition snapshot_key :: "string \<Rightarrow> string \<Rightarrow> string" where
  "snapshot_key tenantID gatewayID = tenantID @ ''/'' @ gatewayID"

definition snapshot_timeout :: "alert_config_snapshot \<Rightarrow> i64 \<Rightarrow> string \<Rightarrow> string \<Rightarrow> i64" where
  "snapshot_timeout snap dflt tenantID gatewayID =
     (case byGateway snap (snapshot_key tenantID gatewayID) of
        Some cfg \<Rightarrow> cfg_TimeoutMs cfg
      | None \<Rightarrow>
          (case byTenant snap tenantID of
             Some cfg \<Rightarrow> cfg_TimeoutMs cfg
           | None \<Rightarrow> dflt))"

definition cache_TimeoutFor :: "'x alert_config_cache \<Rightarrow> string \<Rightarrow> string \<Rightarrow> i64" where
  "cache_TimeoutFor c tenantID gatewayID =
     snapshot_timeout (snapshot_ptr c) (defaultTimeoutMs c) tenantID gatewayID"

section \<open>Refresh\<close>

definition store_config :: "alert_config \<Rightarrow> alert_config_snapshot \<Rightarrow> alert_config_snapshot" where
  "store_config cfg snap =
     (case cfg_GatewayID cfg of
        Some g \<Rightarrow> snap\<lparr>byGateway := (byGateway snap)(snapshot_key (cfg_TenantID cfg) g \<mapsto> cfg)\<rparr>
      | None \<Rightarrow> snap\<lparr>byTenant := (byTenant snap)(cfg_TenantID cfg \<mapsto> cfg)\<rparr>)"

definition build_snapshot :: "alert_config list \<Rightarrow> time \<Rightarrow> alert_config_snapshot" where
  "build_snapshot configs now =
     fold store_config configs \<lparr>byGateway = Map.empty, byTenant = Map.empty, fetchedAt = now\<rparr>"

text \<open>\<open>time.Time.Unix\<close>: the instant in whole seconds, rounded down.\<close>

definition unix_seconds :: "time \<Rightarrow> int" where
  "unix_seconds t = t div 1000000000"

definition refresh ::
    "'x alert_config_cache \<Rightarrow> 'x world
      \<Rightarrow> (go_error option \<times> 'x alert_config_cache \<times> 'x world) go_result" where
  "refresh c w =
     go_bind (cache_rrClient c (ext w)) (\<lambda>(r, x1). Ret
       (case r of
          Inl err \<Rightarrow> (Some (Wrapf ''fetch alert configs: %w'' [] err), c, w\<lparr>ext := x1\<rparr>)
        | Inr configs \<Rightarrow>
            let (now, x2) = cache_now c x1;
                snap = build_snapshot configs now
            in (None, c\<lparr>snapshot_ptr := snap\<rparr>,
                with_metrics (SetAlertCacheLastSuccess (unix_seconds (fetchedAt snap)))
                  (w\<lparr>ext := x2\<rparr>))))"

definition snapshotCounts :: "'x alert_config_cache \<Rightarrow> nat \<times> nat" where
  "snapshotCounts c =
     (card (dom (byGateway (snapshot_ptr c))), card (dom (byTenant (snapshot_ptr c))))"

section \<open>The initial fetch and the refresh loop\<close>

text \<open>
  \<open>%w\<close> of a nil error, which \<open>fetchWithBackoff\<close> reaches when it is not allowed any attempt, prints
  \<open>%!w(<nil>)\<close> and wraps nothing.
\<close>

definition exhausted_fetch :: "'x alert_config_cache \<Rightarrow> go_error option \<Rightarrow> go_error" where
  "exhausted_fetch c lastErr =
     (case lastErr of
        Some e \<Rightarrow> Wrapf ''exhausted %d retries: %w'' [FI (sint (cache_maxRetries c))] e
      | None \<Rightarrow> Errorf ''exhausted %d retries: %!w(<nil>)'' [FI (sint (cache_maxRetries c))])"

definition next_delay :: "'x alert_config_cache \<Rightarrow> duration \<Rightarrow> duration" where
  "next_delay c delay =
     (let doubled = delay * 2
      in if sint (maxBackoff c) < sint doubled then maxBackoff c else doubled)"

text \<open>The loop of \<open>fetchWithBackoff\<close>; \<open>left\<close> counts the attempts that remain.\<close>

fun fetch_loop ::
    "nat \<Rightarrow> duration \<Rightarrow> go_error option \<Rightarrow> 'x alert_config_cache \<Rightarrow> 'x world
      \<Rightarrow> (go_error option \<times> 'x alert_config_cache \<times> 'x world) go_result" where
  "fetch_loop 0 delay lastErr c w = Ret (Some (exhausted_fetch c lastErr), c, w)"
| "fetch_loop (Suc left) delay lastErr c w =
     go_bind (refresh c w) (\<lambda>(r, c1, w1).
       case r of
         None \<Rightarrow> Ret (None, c1, w1)
       | Some err \<Rightarrow>
           (let (stop, w2) = outside (cache_wait c1 delay) (with_metrics IncAlertCacheRefreshErrors w1)
            in case stop of
                 Some e \<Rightarrow> Ret (Some e, c1, w2)
               | None \<Rightarrow> fetch_loop left (next_delay c1 delay) (Some err) c1 w2))"

definition fetchWithBackoff ::
    "'x alert_config_cache \<Rightarrow> 'x world
      \<Rightarrow> (go_error option \<times> 'x alert_config_cache \<times> 'x world) go_result" where
  "fetchWithBackoff c w = fetch_loop (nat (sint (cache_maxRetries c))) (initialBackoff c) None c w"

text \<open>One turn of the loop of \<open>Run\<close> on a tick of its timer.\<close>

definition refresh_tick ::
    "'x alert_config_cache \<times> 'x world \<Rightarrow> ('x alert_config_cache \<times> 'x world) go_result" where
  "refresh_tick s =
     (case s of (c, w) \<Rightarrow>
        go_bind (refresh c w) (\<lambda>(r, c1, w1).
          case r of
            Some err \<Rightarrow> Ret (c1, with_metrics IncAlertCacheRefreshErrors w1)
          | None \<Rightarrow> Ret (c1, w1)))"

text \<open>
  \<open>Run\<close> with the number of ticks that its select takes before it takes the cancellation of the
  context. \<open>time.NewTicker\<close> panics for an interval that is not positive.
\<close>

definition Run_cache ::
    "nat \<Rightarrow> 'x alert_config_cache \<Rightarrow> 'x world \<Rightarrow> ('x alert_config_cache \<times> 'x world) go_result" where
  "Run_cache ticks c w =
     go_bind (fetchWithBackoff c w) (\<lambda>(r, c1, w1).
       if sint (refreshInterval c1) \<le> 0 then Panic ''non-positive interval for NewTicker''
       else fold_result (\<lambda>_. refresh_tick) (replicate ticks ()) (c1, w1))"

end
