(* ===== verification/RR_Props.thy ===== *)
theory RR_Props
  imports RR_Client
begin

text \<open>
  Properties of the request-reply client: the retry schedule, where an answer comes from, and what
  a lifecycle answer must satisfy to be believed.
\<close>

section \<open>The retry loop\<close>

text \<open>
  What an observer of the outside sees of the loop. An observer is a list of events kept in \<open>'x\<close> that
  every request and every wait extends.
\<close>

datatype rr_event = Requested | Waited duration

definition observes ::
    "'x rr_client \<Rightarrow> ('x \<Rightarrow> rr_event list) \<Rightarrow> bool" where
  "observes c log \<longleftrightarrow>
     (\<forall>d s b x. log (snd (rr_nc c d s b x)) = log x @ [Requested]) \<and>
     (\<forall>d x. log (snd (rr_sleep c d x)) = log x @ [Waited d])"

definition schedule_from :: "'x rr_client \<Rightarrow> nat \<Rightarrow> rr_event list" where
  "schedule_from c a = Requested #
     concat (map (\<lambda>i. [Waited (rr_backoff c ! min i (length (rr_backoff c) - 1)), Requested])
       [a..<nat (sint (rr_maxRetries c))])"

lemma schedule_from_step:
  "int a < sint (rr_maxRetries c) \<Longrightarrow> schedule_from c a =
     [Requested, Waited (rr_backoff c ! min a (length (rr_backoff c) - 1))] @ schedule_from c (Suc a)"
  by (simp add: schedule_from_def upt_conv_Cons)

lemma schedule_from_last: "int a = sint (rr_maxRetries c) \<Longrightarrow> schedule_from c a = [Requested]"
  by (simp add: schedule_from_def nat_eq_iff2 [symmetric])

definition retry_outcome :: "'x rr_client \<Rightarrow> nat \<Rightarrow> nat \<Rightarrow> go_error + string \<Rightarrow> bool" where
  "retry_outcome c n len r \<longleftrightarrow>
     (case r of
        Inr msg \<Rightarrow> odd n
      | Inl e \<Rightarrow> even n \<or> n = len \<and> (\<exists>errs. e = exhausted c errs
                   \<and> int (length errs) = sint (rr_maxRetries c) + 1))"

lemma retry_loop_schedule:
  assumes "observes c log" and "rr_backoff c \<noteq> []"
    and "int a \<le> sint (rr_maxRetries c)" and "length errs = a"
  shows "\<exists>r x' n. retry_loop c subject body a errs x = Ret (r, x')
    \<and> 1 \<le> n \<and> n \<le> length (schedule_from c a) \<and> log x' = log x @ take n (schedule_from c a)
    \<and> retry_outcome c n (length (schedule_from c a)) r"
  using assms(3,4)
proof (induction "nat (sint (rr_maxRetries c)) - a" arbitrary: a errs x)
  case 0
  then have last: "int a = sint (rr_maxRetries c)" by simp
  obtain r1 x1 where q: "rr_nc c (rr_timeout c) subject body x = (r1, x1)" by fastforce
  have l: "log x1 = log x @ [Requested]"
    using assms(1) q unfolding observes_def by (metis snd_conv)
  have "retry_loop c subject body a errs x = Ret (case r1 of Inr msg \<Rightarrow> Inr msg
      | Inl e \<Rightarrow> Inl (exhausted c (errs @ [e])), x1)"
    using last q by (simp add: retry_loop.simps [of c subject body a] split: sum.splits)
  then show ?case
    using l last 0(3)
    by (intro exI [of _ "case r1 of Inr msg \<Rightarrow> Inr msg | Inl e \<Rightarrow> Inl (exhausted c (errs @ [e]))"]
        exI [of _ x1] exI [of _ 1])
      (auto simp: schedule_from_last retry_outcome_def split: sum.splits)
next
  case (Suc k)
  then have lt: "int a < sint (rr_maxRetries c)" by simp
  obtain d ds where ds: "rr_backoff c = d # ds" using assms(2) by (cases "rr_backoff c") auto
  let ?d = "rr_backoff c ! min a (length (rr_backoff c) - 1)"
  have del: "backoff_delay (rr_backoff c) a = Ret ?d" by (simp add: backoff_delay_def ds)
  obtain r1 x1 where q: "rr_nc c (rr_timeout c) subject body x = (r1, x1)" by fastforce
  have l1: "log x1 = log x @ [Requested]"
    using assms(1) q unfolding observes_def by (metis snd_conv)
  show ?case
  proof (cases r1)
    case (Inr msg)
    then have "retry_loop c subject body a errs x = Ret (Inr msg, x1)"
      using lt q by (simp add: retry_loop.simps [of c subject body a])
    then show ?thesis using l1 lt
      by (intro exI [of _ "Inr msg"] exI [of _ x1] exI [of _ 1])
         (simp add: schedule_from_step retry_outcome_def)
  next
    case (Inl err)
    obtain e2 x2 where w: "rr_sleep c ?d x1 = (e2, x2)" by fastforce
    have l2: "log x2 = log x @ [Requested, Waited ?d]"
      using assms(1) w l1 unfolding observes_def by (metis append.assoc append_Cons append_Nil snd_conv)
    show ?thesis
    proof (cases e2)
      case (Some e)
      then have "retry_loop c subject body a errs x = Ret (Inl e, x2)"
        using lt q Inl del w by (simp add: retry_loop.simps [of c subject body a])
      then show ?thesis using l2 lt
        by (intro exI [of _ "Inl e"] exI [of _ x2] exI [of _ 2])
           (simp add: schedule_from_step retry_outcome_def)
    next
      case None
      then have step: "retry_loop c subject body a errs x
          = retry_loop c subject body (Suc a) (errs @ [err]) x2"
        using lt q Inl del w by (simp add: retry_loop.simps [of c subject body a])
      have "k = nat (sint (rr_maxRetries c)) - Suc a" using Suc.hyps(2) by simp
      from Suc.hyps(1) [OF this, of "errs @ [err]" x2] lt Suc.prems(2)
      obtain r x' n where ih: "retry_loop c subject body (Suc a) (errs @ [err]) x2 = Ret (r, x')"
        "1 \<le> n" "n \<le> length (schedule_from c (Suc a))"
        "log x' = log x2 @ take n (schedule_from c (Suc a))"
        "retry_outcome c n (length (schedule_from c (Suc a))) r" by auto
      have "retry_outcome c (n + 2) (length (schedule_from c (Suc a)) + 2) r"
        using ih(5) by (simp add: retry_outcome_def split: sum.splits)
      then show ?thesis using ih step l2 lt
        by (intro exI [of _ r] exI [of _ x'] exI [of _ "n + 2"]) (simp add: schedule_from_step)
    qed
  qed
qed

lemma retry_loop_answer:
  "retry_loop c subject body a errs x = Ret (Inr msg, x') \<Longrightarrow>
     \<exists>x1. rr_nc c (rr_timeout c) subject body x1 = (Inr msg, x')"
proof (induction c subject body a errs x rule: retry_loop.induct)
  case (1 c subject body a errs x)
  obtain r1 x1 where q: "rr_nc c (rr_timeout c) subject body x = (r1, x1)" by fastforce
  note call = "1.prems" [unfolded retry_loop.simps [of c subject body a]]
  show ?case
  proof (cases r1)
    case (Inr m)
    with call q show ?thesis by (auto split: if_splits)
  next
    case (Inl err)
    with call q have "\<not> sint (rr_maxRetries c) < int a" "int a \<noteq> sint (rr_maxRetries c)"
      by (auto split: if_splits)
    note rest = call [simplified this q Inl, simplified]
    then obtain delay where delay: "backoff_delay (rr_backoff c) a = Ret delay"
      by (auto simp: go_bind_Ret_iff)
    obtain e x2 where w: "rr_sleep c delay x1 = (e, x2)" by fastforce
    with rest delay have "e = None"
      and "retry_loop c subject body (Suc a) (errs @ [err]) x2 = Ret (Inr msg, x')"
      by (cases e; simp)+
    then show ?thesis
      using "1.IH" [OF _ q [symmetric] Inl _ w [symmetric]]
        \<open>\<not> sint (rr_maxRetries c) < int a\<close> \<open>int a \<noteq> sint (rr_maxRetries c)\<close> by simp
  qed
qed

lemmas requestWithRetry_answer = retry_loop_answer [where a = 0 and errs = "[]", folded requestWithRetry_def]

text \<open>With at least one backoff the loop returns.\<close>

lemma retry_loop_returns:
  "rr_backoff c \<noteq> [] \<Longrightarrow> \<exists>r x'. retry_loop c subject body a errs x = Ret (r, x')"
proof (induction "nat (sint (rr_maxRetries c) + 1 - int a)" arbitrary: a errs x)
  case 0
  then show ?case by (simp add: retry_loop.simps [of c subject body a])
next
  case (Suc k)
  obtain d ds where ds: "rr_backoff c = d # ds" using Suc.prems by (cases "rr_backoff c") auto
  have "k = nat (sint (rr_maxRetries c) + 1 - int (Suc a))" using Suc.hyps(2) by simp
  note IH = Suc.hyps(1) [OF this Suc.prems]
  show ?case
    by (subst retry_loop.simps)
       (auto simp: backoff_delay_def ds IH split: prod.splits sum.splits option.splits)
qed

lemma new_client [simp]:
  "rr_backoff (NewNATSRRClient nc race timeout) = [second, 2 * second, 4 * second]"
  "rr_maxRetries (NewNATSRRClient nc race timeout) = 3"
  "rr_nc (NewNATSRRClient nc race timeout) = nc"
  "rr_timeout (NewNATSRRClient nc race timeout) = timeout"
  "rr_sleep (NewNATSRRClient nc race timeout) = wait_or_done race"
  by (simp_all add: NewNATSRRClient_def)

definition retry_schedule :: "rr_event list" where
  "retry_schedule = [Requested, Waited second, Requested, Waited (2 * second), Requested,
     Waited (4 * second), Requested]"

lemma requestWithRetry_returns:
  "\<exists>r x'. requestWithRetry (NewNATSRRClient nc race timeout) subject body x = Ret (r, x')"
  unfolding requestWithRetry_def by (rule retry_loop_returns) simp

lemma schedule_new: "schedule_from (NewNATSRRClient nc race timeout) 0 = retry_schedule"
  by (simp add: schedule_from_def retry_schedule_def upt_rec numeral_eq_Suc)


text \<open>
  A reply that is handed back is the reply of the last request made, on the subject and with the
  body that were asked for; nothing is made up or kept from an earlier call.
\<close>

theorem request_answer_is_genuine:
  assumes "requestWithRetry c subject body x = Ret (Inr msg, x')"
  shows "\<exists>x1. rr_nc c (rr_timeout c) subject body x1 = (Inr msg, x')"
  using assms by (rule requestWithRetry_answer)

text \<open>
  C34. A lifecycle state is reported without an error only if the reply decodes to one of the four
  known states and names the gateway that was asked about; with any error the state is
  \<open>unknown\<close>.
\<close>

theorem lifecycle_answer_validated:
  assumes "RR_GetGatewayLifecycle J c tenantID gatewayID x = Ret ((state, err), x')"
  shows "if err = None
    then state \<in> {LifecycleOnline, LifecycleOffline, LifecyclePaused, LifecycleProvisioning}
      \<and> (\<exists>body msg resp x1.
           enc_lifecycle_request J \<lparr>lreq_GatewayID = gatewayID, lreq_TenantID = tenantID\<rparr> = Inr body
           \<and> rr_nc c (rr_timeout c) subjectGatewayGetStatus body x1 = (Inr msg, x')
           \<and> dec_lifecycle_response J msg = Inr resp \<and> lresp_State resp = state
           \<and> lresp_GatewayID resp \<noteq> [] \<and> (gatewayID = [] \<or> lresp_GatewayID resp = gatewayID))
    else state = LifecycleUnknown"
proof (cases "enc_lifecycle_request J \<lparr>lreq_GatewayID = gatewayID, lreq_TenantID = tenantID\<rparr>")
  case (Inl e)
  with assms show ?thesis by (auto simp: RR_GetGatewayLifecycle_def)
next
  case (Inr body)
  with assms obtain r where r: "requestWithRetry c subjectGatewayGetStatus body x = Ret (r, x')"
    and res: "(state, err) = (case r of
               Inl err \<Rightarrow> (LifecycleUnknown,
                   Some (Wrapf errFmtNATSRR [FS subjectGatewayGetStatus] err))
             | Inr msg \<Rightarrow>
                 (case dec_lifecycle_response J msg of
                    Inl e \<Rightarrow> (LifecycleUnknown,
                       Some (Wrapf ''unmarshal gateway lifecycle response: %w'' [] (External e)))
                  | Inr result \<Rightarrow>
                      (case validateGatewayLifecycleResponse result gatewayID of
                         Some e \<Rightarrow> (LifecycleUnknown, Some e)
                       | None \<Rightarrow> (lresp_State result, None))))"
    by (auto simp: RR_GetGatewayLifecycle_def go_bind_Ret_iff)
  show ?thesis
  proof (cases r)
    case (Inl e)
    with res show ?thesis by simp
  next
    case (Inr msg)
    with r obtain x1 where x1: "rr_nc c (rr_timeout c) subjectGatewayGetStatus body x1 = (Inr msg, x')"
      using requestWithRetry_answer [OF r [unfolded Inr]] by blast
    with res Inr \<open>enc_lifecycle_request J _ = Inr body\<close> show ?thesis
      by (auto simp: validateGatewayLifecycleResponse_def split: sum.splits option.splits if_splits)
  qed
qed

text \<open>
  A status update is reported as done only if the management API's reply to it decodes to a
  success.
\<close>

theorem status_update_confirmed:
  assumes "UpdateGatewayStatus J c update x = Ret (None, x')"
  shows "\<exists>body msg resp x1. enc_status_update J update = Inr body
    \<and> rr_nc c (rr_timeout c) subjectGatewayUpdateStatus body x1 = (Inr msg, x')
    \<and> dec_update_response J msg = Inr resp \<and> resp_Success resp"
proof (cases "enc_status_update J update")
  case (Inr body)
  with assms obtain r where r: "requestWithRetry c subjectGatewayUpdateStatus body x = Ret (r, x')"
    by (auto simp: UpdateGatewayStatus_def go_bind_Ret_iff)
  with assms Inr obtain msg where msg: "r = Inr msg"
    by (cases r) (auto simp: UpdateGatewayStatus_def)
  with assms Inr r obtain resp where "dec_update_response J msg = Inr resp" "resp_Success resp"
    by (auto simp: UpdateGatewayStatus_def split: sum.splits if_splits)
  then show ?thesis using Inr requestWithRetry_answer [OF r [unfolded msg]] by blast
qed (use assms in \<open>simp add: UpdateGatewayStatus_def\<close>)

section \<open>Witnesses\<close>

text \<open>
  A server that fails a number of times and then replies, and a codec that reads fixed texts.
\<close>

definition demo_server :: "nat \<Rightarrow> string \<Rightarrow> duration \<Rightarrow> string \<Rightarrow> string \<Rightarrow> rr_event list
    \<Rightarrow> (string + string) \<times> rr_event list" where
  "demo_server fails reply d subject body ev =
     (if length (filter (\<lambda>e. e = Requested) ev) < fails then Inl ''timeout'' else Inr reply,
      ev @ [Requested])"

definition demo_race :: "duration \<Rightarrow> rr_event list \<Rightarrow> string option \<times> rr_event list" where
  "demo_race d ev = (None, ev @ [Waited d])"

definition demo_codec :: json_codec where
  "demo_codec = \<lparr>
     enc_status_update = (\<lambda>u. Inr (upd_GatewayID u)),
     enc_lifecycle_request = (\<lambda>r. Inr (lreq_GatewayID r)),
     enc_alert = (\<lambda>a. Inr (al_GatewayID a)),
     dec_alert_configs = (\<lambda>s. Inr [\<lparr>cfg_TenantID = s, cfg_GatewayID = None, cfg_TimeoutMs = 1000\<rparr>]),
     dec_update_response = (\<lambda>s. Inr \<lparr>resp_Success = (s = ''ok''), resp_Error = s\<rparr>),
     dec_lifecycle_response = (\<lambda>s. Inr \<lparr>lresp_GatewayID = ''gw'', lresp_State = s\<rparr>),
     dec_envelope = (\<lambda>s. Inl ''invalid'')\<rparr>"

definition demo_client :: "nat \<Rightarrow> string \<Rightarrow> rr_event list rr_client" where
  "demo_client fails reply = NewNATSRRClient (demo_server fails reply) demo_race (5 * second)"

lemma demo_client_simps [simp]:
  "rr_nc (demo_client fails reply) = demo_server fails reply"
  "rr_sleep (demo_client fails reply) d ev = (None, ev @ [Waited d])"
  "rr_maxRetries (demo_client fails reply) = 3"
  "rr_backoff (demo_client fails reply) = [second, 2 * second, 4 * second]"
  by (simp_all add: demo_client_def wait_or_done_def demo_race_def)

lemmas demo_rr_eval = requestWithRetry_def retry_loop.simps backoff_delay_def demo_server_def
  demo_codec_def


lemma request_answer_is_genuine_witness:
  "\<exists>x1. demo_server 2 ''hello'' (5 * second) ''s'' ''b'' x1 = (Inr ''hello'',
     [Requested, Waited second, Requested, Waited (2 * second), Requested])"
proof -
  have "requestWithRetry (demo_client 2 ''hello'') ''s'' ''b'' [] = Ret (Inr ''hello'',
     [Requested, Waited second, Requested, Waited (2 * second), Requested])"
    by (simp add: demo_rr_eval numeral_eq_Suc)
  from request_answer_is_genuine [OF this] show ?thesis by (auto simp: demo_server_def)
qed

lemma lifecycle_answer_validated_witness:
  "\<exists>msg. dec_lifecycle_response demo_codec msg = Inr \<lparr>lresp_GatewayID = ''gw'', lresp_State = LifecyclePaused\<rparr>"
proof -
  have "RR_GetGatewayLifecycle demo_codec (demo_client 0 LifecyclePaused) ''t'' ''gw'' []
    = Ret ((LifecyclePaused, None), [Requested])"
    by (simp add: RR_GetGatewayLifecycle_def demo_rr_eval validateGatewayLifecycleResponse_def)
  from lifecycle_answer_validated [OF this] show ?thesis
    by (auto simp: demo_codec_def)
qed

lemma status_update_confirmed_witness:
  "\<exists>msg resp. dec_update_response demo_codec msg = Inr resp \<and> resp_Success resp"
proof -
  have "UpdateGatewayStatus demo_codec (demo_client 1 ''ok'')
      \<lparr>upd_GatewayID = ''gw'', upd_Status = Online, upd_LastSeenAt = 0\<rparr> []
    = Ret (None, [Requested, Waited second, Requested])"
    by (simp add: UpdateGatewayStatus_def demo_rr_eval)
  from status_update_confirmed [OF this] show ?thesis by blast
qed

end
