(* ===== verification/Alert_Cache_Lemmas.thy ===== *)
theory Alert_Cache_Lemmas
  imports Alert_Cache RR_Props
begin

text \<open>
  Facts about the alert configuration cache: what a snapshot holds, the specification of a lookup on
  the list of configurations it was built from, and what refreshes and the refresh loop keep.
\<close>

section \<open>What a snapshot holds\<close>

text \<open>The last configuration of a list that satisfies a predicate.\<close>

definition last_config :: "(alert_config \<Rightarrow> bool) \<Rightarrow> alert_config list \<Rightarrow> alert_config option" where
  "last_config P configs = find P (rev configs)"

lemma last_config_Nil [simp]: "last_config P [] = None"
  by (simp add: last_config_def)

lemma last_config_snoc [simp]:
  "last_config P (configs @ [cfg]) = (if P cfg then Some cfg else last_config P configs)"
  by (simp add: last_config_def)

lemma last_config_cong:
  "(\<And>cfg. cfg \<in> set configs \<Longrightarrow> P cfg = Q cfg) \<Longrightarrow> last_config P configs = last_config Q configs"
  unfolding last_config_def by (rule find_cong) auto

lemma build_snapshot_snoc:
  "build_snapshot (configs @ [cfg]) now = store_config cfg (build_snapshot configs now)"
  by (simp add: build_snapshot_def)

lemma build_byTenant:
  "byTenant (build_snapshot configs now) t =
     last_config (\<lambda>cfg. cfg_GatewayID cfg = None \<and> cfg_TenantID cfg = t) configs"
proof (induction configs rule: rev_induct)
  case (snoc cfg configs)
  then show ?case by (auto simp: build_snapshot_snoc store_config_def split: option.splits)
qed (simp add: build_snapshot_def)

lemma build_byGateway:
  "byGateway (build_snapshot configs now) k =
     last_config (\<lambda>cfg. \<exists>g. cfg_GatewayID cfg = Some g \<and> snapshot_key (cfg_TenantID cfg) g = k) configs"
proof (induction configs rule: rev_induct)
  case (snoc cfg configs)
  then show ?case by (auto simp: build_snapshot_snoc store_config_def split: option.splits)
qed (simp add: build_snapshot_def)

lemma build_fetchedAt [simp]: "fetchedAt (build_snapshot configs now) = now"
proof (induction configs rule: rev_induct)
  case (snoc cfg configs)
  then show ?case by (auto simp: build_snapshot_snoc store_config_def split: option.splits)
qed (simp add: build_snapshot_def)

text \<open>
  The specification of a lookup: the last configuration of the gateway, else the last one for the
  whole tenant, else the default.
\<close>

definition configured :: "alert_config list \<Rightarrow> i64 \<Rightarrow> string \<Rightarrow> string \<Rightarrow> i64" where
  "configured configs dflt t g =
     (case last_config (\<lambda>cfg. cfg_TenantID cfg = t \<and> cfg_GatewayID cfg = Some g) configs of
        Some cfg \<Rightarrow> cfg_TimeoutMs cfg
      | None \<Rightarrow>
          (case last_config (\<lambda>cfg. cfg_TenantID cfg = t \<and> cfg_GatewayID cfg = None) configs of
             Some cfg \<Rightarrow> cfg_TimeoutMs cfg
           | None \<Rightarrow> dflt))"

definition slash_free :: "alert_config list \<Rightarrow> bool" where
  "slash_free configs \<longleftrightarrow> (\<forall>cfg \<in> set configs. CHR ''/'' \<notin> set (cfg_TenantID cfg))"

lemma snapshot_timeout_configured:
  assumes "slash_free configs" and "CHR ''/'' \<notin> set t"
  shows "snapshot_timeout (build_snapshot configs now) dflt t g = configured configs dflt t g"
proof -
  have gw: "byGateway (build_snapshot configs now) (snapshot_key t g) =
      last_config (\<lambda>cfg. cfg_TenantID cfg = t \<and> cfg_GatewayID cfg = Some g) configs"
    unfolding build_byGateway
    by (rule last_config_cong)
       (use assms in \<open>auto simp: slash_free_def snapshot_key_def append_sep_inj\<close>)
  have tn: "byTenant (build_snapshot configs now) t =
      last_config (\<lambda>cfg. cfg_TenantID cfg = t \<and> cfg_GatewayID cfg = None) configs"
    unfolding build_byTenant by (rule last_config_cong) auto
  show ?thesis by (simp add: snapshot_timeout_def configured_def gw tn split: option.split)
qed

lemma empty_timeout [simp]: "snapshot_timeout empty_snapshot dflt t g = dflt"
  by (simp add: snapshot_timeout_def empty_snapshot_def)

section \<open>What every operation keeps\<close>

definition same_settings :: "'x alert_config_cache \<Rightarrow> 'x alert_config_cache \<Rightarrow> bool" where
  "same_settings c c' \<longleftrightarrow> (\<exists>s. c' = c\<lparr>snapshot_ptr := s\<rparr>)"

lemma same_settings_upd [simp]: "same_settings c (c\<lparr>snapshot_ptr := s\<rparr>)"
  by (auto simp: same_settings_def)

lemma same_settings_refl [simp]: "same_settings c c"
  using same_settings_upd [of c "snapshot_ptr c"] by simp

lemma same_settings_trans: "same_settings a b \<Longrightarrow> same_settings b c \<Longrightarrow> same_settings a c"
  by (auto simp: same_settings_def)

lemma same_settingsD:
  assumes "same_settings c c'"
  shows "cache_rrClient c' = cache_rrClient c" "defaultTimeoutMs c' = defaultTimeoutMs c"
    "refreshInterval c' = refreshInterval c" "cache_maxRetries c' = cache_maxRetries c"
    "initialBackoff c' = initialBackoff c" "maxBackoff c' = maxBackoff c"
    "cache_wait c' = cache_wait c" "cache_now c' = cache_now c" "next_delay c' = next_delay c"
    "exhausted_fetch c' = exhausted_fetch c"
  using assms by (auto simp: same_settings_def fun_eq_iff next_delay_def exhausted_fetch_def Let_def split: option.split)

text \<open>The two outcomes of a refresh.\<close>

lemma refresh_cases:
  assumes "refresh c w = Ret (r, c', w')"
  obtains (failed) err x1 where "cache_rrClient c (ext w) = Ret (Inl err, x1)"
      "r = Some (Wrapf ''fetch alert configs: %w'' [] err)" "c' = c" "w' = w\<lparr>ext := x1\<rparr>"
    | (fetched) configs x1 now x2 where "cache_rrClient c (ext w) = Ret (Inr configs, x1)"
      "cache_now c x1 = (now, x2)" "r = None" "c' = c\<lparr>snapshot_ptr := build_snapshot configs now\<rparr>"
      "w' = with_metrics (SetAlertCacheLastSuccess (unix_seconds now)) (w\<lparr>ext := x2\<rparr>)"
proof -
  from assms obtain a x1 where a: "cache_rrClient c (ext w) = Ret (a, x1)"
    by (auto simp: refresh_def go_bind_Ret_iff)
  obtain now x2 where n: "cache_now c x1 = (now, x2)" by fastforce
  show thesis using that assms a n by (cases a) (simp_all add: refresh_def)
qed

lemma refresh_settings: "refresh c w = Ret (r, c', w') \<Longrightarrow> same_settings c c'"
  by (erule refresh_cases) simp_all

text \<open>
  A refresh that succeeds also replaces a relation between the cache and the world; an operation
  keeps every relation that its refreshes, its error counts and its waits keep.
\<close>

lemma fetch_loop_invariant:
  assumes step: "\<And>c w c' w'. I c w \<Longrightarrow> refresh c w = Ret (None, c', w') \<Longrightarrow> I c' w'"
    and fail: "\<And>c w e c' w' d stop w2. I c w \<Longrightarrow> refresh c w = Ret (Some e, c', w')
        \<Longrightarrow> outside (cache_wait c' d) (with_metrics IncAlertCacheRefreshErrors w') = (stop, w2)
        \<Longrightarrow> I c' w2"
    and "I c w" and "fetch_loop n d le c w = Ret (r, c', w')"
  shows "I c' w'"
  using assms(3,4)
proof (induction n arbitrary: d le c w)
  case (Suc n)
  then obtain q c1 w1 where ref: "refresh c w = Ret (q, c1, w1)"
    by (auto simp: go_bind_Ret_iff)
  show ?case
  proof (cases q)
    case None
    with Suc.prems ref show ?thesis using step by auto
  next
    case (Some e)
    obtain stop w2 where o: "outside (cache_wait c1 d) (with_metrics IncAlertCacheRefreshErrors w1) = (stop, w2)"
      by fastforce
    have "I c1 w2" using fail [OF Suc.prems(1) ref [unfolded Some] o] .
    with Suc.prems(2) ref Some o Suc.IH show ?thesis by (cases stop) auto
  qed
qed simp

lemma refresh_tick_invariant:
  assumes step: "\<And>c w c' w'. I c w \<Longrightarrow> refresh c w = Ret (None, c', w') \<Longrightarrow> I c' w'"
    and fail: "\<And>c w e c' w'. I c w \<Longrightarrow> refresh c w = Ret (Some e, c', w')
        \<Longrightarrow> I c' (with_metrics IncAlertCacheRefreshErrors w')"
    and "I (fst s) (snd s)" and "refresh_tick s = Ret s'"
  shows "I (fst s') (snd s')"
  using assms(3,4) step fail
  by (auto simp: refresh_tick_def go_bind_Ret_iff split: prod.splits option.splits) fastforce+

section \<open>A source of configurations\<close>

text \<open>What the cache asks of its fetcher: it answers, with an error or with a list; it never panics.\<close>

locale config_source =
  fixes fetch :: "'x config_fetcher"
  assumes fetch_returns: "\<exists>r x'. fetch x = Ret (r, x')"
begin

lemma refresh_returns: "cache_rrClient c = fetch \<Longrightarrow> \<exists>r c' w'. refresh c w = Ret (r, c', w')"
  using fetch_returns [of "ext w"] by (auto simp: refresh_def split: sum.splits prod.splits)

lemma fetch_loop_returns:
  "cache_rrClient c = fetch \<Longrightarrow>
     \<exists>r c' w'. fetch_loop n d le c w = Ret (r, c', w') \<and> same_settings c c'"
proof (induction n arbitrary: d le c w)
  case (Suc n)
  from refresh_returns [OF Suc.prems] obtain q c1 w1 where ref: "refresh c w = Ret (q, c1, w1)"
    by blast
  note ss = refresh_settings [OF ref]
  then have "cache_rrClient c1 = fetch" using Suc.prems same_settingsD by metis
  note IH = Suc.IH [OF this]
  show ?case
  proof (cases q)
    case (Some e)
    obtain stop w2 where o: "outside (cache_wait c1 d) (with_metrics IncAlertCacheRefreshErrors w1) = (stop, w2)"
      by fastforce
    with ref Some ss IH [of "next_delay c1 d" "Some e" w2] show ?thesis
      by (cases stop) (auto intro: same_settings_trans)
  qed (use ref ss in simp)
qed simp

lemma fetchWithBackoff_returns:
  "cache_rrClient c = fetch \<Longrightarrow> \<exists>r c' w'. fetchWithBackoff c w = Ret (r, c', w') \<and> same_settings c c'"
  unfolding fetchWithBackoff_def by (rule fetch_loop_returns)

lemma ticks_return:
  "cache_rrClient c = fetch \<Longrightarrow>
     \<exists>c' w'. fold_result (\<lambda>_. refresh_tick) us (c, w) = Ret (c', w') \<and> same_settings c c'"
proof (induction us arbitrary: c w)
  case (Cons u us)
  from refresh_returns [OF Cons.prems] obtain q c1 w1 where ref: "refresh c w = Ret (q, c1, w1)"
    by blast
  note ss = refresh_settings [OF ref]
  then have "cache_rrClient c1 = fetch" using Cons.prems same_settingsD by metis
  note IH = Cons.IH [OF this]
  obtain w2 where "refresh_tick (c, w) = Ret (c1, w2)"
    using ref by (cases q) (simp_all add: refresh_tick_def)
  moreover obtain c' w' where "fold_result (\<lambda>_. refresh_tick) us (c1, w2) = Ret (c', w')"
    and "same_settings c1 c'" using IH [of w2] by blast
  ultimately show ?case using same_settings_trans [OF ss] by simp
qed simp

lemma run_returns:
  assumes "cache_rrClient c = fetch" and "0 < sint (refreshInterval c)"
  shows "\<exists>c' w'. Run_cache n c w = Ret (c', w') \<and> same_settings c c'"
proof -
  from fetchWithBackoff_returns [OF assms(1)] obtain r c1 w1
    where f: "fetchWithBackoff c w = Ret (r, c1, w1)" "same_settings c c1" by blast
  from same_settingsD [OF f(2)] assms have "cache_rrClient c1 = fetch" "0 < sint (refreshInterval c1)"
    by simp_all
  with ticks_return [of c1 "replicate n ()" w1] f show ?thesis
    using same_settings_trans [OF f(2)] by (force simp: Run_cache_def)
qed

lemma run_panics:
  assumes "cache_rrClient c = fetch" and "sint (refreshInterval c) \<le> 0"
  shows "\<not> returns (Run_cache n c w)"
proof -
  from fetchWithBackoff_returns [OF assms(1)] obtain r c1 w1
    where f: "fetchWithBackoff c w = Ret (r, c1, w1)" "same_settings c c1" by blast
  from same_settingsD [OF f(2)] assms f(1) show ?thesis by (simp add: Run_cache_def)
qed

end

text \<open>The request-reply client of the service is such a source, whatever the network does.\<close>

lemma FetchAlertConfigs_returns:
  "\<exists>r x'. FetchAlertConfigs J (NewNATSRRClient nc race timeout) x = Ret (r, x')"
proof -
  from requestWithRetry_returns [of nc race timeout subjectAlertConfigsList "[]" x]
  obtain r x' where "requestWithRetry (NewNATSRRClient nc race timeout) subjectAlertConfigsList [] x = Ret (r, x')"
    by blast
  then show ?thesis by (simp add: FetchAlertConfigs_def)
qed

interpretation rr_source: config_source "FetchAlertConfigs J (NewNATSRRClient nc race timeout)"
  for J nc race timeout
  by unfold_locales (rule FetchAlertConfigs_returns)

end
