(* ===== verification/Driven_Adapters.thy ===== *)
theory Driven_Adapters
  imports RR_Client
begin

text \<open>
  The remaining adapters under \<open>internal/adapter/driven\<close>: the alert publisher
  (\<open>nats_alert_publisher.go\<close>), the lifecycle provider (\<open>nats_gateway_lifecycle_provider.go\<close>), the status
  updater (\<open>nats_gateway_status_updater.go\<close>), the system clock (\<open>clock.go\<close>) and the telemetry writer
  (\<open>postgres_telemetry_writer.go\<close>). JetStream, the request-reply calls and the connection pool are
  parameters.
\<close>

section \<open>Alert publisher\<close>

text \<open>\<open>js.Publish\<close>: the subject and the data, and the text of the error if there was one.\<close>

type_synonym 'x js_publish = "string \<Rightarrow> string \<Rightarrow> 'x \<Rightarrow> string option \<times> 'x"

record 'x alert_publisher =
  ap_js :: "'x js_publish"

definition NewNATSAlertPublisher :: "'x js_publish \<Rightarrow> 'x alert_publisher" where
  "NewNATSAlertPublisher js = \<lparr>ap_js = js\<rparr>"

definition alert_subject :: "string \<Rightarrow> string" where
  "alert_subject tenantID = ''alert.'' @ tenantID @ ''.gw_offline''"

definition Alert_Publish ::
    "json_codec \<Rightarrow> 'x alert_publisher \<Rightarrow> string \<Rightarrow> alert_payload \<Rightarrow> 'x world \<Rightarrow> go_error option \<times> 'x world" where
  "Alert_Publish J p tenantID payload w =
     (case enc_alert J payload of
        Inl e \<Rightarrow> (Some (Wrapf ''marshal alert payload: %w'' [] (External e)), w)
      | Inr data \<Rightarrow>
          (let subject = alert_subject tenantID;
               (r, w1) = outside (ap_js p subject data) w
           in case r of
                Some err \<Rightarrow> (Some (Wrapf ''nats publish %s: %w'' [FS subject] (External err)),
                    with_metrics IncAlertPublishErrors w1)
              | None \<Rightarrow> (None, with_metrics IncAlertsPublished w1)))"

section \<open>Lifecycle provider and status updater\<close>

text \<open>The clients of the two adapters: the calls of the request-reply client that they need.\<close>

type_synonym 'x gateway_lifecycle_caller =
  "string \<Rightarrow> string \<Rightarrow> 'x \<Rightarrow> (lifecycle_state \<times> go_error option) \<times> 'x"

type_synonym 'x gateway_status_update_caller = "gateway_status_update \<Rightarrow> 'x \<Rightarrow> go_error option \<times> 'x"

record 'x lifecycle_provider =
  lp_client :: "'x gateway_lifecycle_caller"

definition NewNATSGatewayLifecycleProvider :: "'x gateway_lifecycle_caller \<Rightarrow> 'x lifecycle_provider" where
  "NewNATSGatewayLifecycleProvider client = \<lparr>lp_client = client\<rparr>"

record 'x status_updater =
  su_client :: "'x gateway_status_update_caller"

definition NewNATSGatewayStatusUpdater :: "'x gateway_status_update_caller \<Rightarrow> 'x status_updater" where
  "NewNATSGatewayStatusUpdater client = \<lparr>su_client = client\<rparr>"

definition Provider_GetGatewayLifecycle ::
    "'x lifecycle_provider \<Rightarrow> string \<Rightarrow> string \<Rightarrow> 'x world \<Rightarrow> (lifecycle_state \<times> go_error option) \<times> 'x world" where
  "Provider_GetGatewayLifecycle p tenantID gatewayID w =
     (let ((state, err), w1) = outside (lp_client p tenantID gatewayID) w
      in case err of
           Some e \<Rightarrow> ((LifecycleUnknown, Some e), with_metrics IncLifecycleQueryErrors w1)
         | None \<Rightarrow> ((state, None), w1))"

definition Updater_UpdateStatus ::
    "'x status_updater \<Rightarrow> gateway_status_update \<Rightarrow> 'x world \<Rightarrow> go_error option \<times> 'x world" where
  "Updater_UpdateStatus u update w =
     (let (err, w1) = outside (su_client u update) w
      in case err of
           Some e \<Rightarrow> (Some e, with_metrics IncStatusUpdateErrors w1)
         | None \<Rightarrow> (None, w1))"

section \<open>System clock\<close>

definition SystemClock_Now :: "('x \<Rightarrow> time \<times> 'x) \<Rightarrow> 'x world \<Rightarrow> time \<times> 'x world" where
  "SystemClock_Now now w = outside now w"

text \<open>
  \<open>time.Since(start)\<close> is \<open>time.Now().Sub(start)\<close>, and \<open>Sub\<close> saturates at the ends of the range of a
  duration.
\<close>

definition time_sub :: "time \<Rightarrow> time \<Rightarrow> duration" where
  "time_sub t u = word_of_int (max (- (2 ^ 63)) (min (2 ^ 63 - 1) (t - u)))"

section \<open>Telemetry writer\<close>

datatype sql_value = SqlTime time | SqlText string | SqlInt i64

type_synonym sql_statement = "string \<times> sql_value list"

definition newline :: string where
  "newline = [CHR 0x0A]"

definition insertTelemetry :: string where
  "insertTelemetry = newline @ ''INSERT INTO telemetry ('' @ newline @
     [CHR 0x09] @ ''time, tenant_id, gateway_id, sensor_id, sensor_type,'' @ newline @
     [CHR 0x09] @ ''encrypted_data, iv, auth_tag, key_version'' @ newline @
     '') VALUES ($1, $2, $3, $4, $5, $6, $7, $8, $9)''"

text \<open>
  The pool: \<open>Exec\<close> runs one statement; \<open>SendBatch\<close> sends a batch and gives a handle to its results,
  from which \<open>br.Exec\<close> reads the next one and which \<open>br.Close\<close> closes.
\<close>

record ('x, 'b) db_pool =
  pool_Exec :: "sql_statement \<Rightarrow> 'x \<Rightarrow> string option \<times> 'x"
  pool_SendBatch :: "sql_statement list \<Rightarrow> 'x \<Rightarrow> 'b \<times> 'x"
  br_Exec :: "'b \<Rightarrow> 'x \<Rightarrow> string option \<times> 'x"
  br_Close :: "'b \<Rightarrow> 'x \<Rightarrow> string option \<times> 'x"
  pool_Close :: "'x \<Rightarrow> 'x"

record ('x, 'b) telemetry_writer =
  tw_pool :: "('x, 'b) db_pool"

definition NewPostgresTelemetryWriter :: "('x, 'b) db_pool \<Rightarrow> ('x, 'b) telemetry_writer" where
  "NewPostgresTelemetryWriter pool = \<lparr>tw_pool = pool\<rparr>"

definition row_statement :: "telemetry_row \<Rightarrow> sql_statement" where
  "row_statement row = (insertTelemetry,
     [SqlTime (row_Time row), SqlText (row_TenantID row), SqlText (row_GatewayID row),
      SqlText (row_SensorID row), SqlText (row_SensorType row),
      SqlText (blob_Value (row_EncryptedData row)), SqlText (blob_Value (row_IV row)),
      SqlText (blob_Value (row_AuthTag row)), SqlInt (row_KeyVersion row)])"

definition Writer_Write ::
    "('x, 'b) telemetry_writer \<Rightarrow> telemetry_row \<Rightarrow> 'x \<Rightarrow> go_error option \<times> 'x" where
  "Writer_Write tw row x =
     (case pool_Exec (tw_pool tw) (row_statement row) x of
        (Some err, x1) \<Rightarrow> (Some (Wrapf ''insert telemetry row: %w'' [] (External err)), x1)
      | (None, x1) \<Rightarrow> (None, x1))"

text \<open>The loop over the results; \<open>i\<close> is the index of the row.\<close>

fun read_results ::
    "('x, 'b) db_pool \<Rightarrow> 'b \<Rightarrow> nat \<Rightarrow> telemetry_row list \<Rightarrow> 'x \<Rightarrow> go_error option \<times> 'x" where
  "read_results pool br i [] x = (None, x)"
| "read_results pool br i (row # rows) x =
     (case br_Exec pool br x of
        (Some err, x1) \<Rightarrow> (Some (Wrapf ''batch insert row %d: %w'' [FI (int i)] (External err)), x1)
      | (None, x1) \<Rightarrow> read_results pool br (Suc i) rows x1)"

definition Writer_WriteBatch ::
    "('x, 'b) telemetry_writer \<Rightarrow> telemetry_row list \<Rightarrow> 'x \<Rightarrow> go_error option \<times> 'x" where
  "Writer_WriteBatch tw rows x =
     (if rows = [] then (None, x)
      else
        let pool = tw_pool tw;
            (br, x1) = pool_SendBatch pool (map row_statement rows) x;
            (r, x2) = read_results pool br 0 rows x1;
            (closeErr, x3) = br_Close pool br x2
        in (r, x3))"

definition Writer_Close :: "('x, 'b) telemetry_writer \<Rightarrow> 'x \<Rightarrow> 'x" where
  "Writer_Close tw x = pool_Close (tw_pool tw) x"

lemma constructors [simp]:
  "ap_js (NewNATSAlertPublisher js) = js" "lp_client (NewNATSGatewayLifecycleProvider lc) = lc"
  "su_client (NewNATSGatewayStatusUpdater uc) = uc" "tw_pool (NewPostgresTelemetryWriter pool) = pool"
  by (simp_all add: NewNATSAlertPublisher_def NewNATSGatewayLifecycleProvider_def
      NewNATSGatewayStatusUpdater_def NewPostgresTelemetryWriter_def)

end
