(* ===== verification/Driven_Adapters_Props.thy ===== *)
theory Driven_Adapters_Props
  imports Driven_Adapters RR_Props
begin

text \<open>
  Properties of the smaller driven adapters: what each counts, and what the telemetry writer asks of
  the database and makes of its answers.
\<close>

section \<open>Counting\<close>

lemma Alert_Publish_metrics:
  assumes "Alert_Publish J p tenantID payload w = (r, w')"
  shows "mtr w' = (case r of
       None \<Rightarrow> IncAlertsPublished (mtr w)
     | Some e \<Rightarrow> if isl (enc_alert J payload) then mtr w else IncAlertPublishErrors (mtr w))"
  using assms by (auto simp: Alert_Publish_def outside_def Let_def split: sum.splits option.splits prod.splits)

lemma Provider_metrics:
  assumes "Provider_GetGatewayLifecycle p tenantID gatewayID w = ((state, err), w')"
  shows "mtr w' = (if err = None then mtr w else IncLifecycleQueryErrors (mtr w))"
  using assms
  by (auto simp: Provider_GetGatewayLifecycle_def outside_def Let_def split: option.splits prod.splits)

lemma Updater_metrics:
  assumes "Updater_UpdateStatus u update w = (err, w')"
  shows "mtr w' = (if err = None then mtr w else IncStatusUpdateErrors (mtr w))"
  using assms by (auto simp: Updater_UpdateStatus_def outside_def Let_def split: option.splits prod.splits)

text \<open>
  A publication succeeds exactly if the payload could be encoded and JetStream took it, under the
  tenant's subject; it is then counted as published, and counted as failed if JetStream refused it.
\<close>

theorem alert_publish_outcome:
  assumes "Alert_Publish J p tenantID payload w = (r, w')"
  shows "(r = None \<longleftrightarrow>
      (\<exists>data. enc_alert J payload = Inr data \<and> fst (ap_js p (alert_subject tenantID) data (ext w)) = None))
    \<and> AlertsPublished (mtr w') = AlertsPublished (mtr w) + (if r = None then 1 else 0)
    \<and> AlertPublishErrors (mtr w') = AlertPublishErrors (mtr w)
        + (if r = None \<or> isl (enc_alert J payload) then 0 else 1)"
  using assms
  by (auto simp: Alert_Publish_def outside_def Let_def metric_defs split: sum.splits option.splits prod.splits)

section \<open>The telemetry writer\<close>

datatype db_event = Sent "sql_statement list" | ResultRead "string option" | BatchClosed

definition observed_pool :: "('x, 'b) db_pool \<Rightarrow> ('x \<Rightarrow> db_event list) \<Rightarrow> bool" where
  "observed_pool pool log \<longleftrightarrow>
     (\<forall>b x. log (snd (pool_SendBatch pool b x)) = log x @ [Sent b])
     \<and> (\<forall>br x. log (snd (br_Exec pool br x)) = log x @ [ResultRead (fst (br_Exec pool br x))])
     \<and> (\<forall>br x. log (snd (br_Close pool br x)) = log x @ [BatchClosed])"

lemma read_results_log:
  assumes "observed_pool pool log"
  shows "\<exists>oks. oks \<le> length rows \<and> (case read_results pool br i rows x of
      (None, x') \<Rightarrow> oks = length rows \<and> log x' = log x @ replicate oks (ResultRead None)
    | (Some e, x') \<Rightarrow> oks < length rows \<and> (\<exists>err.
        e = Wrapf ''batch insert row %d: %w'' [FI (int (i + oks))] (External err)
        \<and> log x' = log x @ replicate oks (ResultRead None) @ [ResultRead (Some err)]))"
proof (induction rows arbitrary: i x)
  case (Cons row rows)
  obtain r x1 where e: "br_Exec pool br x = (r, x1)" by fastforce
  with assms have l: "log x1 = log x @ [ResultRead r]"
    unfolding observed_pool_def by (metis fst_conv snd_conv)
  show ?case
  proof (cases r)
    case (Some err)
    with e l show ?thesis by (intro exI [of _ 0]) simp
  next
    case None
    obtain q x2 where q: "read_results pool br (Suc i) rows x1 = (q, x2)" by fastforce
    from None e have step: "read_results pool br i (row # rows) x = (q, x2)" by (simp add: q)
    note IH = Cons.IH [where i = "Suc i" and x = x1, unfolded q]
    show ?thesis
    proof (cases q)
      case None
      with IH l \<open>r = None\<close> step show ?thesis by (intro exI [of _ "Suc (length rows)"]) simp
    next
      case (Some er)
      with IH obtain oks err where "oks < length rows"
        "er = Wrapf ''batch insert row %d: %w'' [FI (int (Suc i + oks))] (External err)"
        "log x2 = log x1 @ replicate oks (ResultRead None) @ [ResultRead (Some err)]" by auto
      with Some l \<open>r = None\<close> step show ?thesis by (intro exI [of _ "Suc oks"]) simp
    qed
  qed
qed simp

lemma write_batch_log:
  assumes "observed_pool pool log" and "rows \<noteq> []"
    and "Writer_WriteBatch (NewPostgresTelemetryWriter pool) rows x = (r, x')"
  shows "case r of
      None \<Rightarrow> log x' = log x @ [Sent (map row_statement rows)]
        @ replicate (length rows) (ResultRead None) @ [BatchClosed]
    | Some e \<Rightarrow> \<exists>i err. i < length rows
        \<and> e = Wrapf ''batch insert row %d: %w'' [FI (int i)] (External err)
        \<and> log x' = log x @ [Sent (map row_statement rows)]
            @ replicate i (ResultRead None) @ [ResultRead (Some err), BatchClosed]"
proof -
  obtain br x1 where s: "pool_SendBatch pool (map row_statement rows) x = (br, x1)" by fastforce
  obtain q x2 where q: "read_results pool br 0 rows x1 = (q, x2)" by fastforce
  obtain ce x3 where c: "br_Close pool br x2 = (ce, x3)" by fastforce
  from assms s q c have "r = q" "x' = x3" by (simp_all add: Writer_WriteBatch_def)
  moreover from assms(1) s have "log x1 = log x @ [Sent (map row_statement rows)]"
    unfolding observed_pool_def by (metis snd_conv)
  moreover from assms(1) c have "log x3 = log x2 @ [BatchClosed]"
    unfolding observed_pool_def by (metis snd_conv)
  ultimately show ?thesis
    using read_results_log [OF assms(1), where rows = rows and br = br and i = 0 and x = x1] q by (auto split: option.splits)
qed

text \<open>
  A batch write of at least one row sends one insert per row, verbatim and in order, as a single
  batch, reads results up to the first failure and then closes the batch in any case. It succeeds
  exactly if all results were read without a failure, and otherwise names the row that failed first.
\<close>

theorem write_batch_protocol:
  assumes "observed_pool pool log" and "rows \<noteq> []"
    and "Writer_WriteBatch (NewPostgresTelemetryWriter pool) rows x = (r, x')"
  shows "case r of
      None \<Rightarrow> log x' = log x @ [Sent (map row_statement rows)]
        @ replicate (length rows) (ResultRead None) @ [BatchClosed]
    | Some e \<Rightarrow> \<exists>i err. i < length rows
        \<and> e = Wrapf ''batch insert row %d: %w'' [FI (int i)] (External err)
        \<and> log x' = log x @ [Sent (map row_statement rows)]
            @ replicate i (ResultRead None) @ [ResultRead (Some err), BatchClosed]"
  using write_batch_log [OF assms] .

text \<open>
  Whatever closing the batch reports, the result of the write is the same: a failure that shows
  only at the end of the batch, when the server commits it, is taken for a success.
\<close>

theorem batch_close_error_lost:
  assumes "\<And>b x. snd (close b x) = snd (br_Close pool b x)"
  shows "Writer_WriteBatch (NewPostgresTelemetryWriter (pool\<lparr>br_Close := close\<rparr>)) rows x = Writer_WriteBatch (NewPostgresTelemetryWriter pool) rows x"
proof -
  have "read_results (pool\<lparr>br_Close := close\<rparr>) br i rs y = read_results pool br i rs y" for br i rs y
    by (induction rs arbitrary: i y) (auto split: prod.splits option.splits)
  with assms show ?thesis
    by (auto simp: Writer_WriteBatch_def Let_def split: prod.splits) (metis snd_conv)
qed

section \<open>Witnesses\<close>

text \<open>A pool that logs what it is asked and fails the result with a given index.\<close>

definition demo_pool :: "nat \<Rightarrow> (db_event list, nat) db_pool" where
  "demo_pool bad = \<lparr>
     pool_Exec = (\<lambda>st x. (None, x)),
     pool_SendBatch = (\<lambda>b x. (length x + 1, x @ [Sent b])),
     br_Exec = (\<lambda>start x. let r = (if length x - start = bad then Some ''duplicate key'' else None)
                 in (r, x @ [ResultRead r])),
     br_Close = (\<lambda>start x. (None, x @ [BatchClosed])),
     pool_Close = (\<lambda>x. x)\<rparr>"

definition demo_row :: telemetry_row where
  "demo_row = \<lparr>row_Time = 5, row_TenantID = ''t'', row_GatewayID = ''g'', row_SensorID = ''s'',
     row_SensorType = SensorTypeHumidity, row_EncryptedData = \<lparr>blob_Value = ''AAAA''\<rparr>,
     row_IV = \<lparr>blob_Value = ''BBBB''\<rparr>, row_AuthTag = \<lparr>blob_Value = ''CCCC''\<rparr>, row_KeyVersion = 1\<rparr>"

lemma demo_pool_observed: "observed_pool (demo_pool bad) (\<lambda>x. x)"
  by (simp add: observed_pool_def demo_pool_def Let_def)

lemma alert_publish_outcome_witness:
  "\<exists>w'. Alert_Publish demo_codec (NewNATSAlertPublisher (\<lambda>s d x. (Some ''no responders'', x))) ''t''
      \<lparr>al_GatewayID = ''g'', al_LastSeen = 1, al_TimeoutMs = 2, al_Timestamp = 3\<rparr>
      \<lparr>mtr = zero_metrics, ext = ()\<rparr> =
      (Some (Wrapf ''nats publish %s: %w'' [FS ''alert.t.gw_offline''] (External ''no responders'')), w')
    \<and> AlertsPublished (mtr w') = 0 \<and> AlertPublishErrors (mtr w') = 1"
proof -
  have "Alert_Publish demo_codec (NewNATSAlertPublisher (\<lambda>s d x. (Some ''no responders'', x))) ''t''
      \<lparr>al_GatewayID = ''g'', al_LastSeen = 1, al_TimeoutMs = 2, al_Timestamp = 3\<rparr>
      \<lparr>mtr = zero_metrics, ext = ()\<rparr> =
      (Some (Wrapf ''nats publish %s: %w'' [FS ''alert.t.gw_offline''] (External ''no responders'')),
       with_metrics IncAlertPublishErrors \<lparr>mtr = zero_metrics, ext = ()\<rparr>)"
    by (simp add: Alert_Publish_def demo_codec_def outside_def alert_subject_def)
  from alert_publish_outcome [OF this] this show ?thesis
    by (simp add: zero_metrics_def demo_codec_def)
qed

lemma write_batch_protocol_witness:
  "\<exists>i err. i < 3 \<and> snd (Writer_WriteBatch (NewPostgresTelemetryWriter (demo_pool 1)) [demo_row, demo_row, demo_row] [])
     = [Sent (replicate 3 (row_statement demo_row))] @ replicate i (ResultRead None)
         @ [ResultRead (Some err), BatchClosed]"
proof -
  have "Writer_WriteBatch (NewPostgresTelemetryWriter (demo_pool 1)) [demo_row, demo_row, demo_row] [] =
    (Some (Wrapf ''batch insert row %d: %w'' [FI 1] (External ''duplicate key'')),
     [Sent (replicate 3 (row_statement demo_row)), ResultRead None,
      ResultRead (Some ''duplicate key''), BatchClosed])"
    by (simp add: Writer_WriteBatch_def demo_pool_def numeral_eq_Suc Let_def)
  from write_batch_protocol [OF demo_pool_observed _ this] this show ?thesis
    by (auto simp: numeral_eq_Suc)
qed

lemma batch_close_error_lost_witness:
  "fst (Writer_WriteBatch (NewPostgresTelemetryWriter (demo_pool 9 \<lparr>br_Close := (\<lambda>b x. (Some ''commit failed'', x @ [BatchClosed]))\<rparr>))
      [demo_row] []) = None"
  by (subst batch_close_error_lost) (simp_all add: Writer_WriteBatch_def demo_pool_def Let_def)

end
