(* ===== verification/Tracker_Metrics.thy ===== *)
theory Tracker_Metrics
  imports Tracker_Spec Alert_Cache_Lemmas Driven_Adapters_Props
begin

text \<open>
  What the tracker's metrics say about its state. The ports owe the tracker a contract on the metric
  handles they share with it; the adapters that \<open>cmd/consumer/main.go\<close> wires in meet it.
\<close>

section \<open>The contract\<close>

text \<open>
  A port call leaves the gauge of the map alone, and the number of published alerts grows exactly
  with the publications that succeed.
\<close>

locale metered_ports =
  fixes P :: "'x driven_ports"
  assumes clock: "clock_Now P w = (now, w') \<Longrightarrow> mtr w' = mtr w"
    and publish: "Publish P t a w = (r, w') \<Longrightarrow>
        AlertsPublished (mtr w') = AlertsPublished (mtr w) + (if r = None then 1 else 0)
        \<and> HeartbeatMapSize (mtr w') = HeartbeatMapSize (mtr w)"
    and update: "UpdateStatus P u w = (r, w') \<Longrightarrow>
        AlertsPublished (mtr w') = AlertsPublished (mtr w)
        \<and> HeartbeatMapSize (mtr w') = HeartbeatMapSize (mtr w)"
    and lifecycle: "GetGatewayLifecycle P t g w = (q, w') \<Longrightarrow>
        AlertsPublished (mtr w') = AlertsPublished (mtr w)
        \<and> HeartbeatMapSize (mtr w') = HeartbeatMapSize (mtr w)"
begin

text \<open>The number of alerts and the gauge of the map, read off the world.\<close>

definition reads :: "'x world \<Rightarrow> nat \<times> int" where
  "reads w = (AlertsPublished (mtr w), HeartbeatMapSize (mtr w))"

lemma reads_clock: "clock_Now P w = (now, w') \<Longrightarrow> reads w' = reads w"
  using clock by (simp add: reads_def)

lemma reads_dispatch: "dispatchStatusUpdate u (t, w) = Ret (t', w') \<Longrightarrow> reads w' = reads w"
  by (erule dispatch_cases) (simp_all add: reads_def metric_defs)

lemma reads_verdict:
  assumes "tick_verdict P now e w = (v, w')"
  shows "reads w' = (AlertsPublished (mtr w) + (if v = Fired then 1 else 0), HeartbeatMapSize (mtr w))"
proof -
  let ?ms = "TimeoutFor P (he_tenantID e) (he_gatewayID e) w"
  obtain state err w1 where 1: "GetGatewayLifecycle P (he_tenantID e) (he_gatewayID e) w = ((state, err), w1)"
    by (metis prod.exhaust)
  obtain pe w2 where 2: "Publish P (he_tenantID e) (offline_alert now e ?ms) w1 = (pe, w2)" by fastforce
  from assms lifecycle [OF 1] publish [OF 2] show ?thesis
    by (auto simp: tick_verdict_def 1 2 Let_def reads_def split: if_splits)
qed

lemma reads_entry:
  assumes "tick_entry P now e (t, w) = Ret (t', w')"
  shows "reads w' = (AlertsPublished (mtr w)
      + (if fst (tick_verdict P now e w) = Fired then 1 else 0), HeartbeatMapSize (mtr w))"
proof -
  obtain v w1 where v: "tick_verdict P now e w = (v, w1)" by fastforce
  have "reads w' = reads w1"
  proof (cases "v = Fired")
    case True
    with assms v obtain t1 where "dispatchStatusUpdate (offline_update e) (t, w1) = Ret (t1, w')"
      by (auto simp: tick_entry_verdict fire_Ret)
    then show ?thesis by (rule reads_dispatch)
  next
    case False
    with assms v show ?thesis by (cases v) (auto simp: tick_entry_verdict)
  qed
  with reads_verdict [OF v] v show ?thesis by simp
qed

lemma reads_loop:
  "fold_result (tick_entry P now) es (t, w) = Ret (t', w') \<Longrightarrow>
     reads w' = (AlertsPublished (mtr w) + length (fired_entries (tick_verdicts P now es (t, w))),
       HeartbeatMapSize (mtr w))"
proof (induction es arbitrary: t w)
  case (Cons e es)
  then obtain t1 w1 where s1: "tick_entry P now e (t, w) = Ret (t1, w1)"
    "fold_result (tick_entry P now) es (t1, w1) = Ret (t', w')"
    by (auto simp: go_bind_Ret_iff)
  from Cons.IH [OF s1(2)] reads_entry [OF s1(1)] s1(1) show ?case by (simp add: reads_def)
qed (simp add: reads_def)

lemma reads_Tick:
  assumes "Tick P order (t, w) = Ret (t', w')"
  shows "reads w' = (AlertsPublished (mtr w) + length (fired_entries (Tick_verdicts P order (t, w))),
      HeartbeatMapSize (mtr w))"
proof -
  obtain now0 w0 where 0: "clock_Now P w = (now0, w0)" by fastforce
  obtain now w1 where 1: "clock_Now P w0 = (now, w1)" by fastforce
  note c = clock [OF 0] clock [OF 1]
  show ?thesis
  proof (cases "in_grace P (t, w)")
    case True
    with assms c 0 show ?thesis by (simp add: Tick_unfold Tick_verdicts_def reads_def)
  next
    case False
    with assms 0 1 have "fold_result (tick_entry P now) (snapshot order t) (t, w1) = Ret (t', w')"
      by (simp add: Tick_unfold)
    from reads_loop [OF this] False 0 1 c show ?thesis by (simp add: Tick_verdicts_def)
  qed
qed

lemma reads_perform: "worker_perform P j (t, w) = (t', w') \<Longrightarrow> reads w' = reads w"
  by (auto simp: worker_perform_def Let_def reads_def metric_defs dest!: update split: prod.splits)

lemma reads_worker: "reads (snd (dispatchWorker P (t, w))) = reads w"
proof -
  have "Q = P \<Longrightarrow> reads (snd (dispatchWorker Q (t, w))) = reads w" for Q t w
  proof (induction Q "(t, w)" arbitrary: t w rule: dispatchWorker.induct)
    case (1 Q t w)
    show ?case
    proof (cases "worker t")
      case Ready
      with 1 show ?thesis by (subst dispatchWorker.simps) simp
    next
      case (Got j)
      obtain t1 w1 where p: "worker_perform P j (t, w) = (t1, w1)" by fastforce
      from 1(2) [OF Got _ "1.prems", of t1 w1] p "1.prems" reads_perform [OF p] show ?thesis
        by (subst dispatchWorker.simps) (simp add: Got)
    qed (simp_all add: dispatchWorker.simps)
  qed
  then show ?thesis by blast
qed

text \<open>Under the lock, telemetry sets the gauge if it adds a gateway.\<close>

lemma telemetry_gauge:
  fixes w :: "'x world"
  assumes "telemetry_locked now tenant g (t, w) = Ret (t', w')"
    and "HeartbeatMapSize (mtr w) = int (tracked t)"
  shows "HeartbeatMapSize (mtr w') = int (tracked t')"
proof -
  let ?k = "GatewayKey tenant g"
  have dispatch: "HeartbeatMapSize (mtr w2) = HeartbeatMapSize (mtr w1) \<and> tracked t2 = tracked t1"
    if "dispatchStatusUpdate u (t1, w1) = Ret (t2, w2)" for u t1 t2 and w1 w2 :: "'x world"
    using reads_dispatch [OF that] dispatch_frame(1) [OF that] by (simp add: reads_def tracked_def)
  show ?thesis
  proof (cases "beats t ?k")
    case None
    let ?t = "t\<lparr>beats := (beats t)(?k \<mapsto> \<lparr>he_tenantID = tenant, he_gatewayID = g, lastSeen = now,
        knownStatus = Online\<rparr>)\<rparr>"
    from None assms(1) have "dispatchStatusUpdate
        \<lparr>upd_GatewayID = g, upd_Status = Online, upd_LastSeenAt = now\<rparr>
        (?t, with_metrics (SetHeartbeatMapSize (int (tracked ?t))) w) = Ret (t', w')"
      by (simp add: telemetry_locked_def Let_def)
    from dispatch [OF this] show ?thesis by (simp add: metric_defs)
  next
    case (Some e)
    then have "dom ((beats t)(?k \<mapsto> e')) = dom (beats t)" for e' by auto
    with Some assms show ?thesis
      by (auto simp: telemetry_locked_def Let_def tracked_def dest!: dispatch split: if_splits)
  qed
qed

definition gauge_ok :: "'x tstate \<Rightarrow> bool" where
  "gauge_ok s \<longleftrightarrow> HeartbeatMapSize (mtr (snd s)) = int (tracked (fst s))"

lemma exec_call_gauge:
  assumes "gauge_ok s" and "exec_call P c s = Ret s'"
  shows "gauge_ok s'"
proof -
  obtain t w t' w' where s: "s = (t, w)" "s' = (t', w')" by (metis prod.exhaust)
  show ?thesis
  proof (cases c)
    case (Call_telemetry tenant env)
    obtain now w1 where c1: "clock_Now P w = (now, w1)" by fastforce
    from assms(2) c1 have "telemetry_locked now tenant (env_GatewayID env) (t, w1) = Ret (t', w')"
      by (auto simp: Call_telemetry s go_bind_Ret_iff HandleTelemetry_Ret)
    from telemetry_gauge [OF this] clock [OF c1] assms(1) show ?thesis by (simp add: gauge_ok_def s)
  next
    case (Call_decommission tenant g)
    with assms(2) show ?thesis
      by (auto simp: s HandleDecommission_def Let_def gauge_ok_def metric_defs)
  next
    case (Call_tick order)
    with assms(2) have tk: "Tick P order (t, w) = Ret (t', w')" by (simp add: s)
    from Tick_Ret [OF tk] have "tracked t' = tracked t" by (simp add: tracked_def)
    with reads_Tick [OF tk] assms(1) show ?thesis by (simp add: gauge_ok_def reads_def s)
  next
    case Call_worker
    with assms(2) have w: "dispatchWorker P (t, w) = (t', w')" by (simp add: s)
    with dispatchWorker_frame [of P t w] have "beats t' = beats t" by simp
    with reads_worker [of t w] w assms(1) show ?thesis
      by (simp add: gauge_ok_def reads_def s tracked_def)
  qed
qed

lemma exec_calls_gauge: "exec_calls P s cs s' \<Longrightarrow> gauge_ok s \<Longrightarrow> gauge_ok s'"
  by (induction rule: exec_calls.induct) (auto intro: exec_call_gauge)

lemma new_gauge:
  assumes "NewHeartbeatTracker P n grace w = Ret s" and "HeartbeatMapSize (mtr w) = 0"
  shows "gauge_ok s"
proof -
  obtain now w1 where c: "clock_Now P w = (now, w1)" by fastforce
  from assms clock [OF c] show ?thesis
    by (auto simp: NewHeartbeatTracker_def c gauge_ok_def tracked_def split: if_splits)
qed

end

text \<open>The keys that fire in one tick are those that go from online to offline, each once.\<close>

definition went_offline :: "tracker \<Rightarrow> tracker \<Rightarrow> gateway_key set" where
  "went_offline t t' = {k. fleet_of t k = Some Online \<and> fleet_of t' k = Some Offline}"

lemma tick_verdicts_map: "\<exists>n. map fst (tick_verdicts P now es s) = take n es"
proof (induction es arbitrary: s)
  case (Cons e es)
  show ?case
  proof (cases "tick_entry P now e s")
    case (Panic p)
    then show ?thesis by (intro exI [of _ 1]) simp
  next
    case (Ret s')
    from Cons.IH [of s'] obtain n where "map fst (tick_verdicts P now es s') = take n es" by blast
    with Ret show ?thesis by (intro exI [of _ "Suc n"]) simp
  qed
qed simp

lemma fired_distinct:
  assumes "tracker_inv t" and "iteration_order order t"
  shows "distinct (map entry_key (fired_entries (Tick_verdicts P order (t, w))))"
proof -
  obtain now w1 where n: "clock_Now P (snd (clock_Now P w)) = (now, w1)" by fastforce
  obtain m where "map fst (tick_verdicts P now (snapshot order t) (t, w1)) = take m (snapshot order t)"
    using tick_verdicts_map by blast
  then have "map entry_key (map fst (tick_verdicts P now (snapshot order t) (t, w1))) = take m order"
    using snapshot_keys [OF assms] by (metis take_map)
  then have "distinct (map (entry_key \<circ> fst) (tick_verdicts P now (snapshot order t) (t, w1)))"
    using assms(2) by (simp add: iteration_order_def)
  then have "distinct (map (entry_key \<circ> fst) (filter Q (tick_verdicts P now (snapshot order t) (t, w1))))" for Q
    by (rule distinct_map_filter)
  then show ?thesis using n by (simp add: Tick_verdicts_def fired_entries_def comp_def)
qed

lemma went_offline_fired:
  assumes "tracker_inv t" and "iteration_order order t" and "Tick P order (t, w) = Ret (t', w')"
  shows "went_offline t t' = fired_keys (Tick_verdicts P order (t, w))"
proof -
  from Tick_Ret [OF assms(3)]
  have b: "beats t' = set_offline (fired_keys (Tick_verdicts P order (t, w))) (beats t)" by simp
  let ?K = "fired_keys (Tick_verdicts P order (t, w))"
  have step: "fleet_of t' = fleet_step (Timeouts ?K) (fleet_of t)" by (rule fleet_of_set_offline [OF b])
  have on: "fleet_of t k = Some Online" if "k \<in> ?K" for k
    using fired_was_online [OF assms(1,2) that] by (auto simp: fleet_of_def)
  show ?thesis by (rule set_eqI) (auto simp: went_offline_def step dest: on)
qed

section \<open>The wiring of the tracker's ports\<close>

text \<open>
  The ports as \<open>run\<close> wires them: the alert publisher on JetStream, the status updater and the
  lifecycle provider on one request-reply client, the timeouts from the snapshot of the alert cache,
  which is read from the outside world (\<open>snap\<close>) because another goroutine replaces it. The client
  made by its constructor never panics, so its calls have a result.
\<close>

definition result_of :: "('x \<Rightarrow> ('a \<times> 'x) go_result) \<Rightarrow> 'x \<Rightarrow> 'a \<times> 'x" where
  "result_of f x = (case f x of Ret r \<Rightarrow> r | Panic p \<Rightarrow> undefined)"

definition service_ports ::
    "json_codec \<Rightarrow> 'x js_publish \<Rightarrow> 'x rr_client \<Rightarrow> ('x \<Rightarrow> time \<times> 'x) \<Rightarrow> ('x \<Rightarrow> alert_config_snapshot)
      \<Rightarrow> i64 \<Rightarrow> 'x driven_ports" where
  "service_ports J js rr now snap defaultMs =
     \<lparr>clock_Now = SystemClock_Now now,
      Publish = Alert_Publish J (NewNATSAlertPublisher js),
      UpdateStatus = Updater_UpdateStatus (NewNATSGatewayStatusUpdater (\<lambda>u. result_of (UpdateGatewayStatus J rr u))),
      TimeoutFor = (\<lambda>t g w. snapshot_timeout (snap (ext w)) defaultMs t g),
      GetGatewayLifecycle =
        Provider_GetGatewayLifecycle
          (NewNATSGatewayLifecycleProvider (\<lambda>t g. result_of (RR_GetGatewayLifecycle J rr t g)))\<rparr>"

lemma result_of_client:
  "UpdateGatewayStatus J (NewNATSRRClient nc race timeout) u x
     = Ret (result_of (UpdateGatewayStatus J (NewNATSRRClient nc race timeout) u) x)"
  "RR_GetGatewayLifecycle J (NewNATSRRClient nc race timeout) t g x
     = Ret (result_of (RR_GetGatewayLifecycle J (NewNATSRRClient nc race timeout) t g) x)"
proof -
  have bind: "\<exists>q. go_bind (requestWithRetry (NewNATSRRClient nc race timeout) s b x)
      (\<lambda>(r, x1). Ret (f r, x1)) = Ret q" for s b and f :: "go_error + string \<Rightarrow> 'r"
    using requestWithRetry_returns [of nc race timeout s b x] by auto
  have "\<exists>q. UpdateGatewayStatus J (NewNATSRRClient nc race timeout) u x = Ret q"
    unfolding UpdateGatewayStatus_def by (cases "enc_status_update J u") (simp_all only: bind sum.case, simp)
  then show "UpdateGatewayStatus J (NewNATSRRClient nc race timeout) u x
     = Ret (result_of (UpdateGatewayStatus J (NewNATSRRClient nc race timeout) u) x)"
    by (auto simp: result_of_def)
  have "\<exists>q. RR_GetGatewayLifecycle J (NewNATSRRClient nc race timeout) t g x = Ret q"
    unfolding RR_GetGatewayLifecycle_def
    by (cases "enc_lifecycle_request J \<lparr>lreq_GatewayID = g, lreq_TenantID = t\<rparr>")
       (simp_all only: bind sum.case, simp)
  then show "RR_GetGatewayLifecycle J (NewNATSRRClient nc race timeout) t g x
     = Ret (result_of (RR_GetGatewayLifecycle J (NewNATSRRClient nc race timeout) t g) x)"
    by (auto simp: result_of_def)
qed

interpretation service: metered_ports "service_ports J js rr now snap defaultMs"
  for J js rr now snap defaultMs
proof unfold_locales
  show "mtr w' = mtr w" if "clock_Now (service_ports J js rr now snap defaultMs) w = (n, w')" for w n w'
    using that by (auto simp: service_ports_def SystemClock_Now_def dest: outsideE)
qed (auto simp: service_ports_def metric_defs dest!: Alert_Publish_metrics Updater_metrics
      Provider_metrics split: option.splits if_splits)

end
