(* ===== verification/Tracker_Props.thy ===== *)
theory Tracker_Props
  imports Tracker_Spec
begin

text \<open>
  The properties of the heartbeat tracker taken one call at a time: what a tick changes and what it
  must change, the grace period, pause and retry, registration and recovery, the drain on shutdown,
  and the refinement of the abstract fleet. The demonstration environment at the start is what the
  witnesses run on: a clock that reads \<open>ext\<close>, a fixed timeout and fixed answers of the other ports.
\<close>

definition demo_ports :: "lifecycle_state \<Rightarrow> go_error option \<Rightarrow> i64 \<Rightarrow> int driven_ports" where
  "demo_ports state pe timeoutMs =
     \<lparr>clock_Now = (\<lambda>w. (ext w, w)),
      Publish = (\<lambda>_ _ w. (pe, w)),
      UpdateStatus = (\<lambda>_ w. (None, w)),
      TimeoutFor = (\<lambda>_ _ _. timeoutMs),
      GetGatewayLifecycle = (\<lambda>_ _ w. ((state, None), w))\<rparr>"

definition demo_world :: "int \<Rightarrow> int world" where
  "demo_world now = \<lparr>mtr = zero_metrics, ext = now\<rparr>"

definition demo_key :: gateway_key where
  "demo_key = GatewayKey ''t'' ''g''"

definition demo_entry :: heartbeat_entry where
  "demo_entry = \<lparr>he_tenantID = ''t'', he_gatewayID = ''g'', lastSeen = 0, knownStatus = Online\<rparr>"

definition demo_tracker :: tracker where
  "demo_tracker = \<lparr>startTime = 0, gracePeriod = 0, beats = [demo_key \<mapsto> demo_entry],
     dispatchCap = 1, dispatchCh = [], dispatchClosed = False, worker = Ready\<rparr>"

definition demo_env :: telemetry_envelope where
  "demo_env = \<lparr>env_GatewayID = ''g'', env_SensorID = ''s'', env_SensorType = SensorTypeHumidity,
     env_Timestamp = 0, env_KeyVersion = 1, env_EncryptedData = \<lparr>blob_Value = ''ZW5j''\<rparr>,
     env_IV = \<lparr>blob_Value = ''aXY=''\<rparr>, env_AuthTag = \<lparr>blob_Value = ''YXV0''\<rparr>\<rparr>"

lemmas demo_defs =
  demo_env_def demo_ports_def demo_world_def demo_key_def demo_entry_def demo_tracker_def

lemma demo_ok: "tracker_inv demo_tracker" "iteration_order [demo_key] demo_tracker"
  by (simp_all add: demo_defs tracker_inv_def iteration_order_def entry_key_def)

text \<open>The definitions that evaluate a tick in the demonstration environment.\<close>

lemmas tick_eval =
  Tick_unfold in_grace_def snapshot_def map_filter_simps tick_entry_def deadline_def time_add_def
  time_before_def of_ms_def millisecond_def lifecycle_defs dispatchStatusUpdate_def try_send_def
  mark_offline_def entry_key_def offline_update_def fun_eq_iff

section \<open>What a tick changes\<close>

text \<open>A gateway is to be declared offline by a tick that reads the clock at \<open>now\<close>, in a given world.\<close>

definition goes_offline :: "'x driven_ports \<Rightarrow> time \<Rightarrow> heartbeat_entry \<Rightarrow> 'x world \<Rightarrow> bool" where
  "goes_offline P now e w \<longleftrightarrow>
     (let timeoutMs = TimeoutFor P (he_tenantID e) (he_gatewayID e) w;
          ((state, err), w1) = GetGatewayLifecycle P (he_tenantID e) (he_gatewayID e) w
      in knownStatus e = Online
         \<and> lastSeen e + sint (of_ms timeoutMs) \<le> now
         \<and> \<not> (err = None \<and> state = LifecyclePaused)
         \<and> fst (Publish P (he_tenantID e) (offline_alert now e timeoutMs) w1) = None)"

lemma goes_offline_Fired: "goes_offline P now e w \<longleftrightarrow> fst (tick_verdict P now e w) = Fired"
  by (auto simp: goes_offline_def tick_verdict_Fired deadline_def time_add_def Let_def
           split: prod.splits)

definition tick_now :: "'x driven_ports \<Rightarrow> 'x world \<Rightarrow> time" where
  "tick_now P w = fst (clock_Now P (snd (clock_Now P w)))"



text \<open>A verdict that every world gives is reached when the entry's turn comes.\<close>

lemma fired_in_loop:
  assumes "fold_result (tick_entry P now) es s = Ret s'" and "e \<in> set es"
    and "\<And>w1. goes_offline P now e w1"
  shows "entry_key e \<in> fired_keys (tick_verdicts P now es s)"
  using assms by (induction es arbitrary: s) (auto simp: go_bind_Ret_iff goes_offline_Fired)

text \<open>
  C15. A tick outside the grace period always returns while the dispatch channel is open, and it
  marks offline every gateway whose timeout has elapsed, that is not paused and whose alert can be
  published, wherever it stands in the iteration order and whatever the other gateways do.
\<close>

theorem tick_marks_due:
  assumes "tracker_inv t" and "iteration_order order t" and "\<not> dispatchClosed t"
    and "\<not> in_grace P (t, w)" and "beats t k = Some e"
    and due: "\<And>w1. goes_offline P (tick_now P w) e w1"
  shows "\<exists>t' w'. Tick P order (t, w) = Ret (t', w')
    \<and> beats t' k = Some (e\<lparr>knownStatus := Offline\<rparr>)"
proof -
  obtain now w1 where n: "clock_Now P (snd (clock_Now P w)) = (now, w1)" by fastforce
  obtain t' w' where run: "Tick P order (t, w) = Ret (t', w')"
    using Tick_returns [OF assms(3)] by blast
  then have loop: "fold_result (tick_entry P now) (snapshot order t) (t, w1) = Ret (t', w')"
    using assms(4) n by (simp add: Tick_unfold)
  have "e \<in> set (snapshot order t)"
    using assms(5) set_snapshot [OF assms(2)] by (auto simp: ran_def)
  from fired_in_loop [OF loop this] due n
  have "entry_key e \<in> fired_keys (tick_verdicts P now (snapshot order t) (t, w1))"
    by (simp add: tick_now_def)
  then have "k \<in> fired_keys (Tick_verdicts P order (t, w))"
    using tracker_invD(2) [OF assms(1,5)] assms(4) n by (simp add: Tick_verdicts_def)
  with Tick_Ret [OF run] assms(5) have "beats t' k = Some (e\<lparr>knownStatus := Offline\<rparr>)"
    by (simp add: set_offline_def)
  with run show ?thesis by blast
qed

theorem tick_marks_due_witness:
  "\<exists>t' w'. Tick (demo_ports LifecycleOnline None 1) [demo_key] (demo_tracker, demo_world 1000000)
      = Ret (t', w') \<and> beats t' demo_key = Some (demo_entry\<lparr>knownStatus := Offline\<rparr>)"
  by (rule tick_marks_due [OF demo_ok])
     (simp_all add: demo_defs in_grace_def goes_offline_def tick_now_def lifecycle_defs of_ms_def
        millisecond_def)

text \<open>
  A gateway that in no world is to be declared offline (it is heard of in time, or paused, or
  its alert cannot be published, or it is offline already) comes out of the tick with its entry
  unchanged. A failed alert thus leaves the gateway online for the next tick to retry.
\<close>

theorem tick_spares:
  assumes "tracker_inv t" and "iteration_order order t" and "Tick P order (t, w) = Ret (t', w')"
    and "beats t k = Some e" and "\<And>w1. \<not> goes_offline P (tick_now P w) e w1"
  shows "beats t' k = Some e"
proof -
  have "k \<notin> fired_keys (Tick_verdicts P order (t, w))"
    using fired_was_online [OF assms(1,2), of k P w] assms(4,5)
    by (auto simp: goes_offline_Fired tick_now_def)
  with Tick_Ret [OF assms(3)] assms(4) show ?thesis by (simp add: set_offline_def)
qed

theorem tick_spares_witness:
  "beats demo_tracker demo_key = Some demo_entry"
proof (rule tick_spares [OF demo_ok])
  show "Tick (demo_ports LifecyclePaused None 1) [demo_key] (demo_tracker, demo_world 1000000)
    = Ret (demo_tracker, demo_world 1000000)"
    by (simp add: demo_defs tick_eval)
  show "\<not> goes_offline (demo_ports LifecyclePaused None 1)
      (tick_now (demo_ports LifecyclePaused None 1) (demo_world 1000000)) demo_entry w1" for w1
    by (simp add: demo_ports_def goes_offline_def)
qed (simp add: demo_defs)

text \<open>
  During the grace period after construction a tick reads the clock once and does nothing else:
  no lifecycle query, no alert, no status update, no change of the heartbeat map.
\<close>

theorem tick_grace_period:
  assumes "fst (clock_Now P w) < startTime t + sint (gracePeriod t)"
  shows "Tick P order (t, w) = Ret (t, snd (clock_Now P w))"
  using assms by (simp add: Tick_unfold in_grace_def)

theorem tick_grace_period_witness:
  "Tick (demo_ports LifecycleOnline None 1) [demo_key]
     (demo_tracker\<lparr>gracePeriod := of_ms 2\<rparr>, demo_world 1000000)
   = Ret (demo_tracker\<lparr>gracePeriod := of_ms 2\<rparr>, demo_world 1000000)"
  using tick_grace_period [of "demo_ports LifecycleOnline None 1" "demo_world 1000000"
      "demo_tracker\<lparr>gracePeriod := of_ms 2\<rparr>" "[demo_key]"]
  by (simp add: demo_defs of_ms_def millisecond_def)

text \<open>
  The lifecycle gate fails open: when the query of a timed-out gateway fails, the alert is
  published and the gateway marked offline exactly as if the query had answered that the gateway is
  online, in the world that the failed query left.
\<close>

theorem lifecycle_gate_fails_open:
  assumes "GetGatewayLifecycle P (he_tenantID e) (he_gatewayID e) w = ((state, Some err), w1)"
    and "GetGatewayLifecycle P' (he_tenantID e) (he_gatewayID e) w = ((LifecycleOnline, None), w1)"
    and "TimeoutFor P' = TimeoutFor P" and "Publish P' = Publish P"
  shows "tick_entry P now e (t, w) = tick_entry P' now e (t, w)"
  using assms by (simp add: tick_entry_def Let_def lifecycle_defs)

theorem lifecycle_gate_fails_open_witness:
  "tick_entry (demo_ports LifecyclePaused None 1
       \<lparr>GetGatewayLifecycle := \<lambda>_ _ w. ((LifecycleUnknown, Some (External ''timeout'')), w)\<rparr>)
     2000000 demo_entry (demo_tracker, demo_world 0)
   = tick_entry (demo_ports LifecycleOnline None 1) 2000000 demo_entry (demo_tracker, demo_world 0)"
  by (rule lifecycle_gate_fails_open) (simp_all add: demo_ports_def)

section \<open>Deadlines\<close>

text \<open>
  The deadline of an entry is its last heartbeat plus the timeout in milliseconds, for every
  timeout of up to 9223372036854 ms (292 years) in either direction.
\<close>

theorem deadline_exact:
  assumes "- max_ms \<le> sint timeoutMs" and "sint timeoutMs \<le> max_ms"
  shows "deadline e timeoutMs = lastSeen e + sint timeoutMs * 1000000"
  using of_ms_exact [OF assms] by (simp add: deadline_def time_add_def)

theorem deadline_exact_witness:
  "deadline demo_entry 60000 = lastSeen demo_entry + sint (60000 :: i64) * 1000000"
  by (rule deadline_exact) (simp_all add: max_ms_def)

text \<open>
  The multiplication that converts a timeout wraps: with the next larger timeout the deadline
  lies before the last heartbeat, so a tick at the very moment of a heartbeat finds the gateway
  overdue although its configured timeout is 292 years.
\<close>

theorem huge_timeout_is_overdue:
  "deadline e (9223372036855 :: i64) = lastSeen e - 9223372036854551616"
  by (simp add: deadline_def time_add_def of_ms_def millisecond_def)

section \<open>Telemetry\<close>

definition online_job :: "string \<Rightarrow> time \<Rightarrow> status_update_job" where
  "online_job gatewayID now =
     \<lparr>job_update = \<lparr>upd_GatewayID = gatewayID, upd_Status = Online, upd_LastSeenAt = now\<rparr>\<rparr>"

definition can_accept :: "tracker \<Rightarrow> bool" where
  "can_accept t \<longleftrightarrow> worker t = Parked \<or> length (dispatchCh t) < dispatchCap t"

lemma dispatch_accounts:
  assumes "tracker_inv t" and "dispatchStatusUpdate u (t, w) = Ret (t', w')"
  shows "(pending_jobs t', StatusUpdateDropped (mtr w')) =
     (if can_accept t then (pending_jobs t @ [\<lparr>job_update = u\<rparr>], StatusUpdateDropped (mtr w))
      else (pending_jobs t, Suc (StatusUpdateDropped (mtr w))))"
  using assms(2)
proof (cases rule: dispatch_cases)
  case sent
  with try_send_pending [OF assms(1) sent(1)] show ?thesis
    by (auto simp: try_send_Ret can_accept_def split: if_splits)
next
  case dropped
  then show ?thesis
    by (auto simp: try_send_Ret can_accept_def IncStatusUpdateDropped_def split: if_splits)
qed

lemma pending_jobs_beats [simp]: "pending_jobs (t\<lparr>beats := m\<rparr>) = pending_jobs t"
  "can_accept (t\<lparr>beats := m\<rparr>) = can_accept t"
  by (simp_all add: pending_jobs_def can_accept_def)

text \<open>
  While the dispatch channel is open, \<open>HandleTelemetry\<close> returns no error, and afterwards the
  gateway is tracked as online, last seen at the clock reading; every other entry is as before.
\<close>

theorem telemetry_marks_online:
  assumes "\<not> dispatchClosed t"
  shows "\<exists>t' w'. HandleTelemetry P tenantID env (t, w) = Ret (None, t', w')
    \<and> beats t' = (beats t)(GatewayKey tenantID (env_GatewayID env) \<mapsto>
        (case beats t (GatewayKey tenantID (env_GatewayID env)) of
           None \<Rightarrow> \<lparr>he_tenantID = tenantID, he_gatewayID = env_GatewayID env,
                     lastSeen = fst (clock_Now P w), knownStatus = Online\<rparr>
         | Some e \<Rightarrow> e\<lparr>lastSeen := fst (clock_Now P w), knownStatus := Online\<rparr>))"
proof -
  obtain t' w' where run: "telemetry_locked (fst (clock_Now P w)) tenantID (env_GatewayID env)
      (t, snd (clock_Now P w)) = Ret (t', w')"
    using telemetry_locked_returns [OF assms] by blast
  with telemetry_locked_beats [OF run] show ?thesis
    by (auto simp: HandleTelemetry_Ret intro!: exI [of _ t'] exI [of _ w'])
qed

theorem telemetry_marks_online_witness:
  "\<exists>t' w'. HandleTelemetry (demo_ports LifecycleOnline None 1) ''t''
      demo_env (demo_tracker, demo_world 5) = Ret (None, t', w')
    \<and> beats t' = [demo_key \<mapsto> demo_entry\<lparr>lastSeen := 5\<rparr>]"
proof -
  have open_ch: "\<not> dispatchClosed demo_tracker" by (simp add: demo_defs)
  show ?thesis
    using telemetry_marks_online [OF open_ch, of "demo_ports LifecycleOnline None 1" "''t''" demo_env "demo_world 5"]
    by (simp add: demo_defs)
qed

lemma telemetry_accounts:
  assumes "tracker_inv t" and run: "telemetry_locked now tenantID gatewayID (t, w) = Ret (t', w')"
  shows "(pending_jobs t', StatusUpdateDropped (mtr w')) =
    (if fleet_of t (GatewayKey tenantID gatewayID) = Some Online
     then (pending_jobs t, StatusUpdateDropped (mtr w))
     else if can_accept t
     then (pending_jobs t @ [online_job gatewayID now], StatusUpdateDropped (mtr w))
     else (pending_jobs t, Suc (StatusUpdateDropped (mtr w))))"
proof -
  let ?k = "GatewayKey tenantID gatewayID"
  have inv: "tracker_inv (t\<lparr>beats := (beats t)(?k \<mapsto> e)\<rparr>)" if "entry_key e = ?k" for e
    using tracker_inv_upd [OF assms(1) that] .
  note acc = dispatch_accounts [OF inv, where w' = w' and t' = t']
  show ?thesis
  proof (cases "beats t ?k")
    case None
    with run show ?thesis
      by (auto simp: telemetry_locked_def Let_def fleet_of_def online_job_def entry_key_def
          SetHeartbeatMapSize_def dest!: acc [rotated])
  next
    case (Some e)
    then have k: "entry_key e = ?k" by (rule tracker_invD(2) [OF assms(1)])
    then have "entry_key (e\<lparr>lastSeen := now, knownStatus := Online\<rparr>) = ?k"
      by (simp add: entry_key_def)
    from acc [OF this] run Some show ?thesis
      by (cases "knownStatus e")
         (auto simp: telemetry_locked_def Let_def fleet_of_def online_job_def)
  qed
qed

text \<open>
  A status update is offered exactly when the gateway was not online before (first seen, or
  recovering), never a second time; when the channel has no room it is dropped and counted, and the
  call does not block.
\<close>

theorem telemetry_dispatches_transition:
  assumes "tracker_inv t" and "HandleTelemetry P tenantID env (t, w) = Ret (err, t', w')"
  shows "(pending_jobs t', StatusUpdateDropped (mtr w')) =
    (if fleet_of t (GatewayKey tenantID (env_GatewayID env)) = Some Online
     then (pending_jobs t, StatusUpdateDropped (mtr (snd (clock_Now P w))))
     else if can_accept t
     then (pending_jobs t @ [online_job (env_GatewayID env) (fst (clock_Now P w))],
           StatusUpdateDropped (mtr (snd (clock_Now P w))))
     else (pending_jobs t, Suc (StatusUpdateDropped (mtr (snd (clock_Now P w))))))"
  using assms(2) by (intro telemetry_accounts [OF assms(1)]) (simp add: HandleTelemetry_Ret)

theorem telemetry_dispatches_transition_witness:
  "(pending_jobs demo_tracker, StatusUpdateDropped (mtr (demo_world 5))) =
   ([] :: status_update_job list, 0 :: nat)"
proof -
  have run: "HandleTelemetry (demo_ports LifecycleOnline None 1) ''t'' demo_env (demo_tracker, demo_world 5)
      = Ret (None, demo_tracker\<lparr>beats := [demo_key \<mapsto> demo_entry\<lparr>lastSeen := 5\<rparr>]\<rparr>, demo_world 5)"
    by (simp add: demo_defs HandleTelemetry_def telemetry_locked_def)
  show ?thesis
    using telemetry_dispatches_transition [OF demo_ok(1) run]
    by (simp add: demo_defs fleet_of_def pending_jobs_def zero_metrics_def)
qed

section \<open>Decommissioning\<close>

text \<open>
  A decommissioned gateway is forgotten, the others keep their entries, and the gauge reports
  the number of gateways left; its next telemetry registers it afresh, whatever its status was.
\<close>

theorem decommission_forgets:
  assumes "HandleDecommission tenantID gatewayID (t, w) = (t', w')" and "\<not> dispatchClosed t"
    and "env_GatewayID env = gatewayID"
  shows "beats t' = (beats t)(GatewayKey tenantID gatewayID := None)
    \<and> HeartbeatMapSize (mtr w') = int (tracked t')
    \<and> (\<exists>t'' w''. HandleTelemetry P tenantID env (t', w') = Ret (None, t'', w'')
         \<and> beats t'' (GatewayKey tenantID gatewayID) = Some
              \<lparr>he_tenantID = tenantID, he_gatewayID = gatewayID,
               lastSeen = fst (clock_Now P w'), knownStatus = Online\<rparr>)"
proof -
  from assms(1) have b: "beats t' = (beats t)(GatewayKey tenantID gatewayID := None)"
    and g: "HeartbeatMapSize (mtr w') = int (tracked t')" and c: "\<not> dispatchClosed t'"
    using assms(2) by (auto simp: HandleDecommission_def Let_def SetHeartbeatMapSize_def)
  obtain t'' w'' where "HandleTelemetry P tenantID env (t', w') = Ret (None, t'', w'')"
    and "beats t'' = (beats t')(GatewayKey tenantID (env_GatewayID env) \<mapsto>
        (case beats t' (GatewayKey tenantID (env_GatewayID env)) of
           None \<Rightarrow> \<lparr>he_tenantID = tenantID, he_gatewayID = env_GatewayID env,
                     lastSeen = fst (clock_Now P w'), knownStatus = Online\<rparr>
         | Some e \<Rightarrow> e\<lparr>lastSeen := fst (clock_Now P w'), knownStatus := Online\<rparr>))"
    using telemetry_locked_beats telemetry_locked_returns [OF c] HandleTelemetry_Ret by metis
  with b g assms(3) show ?thesis by auto
qed

theorem decommission_forgets_witness:
  "beats (fst (HandleDecommission ''t'' ''g'' (demo_tracker, demo_world 5))) = Map.empty"
  using decommission_forgets [of "''t''" "''g''" demo_tracker "demo_world 5"
      "fst (HandleDecommission ''t'' ''g'' (demo_tracker, demo_world 5))"
      "snd (HandleDecommission ''t'' ''g'' (demo_tracker, demo_world 5))"
      demo_env "demo_ports LifecycleOnline None 1"]
  by (simp add: demo_defs)

section \<open>Shutdown\<close>

text \<open>
  What the world is after the worker has performed a list of jobs in order: for each, the gauge set
  to the number of jobs behind it and one \<open>UpdateStatus\<close> call.
\<close>

fun deliver_all :: "'x driven_ports \<Rightarrow> status_update_job list \<Rightarrow> 'x world \<Rightarrow> 'x world" where
  "deliver_all P [] w = w"
| "deliver_all P (j # js) w =
     deliver_all P js (snd (UpdateStatus P (job_update j)
       (with_metrics (SetDispatchQueueLength (int (length js))) w)))"

lemma worker_perform_eq:
  "worker_perform P j (t, w) = (t\<lparr>worker := Ready\<rparr>, snd (UpdateStatus P (job_update j)
     (with_metrics (SetDispatchQueueLength (int (length (dispatchCh t)))) w)))"
  by (simp add: worker_perform_def Let_def split: prod.splits)

lemma dispatchWorker_drains:
  assumes "worker t \<noteq> Parked" and "worker t = Finished \<Longrightarrow> dispatchCh t = [] \<and> dispatchClosed t"
  shows "dispatchWorker P (t, w) =
    (t\<lparr>dispatchCh := [], worker := (if dispatchClosed t then Finished else Parked)\<rparr>,
     deliver_all P (pending_jobs t) w)"
  using assms
proof (induction P "(t, w)" arbitrary: t w rule: dispatchWorker.induct)
  case (1 P t w)
  show ?case
  proof (cases "worker t")
    case Ready
    show ?thesis
    proof (cases "dispatchCh t")
      case Nil
      then show ?thesis
        by (simp add: dispatchWorker.simps Ready worker_receive_def pending_jobs_def)
    next
      case (Cons j js)
      with 1(1) [OF Ready] show ?thesis
        by (simp add: dispatchWorker.simps [of P t] Ready worker_receive_def pending_jobs_def)
    qed
  next
    case (Got j)
    with 1(2) [OF Got worker_perform_eq] show ?thesis
      by (simp add: dispatchWorker.simps [of P t] worker_perform_eq pending_jobs_def)
  qed (use 1(3,4) in \<open>simp_all add: dispatchWorker.simps pending_jobs_def\<close>)
qed

text \<open>
  C18. The first \<open>Close\<close> terminates, delivers every accepted status update that was still pending,
  each once and oldest first, and leaves the worker finished and the channel empty; a further
  \<open>Close\<close> changes nothing.
\<close>

theorem close_delivers_pending:
  assumes "tracker_inv t" and "\<not> dispatchClosed t"
  shows "Close P (t, w) =
      (t\<lparr>dispatchCh := [], dispatchClosed := True, worker := Finished\<rparr>,
       deliver_all P (pending_jobs t) w)
    \<and> Close P (Close P (t, w)) = Close P (t, w)"
proof -
  have p: "pending_jobs (close_channel t) = pending_jobs t"
    by (simp add: close_channel_def pending_jobs_def)
  have f: "worker t \<noteq> Finished" using tracker_invD(5) [OF assms(1)] assms(2) by blast
  have "dispatchWorker P (close_channel t, w) =
     (close_channel t\<lparr>dispatchCh := [], worker := Finished\<rparr>, deliver_all P (pending_jobs t) w)"
    by (subst dispatchWorker_drains) (use f p in \<open>auto simp: close_channel_def split: if_splits\<close>)
  moreover have "close_channel t\<lparr>dispatchCh := [], worker := Finished\<rparr>
      = t\<lparr>dispatchCh := [], dispatchClosed := True, worker := Finished\<rparr>"
    by (simp add: close_channel_def)
  ultimately show ?thesis using assms(2) by (simp add: Close_def)
qed

theorem close_delivers_pending_witness:
  "Close (demo_ports LifecycleOnline None 1) (demo_tracker\<lparr>dispatchCh := [online_job ''g'' 0]\<rparr>, demo_world 5)
   = (demo_tracker\<lparr>dispatchClosed := True, worker := Finished\<rparr>,
      with_metrics (SetDispatchQueueLength 0) (demo_world 5))"
proof -
  have "tracker_inv (demo_tracker\<lparr>dispatchCh := [online_job ''g'' 0]\<rparr>)"
    and "\<not> dispatchClosed (demo_tracker\<lparr>dispatchCh := [online_job ''g'' 0]\<rparr>)"
    by (simp_all add: demo_defs tracker_inv_def entry_key_def)
  from close_delivers_pending [OF this, of "demo_ports LifecycleOnline None 1" "demo_world 5"]
  show ?thesis by (simp add: demo_defs pending_jobs_def)
qed

text \<open>
  After \<open>Close\<close>, telemetry of a gateway that is not known as online panics with a send on a
  closed channel, although the dispatch was written never to block or fail.
\<close>

theorem telemetry_after_close_panics:
  fixes P :: "'x driven_ports"
  assumes "dispatchClosed t" and "fleet_of t (GatewayKey tenantID (env_GatewayID env)) \<noteq> Some Online"
  shows "HandleTelemetry P tenantID env (t, w) = Panic ''send on closed channel''"
proof -
  have "telemetry_locked now tenantID (env_GatewayID env) (t, w1) = Panic ''send on closed channel''"
    for now and w1 :: "'x world"
    using assms
    by (cases "beats t (GatewayKey tenantID (env_GatewayID env))";
        cases "knownStatus (the (beats t (GatewayKey tenantID (env_GatewayID env))))")
       (auto simp: telemetry_locked_def Let_def fleet_of_def dispatch_closed)
  then show ?thesis by (simp add: HandleTelemetry_def split: prod.splits)
qed

theorem telemetry_after_close_panics_witness:
  "HandleTelemetry (demo_ports LifecycleOnline None 1) ''new tenant'' demo_env
     (Close (demo_ports LifecycleOnline None 1) (demo_tracker, demo_world 5))
   = Panic ''send on closed channel''"
proof -
  have c: "Close (demo_ports LifecycleOnline None 1) (demo_tracker, demo_world 5)
      = (demo_tracker\<lparr>dispatchClosed := True, worker := Finished\<rparr>, demo_world 5)"
    by (simp add: Close_def close_channel_def dispatchWorker_drains demo_defs pending_jobs_def)
  show ?thesis unfolding c
    by (rule telemetry_after_close_panics) (simp_all add: demo_defs fleet_of_def)
qed

section \<open>Runs\<close>

lemma new_tracker_inv:
  "NewHeartbeatTracker P n grace w = Ret (t, w') \<Longrightarrow> tracker_inv t \<and> fleet_of t = Map.empty"
  by (auto simp: NewHeartbeatTracker_def Let_def tracker_inv_def fleet_of_def
      split: prod.splits if_splits)

text \<open>
  Every run of calls on a new tracker keeps it well formed: each entry lies under its own key,
  the channel never holds more than its capacity, and a blocked worker means an empty channel.
\<close>

theorem tracker_run_invariant:
  assumes "NewHeartbeatTracker P n grace w = Ret s0" and "exec_calls P s0 cs s"
  shows "tracker_inv (fst s)"
  using assms new_tracker_inv [of P n grace w "fst s0" "snd s0"] exec_calls_refines [OF assms(2)]
  by simp

theorem tracker_run_invariant_witness:
  "tracker_inv (fst (HandleDecommission ''t'' ''g''
     (\<lparr>startTime = 3, gracePeriod = 0, beats = Map.empty, dispatchCap = 2, dispatchCh = [],
       dispatchClosed = False, worker = Ready\<rparr>, demo_world 3)))"
  by (rule tracker_run_invariant [of "demo_ports LifecycleOnline None 1" 2 0 "demo_world 3"
        "(\<lparr>startTime = 3, gracePeriod = 0, beats = Map.empty, dispatchCap = 2, dispatchCh = [],
           dispatchClosed = False, worker = Ready\<rparr>, demo_world 3)"
        "[Call_decommission ''t'' ''g'']"])
     (auto simp: NewHeartbeatTracker_def demo_defs intro!: exec_calls.intros)

text \<open>
  C1. The detailed tracker refines the abstract fleet: after any run of calls on a new tracker, the
  status of a gateway is what the last call that concerns it says. It is online if that was
  telemetry, offline if that was a tick that fired for it, and untracked if that was its
  decommissioning or if there was none.
\<close>

theorem tracker_refines_fleet:
  assumes "NewHeartbeatTracker P n grace w = Ret s0" and "exec_calls P s0 cs s"
  shows "fleet_of (fst s) k = (case last_event k (events_of P cs s0) of
      Some (Heartbeat _) \<Rightarrow> Some Online
    | Some (Timeouts _) \<Rightarrow> Some Offline
    | _ \<Rightarrow> None)"
proof -
  from assms(1) have "tracker_inv (fst s0)" and e: "fleet_of (fst s0) = Map.empty"
    using new_tracker_inv [of P n grace w "fst s0" "snd s0"] by simp_all
  with exec_calls_refines [OF assms(2)]
  have "fleet_run Map.empty (events_of P cs s0) (fleet_of (fst s))" by simp
  then show ?thesis by (rule fleet_run_status)
qed

theorem tracker_refines_fleet_witness:
  "fleet_of (fst (HandleDecommission ''t'' ''g''
     (\<lparr>startTime = 3, gracePeriod = 0, beats = Map.empty, dispatchCap = 2, dispatchCh = [],
       dispatchClosed = False, worker = Ready\<rparr>, demo_world 3))) demo_key = None"
proof -
  let ?s0 = "(\<lparr>startTime = 3, gracePeriod = 0, beats = Map.empty, dispatchCap = 2, dispatchCh = [],
       dispatchClosed = False, worker = Ready\<rparr>, demo_world 3)"
  have n: "NewHeartbeatTracker (demo_ports LifecycleOnline None 1) 2 0 (demo_world 3) = Ret ?s0"
    by (simp add: NewHeartbeatTracker_def demo_defs)
  have r: "exec_calls (demo_ports LifecycleOnline None 1) ?s0 [Call_decommission ''t'' ''g'']
      (HandleDecommission ''t'' ''g'' ?s0)"
    by (auto intro!: exec_calls.intros)
  show ?thesis
    using tracker_refines_fleet [OF n r, of demo_key] by (simp add: last_event_def demo_key_def)
qed

end
