(* ===== verification/Alert_Cache_Props.thy ===== *)
theory Alert_Cache_Props
  imports Alert_Cache_Lemmas
begin

text \<open>
  Properties of the alert configuration cache: it serves the last list that was fetched, the initial
  fetch backs off as configured, and a failed refresh costs an error count and nothing else.
\<close>

section \<open>The last answer wins\<close>

text \<open>
  An observer that records every answer of the fetcher, and what the cache owes it: the snapshot of
  the last list that arrived, and one error count for every answer that was an error.
\<close>

definition last_list :: "(go_error + alert_config list) list \<Rightarrow> alert_config list option" where
  "last_list as = (let bs = filter (\<lambda>a. \<not> isl a) as
     in if bs = [] then None else Some (projr (last bs)))"

lemma last_list_simps [simp]:
  "last_list [] = None"
  "last_list (as @ [Inl e]) = last_list as"
  "last_list (as @ [Inr cs]) = Some cs"
  by (simp_all add: last_list_def)

definition observed_source ::
    "('x \<Rightarrow> (go_error + alert_config list) list) \<Rightarrow> 'x config_fetcher
      \<Rightarrow> ('x \<Rightarrow> time \<times> 'x) \<Rightarrow> (duration \<Rightarrow> 'x \<Rightarrow> string option \<times> 'x) \<Rightarrow> bool" where
  "observed_source answers fetch now race \<longleftrightarrow>
     (\<forall>x. \<exists>r x'. fetch x = Ret (r, x') \<and> answers x' = answers x @ [r])
     \<and> (\<forall>x. answers (snd (now x)) = answers x) \<and> (\<forall>d x. answers (snd (race d x)) = answers x)"

definition serves_last ::
    "('x \<Rightarrow> (go_error + alert_config list) list) \<Rightarrow> 'x alert_config_cache \<Rightarrow> nat
      \<Rightarrow> 'x alert_config_cache \<Rightarrow> 'x world \<Rightarrow> bool" where
  "serves_last answers c0 errs c w \<longleftrightarrow> same_settings c0 c
     \<and> (case last_list (answers (ext w)) of
          None \<Rightarrow> snapshot_ptr c = empty_snapshot
        | Some cs \<Rightarrow> \<exists>t. snapshot_ptr c = build_snapshot cs t)
     \<and> AlertCacheRefreshErrors (mtr w) = errs + length (filter isl (answers (ext w)))"

lemma serves_last_refresh:
  assumes obs: "observed_source answers (cache_rrClient c0) (cache_now c0) race"
    and "serves_last answers c0 errs c w" and ref: "refresh c w = Ret (q, c', w')"
  shows "case q of
      None \<Rightarrow> serves_last answers c0 errs c' w'
    | Some e \<Rightarrow> serves_last answers c0 errs c' (with_metrics IncAlertCacheRefreshErrors w')"
proof -
  from assms(2) have ss: "same_settings c0 c" by (simp add: serves_last_def)
  have ans: "answers x' = answers x @ [r]" if "cache_rrClient c x = Ret (r, x')" for x r x'
    using obs that same_settingsD(1) [OF ss] unfolding observed_source_def
    by (metis go_result.inject(2) prod.inject)
  have nw: "answers x' = answers x" if "cache_now c x = (t, x')" for x t x'
    using obs that same_settingsD(8) [OF ss] unfolding observed_source_def by (metis snd_conv)
  from ref show ?thesis
  proof (cases rule: refresh_cases)
    case (failed err x1)
    from ans [OF this(1)] failed(2-) assms(2) show ?thesis
      by (simp add: serves_last_def metric_defs)
  next
    case (fetched configs x1 now x2)
    from ans [OF this(1)] nw [OF this(2)] fetched(3-) assms(2) show ?thesis
      by (auto simp: serves_last_def metric_defs intro: same_settings_trans)
  qed
qed

lemma serves_last_wait:
  assumes obs: "observed_source answers (cache_rrClient c0) (cache_now c0) race"
    and w: "cache_wait c0 = wait_or_done race"
    and I: "serves_last answers c0 errs c w" and o: "outside (cache_wait c d) w = (stop, w2)"
  shows "serves_last answers c0 errs c w2"
proof -
  from I have "cache_wait c = wait_or_done race" using same_settingsD(7) w by (metis serves_last_def)
  with outsideE [OF o] have "mtr w2 = mtr w" "wait_or_done race d (ext w) = (stop, ext w2)" by simp_all
  moreover obtain a x2 where r: "race d (ext w) = (a, x2)" by fastforce
  moreover have "answers x2 = answers (ext w)"
    using obs r unfolding observed_source_def by (metis snd_conv)
  ultimately show ?thesis using I by (auto simp: serves_last_def wait_or_done_def split: option.splits)
qed

lemma run_serves_last:
  assumes obs: "observed_source answers (cache_rrClient c) (cache_now c) race"
    and w: "cache_wait c = wait_or_done race"
    and "serves_last answers c errs c w" and run: "Run_cache n c w = Ret (c', w')"
  shows "serves_last answers c errs c' w'"
proof -
  let ?I = "serves_last answers c errs"
  from run obtain r c1 w1 where f: "fetchWithBackoff c w = Ret (r, c1, w1)"
    and t: "fold_result (\<lambda>_. refresh_tick) (replicate n ()) (c1, w1) = Ret (c', w')"
    by (auto simp: Run_cache_def go_bind_Ret_iff split: if_splits)
  note step = serves_last_refresh [OF obs]
  have "?I c1 w1"
    using _ _ assms(3) f [unfolded fetchWithBackoff_def]
  proof (rule fetch_loop_invariant)
    show "?I b v'" if "?I a v" "refresh a v = Ret (None, b, v')" for a v b v'
      using step [OF that] by simp
    show "?I b v2" if "?I a v" "refresh a v = Ret (Some e, b, v')"
        "outside (cache_wait b d) (with_metrics IncAlertCacheRefreshErrors v') = (stop, v2)"
      for a v e b v' d stop v2
      using serves_last_wait [OF obs w _ that(3)] step [OF that(1,2)] by simp
  qed
  then have start: "?I (fst (c1, w1)) (snd (c1, w1))" by simp
  have tick: "?I (fst s') (snd s')" if "?I (fst s) (snd s)" "refresh_tick s = Ret s'"
    for s s' :: "'a alert_config_cache \<times> 'a world"
    using _ _ that
  proof (rule refresh_tick_invariant)
    show "?I b v'" if "?I a v" "refresh a v = Ret (None, b, v')" for a v b v'
      using step [OF that] by simp
    show "?I b (with_metrics IncAlertCacheRefreshErrors v')"
      if "?I a v" "refresh a v = Ret (Some e, b, v')" for a v e b v'
      using step [OF that] by simp
  qed
  from fold_result_invariant [where I = "\<lambda>s. ?I (fst s) (snd s)", OF tick start t]
  show ?thesis by simp
qed

text \<open>
  C7. While the refresh interval is positive \<open>Run\<close> returns, and whatever the answers of the
  management API were on the way, a lookup afterwards gives what the last list that arrived says:
  the gateway's own timeout, else its tenant's, else the default; the default as long as no list
  arrived. Every answer that was an error is counted once. Tenant identifiers must not contain a
  slash.
\<close>

theorem cache_serves_last_answer:
  fixes race interval retries backoff0 backoff1
  defines "cache \<equiv> \<lambda>fetch now dflt.
    NewAlertConfigCache fetch now race dflt interval retries backoff0 backoff1"
  assumes "observed_source answers fetch now race" and "answers (ext w) = []"
    and "0 < sint interval"
  shows "\<exists>c' w'. Run_cache n (cache fetch now dflt) w = Ret (c', w')
    \<and> AlertCacheRefreshErrors (mtr w') = AlertCacheRefreshErrors (mtr w)
        + length (filter isl (answers (ext w')))
    \<and> (case last_list (answers (ext w')) of
         None \<Rightarrow> \<forall>t g. cache_TimeoutFor c' t g = dflt
       | Some configs \<Rightarrow> slash_free configs \<longrightarrow>
           (\<forall>t g. CHR ''/'' \<notin> set t \<longrightarrow> cache_TimeoutFor c' t g = configured configs dflt t g))"
proof -
  let ?c = "cache fetch now dflt"
  have src: "config_source fetch"
    using assms(2) unfolding observed_source_def by unfold_locales blast
  have c: "cache_rrClient ?c = fetch" "cache_now ?c = now" "cache_wait ?c = wait_or_done race"
    "refreshInterval ?c = interval" "defaultTimeoutMs ?c = dflt" "snapshot_ptr ?c = empty_snapshot"
    by (simp_all add: cache_def NewAlertConfigCache_def)
  from config_source.run_returns [OF src c(1)] assms(4) c(4) obtain c' w'
    where run: "Run_cache n ?c w = Ret (c', w')" by metis
  have "serves_last answers ?c (AlertCacheRefreshErrors (mtr w)) ?c w"
    using assms(3) c(6) by (simp add: serves_last_def)
  with run have "serves_last answers ?c (AlertCacheRefreshErrors (mtr w)) c' w'"
    using run_serves_last [OF _ c(3)] assms(2) c(1,2) by metis
  moreover from this have "defaultTimeoutMs c' = dflt"
    using same_settingsD(2) [of ?c c'] c(5) by (simp add: serves_last_def)
  ultimately show ?thesis using run
    by (auto simp: serves_last_def cache_TimeoutFor_def snapshot_timeout_configured split: option.splits)
qed

section \<open>The initial fetch\<close>

text \<open>An observer of the initial fetch: which fetches succeeded and how long it waited.\<close>

datatype fetch_event = Fetched bool | Slept duration

text \<open>The delay after the failed attempt number \<open>i\<close>, counted from 0.\<close>

definition delay_after :: "'x alert_config_cache \<Rightarrow> nat \<Rightarrow> duration" where
  "delay_after c i = (next_delay c ^^ i) (initialBackoff c)"

definition failures :: "'x alert_config_cache \<Rightarrow> nat \<Rightarrow> nat \<Rightarrow> fetch_event list" where
  "failures c i j = concat (map (\<lambda>k. [Fetched False, Slept (delay_after c k)]) [i..<j])"

lemma failures_step: "i < j \<Longrightarrow> failures c i j = Fetched False # Slept (delay_after c i) # failures c (Suc i) j"
  by (simp add: failures_def upt_conv_Cons)

lemma failures_none [simp]: "failures c i i = []"
  by (simp add: failures_def)

lemma fetch_loop_schedule:
  assumes fetch: "\<And>x. \<exists>r x'. cache_rrClient c x = Ret (r, x') \<and> log x' = log x @ [Fetched (\<not> isl r)]"
    and now: "\<And>x. log (snd (cache_now c x)) = log x"
    and wait: "\<And>d x. log (snd (cache_wait c d x)) = log x @ [Slept d]"
  shows "\<exists>r c' w' k. fetch_loop left (delay_after c i) le c w = Ret (r, c', w') \<and> k \<le> left
    \<and> AlertCacheRefreshErrors (mtr w') = AlertCacheRefreshErrors (mtr w) + k
    \<and> (if r = None
       then k < left \<and> log (ext w') = log (ext w) @ failures c i (i + k) @ [Fetched True]
       else log (ext w') = log (ext w) @ failures c i (i + k) \<and> c' = c)"
proof (induction left arbitrary: i le w)
  case 0
  show ?case by (simp add: exI [of _ 0])
next
  case (Suc left)
  obtain r0 x1 where f: "cache_rrClient c (ext w) = Ret (r0, x1)" "log x1 = log (ext w) @ [Fetched (\<not> isl r0)]"
    using fetch by blast
  show ?case
  proof (cases r0)
    case (Inr configs)
    obtain t x2 where n: "cache_now c x1 = (t, x2)" by fastforce
    with now [of x1] have "log x2 = log x1" by simp
    with f n Inr show ?thesis by (simp add: refresh_def metric_defs exI [of _ 0])
  next
    case (Inl err)
    let ?e = "Wrapf ''fetch alert configs: %w'' [] err"
    let ?w1 = "with_metrics IncAlertCacheRefreshErrors (w\<lparr>ext := x1\<rparr>)"
    from f Inl have ref: "refresh c w = Ret (Some ?e, c, w\<lparr>ext := x1\<rparr>)" by (simp add: refresh_def)
    obtain stop w2 where o: "outside (cache_wait c (delay_after c i)) ?w1 = (stop, w2)" by fastforce
    from outsideE [OF o] wait [of "delay_after c i" x1] f(2) Inl
    have w2: "log (ext w2) = log (ext w) @ failures c i (Suc i)"
      "AlertCacheRefreshErrors (mtr w2) = Suc (AlertCacheRefreshErrors (mtr w))"
      by (simp_all add: failures_def metric_defs)
    show ?thesis
    proof (cases stop)
      case (Some e)
      with ref o w2 show ?thesis by (intro exI [of _ stop] exI [of _ c] exI [of _ w2] exI [of _ 1]) simp
    next
      case None
      have "next_delay c (delay_after c i) = delay_after c (Suc i)" by (simp add: delay_after_def)
      with None ref o have "fetch_loop (Suc left) (delay_after c i) le c w
          = fetch_loop left (delay_after c (Suc i)) (Some ?e) c w2" by simp
      moreover from Suc.IH [of "Suc i" "Some ?e" w2] obtain r c' w' k where ih:
        "fetch_loop left (delay_after c (Suc i)) (Some ?e) c w2 = Ret (r, c', w')" "k \<le> left"
        "AlertCacheRefreshErrors (mtr w') = AlertCacheRefreshErrors (mtr w2) + k"
        "if r = None
         then k < left \<and> log (ext w') = log (ext w2) @ failures c (Suc i) (Suc i + k) @ [Fetched True]
         else log (ext w') = log (ext w2) @ failures c (Suc i) (Suc i + k) \<and> c' = c" by blast
      moreover have "failures c i (Suc i) @ failures c (Suc i) (Suc i + k) = failures c i (i + Suc k)"
        by (simp add: failures_step [of i "Suc i"] failures_step [of i "Suc (i + k)"])
      ultimately show ?thesis using w2
        by (intro exI [of _ r] exI [of _ c'] exI [of _ w'] exI [of _ "Suc k"])
           (auto split: if_splits)
    qed
  qed
qed

text \<open>
  C38. The initial fetch makes at most the configured number of attempts. It stops at the first one
  that succeeds; after every failed one it counts an error and waits, and it gives up with an error
  when the attempts are used up or the wait is cut short, which leaves the cache as it was.
\<close>

theorem initial_fetch_schedule:
  assumes "\<And>x. \<exists>r x'. cache_rrClient c x = Ret (r, x') \<and> log x' = log x @ [Fetched (\<not> isl r)]"
    and "\<And>x. log (snd (cache_now c x)) = log x"
    and "\<And>d x. log (snd (cache_wait c d x)) = log x @ [Slept d]"
  shows "\<exists>r c' w' k. fetchWithBackoff c w = Ret (r, c', w')
    \<and> k \<le> nat (sint (cache_maxRetries c))
    \<and> AlertCacheRefreshErrors (mtr w') = AlertCacheRefreshErrors (mtr w) + k
    \<and> (if r = None
       then k < nat (sint (cache_maxRetries c))
         \<and> log (ext w') = log (ext w) @ failures c 0 k @ [Fetched True]
       else log (ext w') = log (ext w) @ failures c 0 k \<and> c' = c)"
proof -
  have "initialBackoff c = delay_after c 0" by (simp add: delay_after_def)
  then show ?thesis
    using fetch_loop_schedule [OF assms, of "nat (sint (cache_maxRetries c))" 0 None w]
    by (simp only: fetchWithBackoff_def add_0)
qed

lemma next_delay_exact:
  assumes "0 \<le> sint d" and "sint d * 2 < 2 ^ 63"
  shows "sint (next_delay c d) = min (sint (maxBackoff c)) (sint d * 2)"
proof -
  have "sint (d * 2) = sint d * 2" using sint_mult_exact [of d 2] assms by simp
  then show ?thesis by (simp add: next_delay_def Let_def)
qed

text \<open>
  The delays of the initial fetch: the first one is the configured one, and from then on each is
  twice the one before but never more than the configured maximum. Neither bound may reach
  \<open>2^62\<close> nanoseconds, about 146 years, above which the doubling overflows.
\<close>

theorem backoff_closed_form:
  assumes "0 \<le> sint (initialBackoff c)" and "sint (initialBackoff c) < 2 ^ 62"
    and "0 \<le> sint (maxBackoff c)" and "sint (maxBackoff c) < 2 ^ 62"
  shows "sint (delay_after c i) = (if i = 0 then sint (initialBackoff c)
     else min (sint (maxBackoff c)) (sint (initialBackoff c) * 2 ^ i))"
proof (induction i)
  case (Suc i)
  have "0 \<le> sint (delay_after c i)" "sint (delay_after c i) * 2 < 2 ^ 63"
    using Suc assms by (auto simp: min_def split: if_splits)
  from next_delay_exact [OF this]
  have "sint (delay_after c (Suc i)) = min (sint (maxBackoff c)) (sint (delay_after c i) * 2)"
    by (simp add: delay_after_def)
  with Suc assms show ?case by (auto simp: min_def split: if_splits)
qed (simp add: delay_after_def)

text \<open>
  On the real request-reply client the refresh loop ends with its context exactly if the
  refresh interval is positive; otherwise the ticker panics, after the initial fetch.
\<close>

theorem cache_run_needs_positive_interval:
  "returns (Run_cache n (NewAlertConfigCache (FetchAlertConfigs J (NewNATSRRClient nc race timeout))
       now race dflt interval retries backoff0 backoff1) w) \<longleftrightarrow> 0 < sint interval"
proof -
  let ?c = "NewAlertConfigCache (FetchAlertConfigs J (NewNATSRRClient nc race timeout))
       now race dflt interval retries backoff0 backoff1"
  have "cache_rrClient ?c = FetchAlertConfigs J (NewNATSRRClient nc race timeout)"
    "refreshInterval ?c = interval" by (simp_all add: NewAlertConfigCache_def)
  then show ?thesis
    using rr_source.run_returns [of ?c _ nc race timeout n w] rr_source.run_panics [of ?c _ nc race timeout n w]
    by (cases "0 < sint interval") fastforce+
qed

text \<open>
  Without the restriction on slashes the keys of two tenants collide: the timeout configured for
  the gateway \<open>b/g\<close> of the tenant \<open>a\<close> is also served for the gateway \<open>g\<close> of the tenant \<open>a/b\<close>.
\<close>

theorem slash_in_tenant_collides:
  "cache_TimeoutFor
     (c\<lparr>snapshot_ptr := build_snapshot
        [\<lparr>cfg_TenantID = a, cfg_GatewayID = Some (b @ ''/'' @ g), cfg_TimeoutMs = ms\<rparr>] t\<rparr>)
     (a @ ''/'' @ b) g = ms"
  by (simp add: cache_TimeoutFor_def snapshot_timeout_def build_snapshot_def store_config_def
      snapshot_key_def)

section \<open>Witnesses\<close>

text \<open>A management API that fails a number of times and then always sends one list.\<close>

definition demo_configs :: "alert_config list" where
  "demo_configs = [\<lparr>cfg_TenantID = ''t1'', cfg_GatewayID = None, cfg_TimeoutMs = 5000\<rparr>,
     \<lparr>cfg_TenantID = ''t1'', cfg_GatewayID = Some ''g1'', cfg_TimeoutMs = 7000\<rparr>,
     \<lparr>cfg_TenantID = ''t1'', cfg_GatewayID = Some ''g1'', cfg_TimeoutMs = 8000\<rparr>]"

definition demo_fetch ::
    "nat \<Rightarrow> (go_error + alert_config list) list config_fetcher" where
  "demo_fetch fails as =
     (let a = (if length as < fails then Inl (External ''timeout'') else Inr demo_configs)
      in Ret (a, as @ [a]))"

definition demo_cache :: "nat \<Rightarrow> (go_error + alert_config list) list alert_config_cache" where
  "demo_cache fails = NewAlertConfigCache (demo_fetch fails) (Pair 42) (\<lambda>d. Pair None) 60000
     (30 * second) 3 1000 30000"

definition demo_cache_world :: "(go_error + alert_config list) list world" where
  "demo_cache_world = \<lparr>mtr = zero_metrics, ext = []\<rparr>"

lemma demo_observed: "observed_source (\<lambda>x. x) (demo_fetch fails) (Pair 42) (\<lambda>d. Pair None)"
  by (simp add: observed_source_def demo_fetch_def Let_def)

lemma second_value: "sint (n * second) = sint n * 1000000000"
  if "- 1000000 \<le> sint n" "sint n \<le> 1000000"
  using sint_mult_exact [of n second] that by (simp add: second_def)

lemma demo_run: "Run_cache 1 (demo_cache 1) demo_cache_world =
    Ret ((demo_cache 1)\<lparr>snapshot_ptr := build_snapshot demo_configs 42\<rparr>,
      \<lparr>mtr = zero_metrics\<lparr>AlertCacheRefreshErrors := 1\<rparr>,
       ext = [Inl (External ''timeout''), Inr demo_configs, Inr demo_configs]\<rparr>)"
  by (simp add: Run_cache_def fetchWithBackoff_def demo_cache_def NewAlertConfigCache_def
      refresh_def demo_fetch_def demo_cache_world_def zero_metrics_def metric_defs Let_def
      outside_def wait_or_done_def refresh_tick_def with_metrics_def numeral_eq_Suc second_value
      unix_seconds_def)

lemma demo_configs_slash_free: "slash_free demo_configs"
  by (simp add: slash_free_def demo_configs_def)

lemma cache_serves_last_answer_witness:
  "\<exists>c' w'. Run_cache 1 (demo_cache 1) demo_cache_world = Ret (c', w')
    \<and> cache_TimeoutFor c' ''t1'' ''g1'' = 8000 \<and> cache_TimeoutFor c' ''t1'' ''g2'' = 5000
    \<and> cache_TimeoutFor c' ''t2'' ''g1'' = 60000"
proof -
  have l: "last_list [Inl (External ''timeout''), Inr demo_configs, Inr demo_configs] = Some demo_configs"
    by (simp add: last_list_def)
  have i: "0 < sint (30 * second)" by (simp add: second_value)
  from cache_serves_last_answer [OF demo_observed _ i, of demo_cache_world 1 1 60000 3 1000 30000] l
  show ?thesis
    using demo_configs_slash_free demo_run
    by (auto simp: demo_cache_def demo_cache_world_def configured_def demo_configs_def
        last_config_def)
qed

text \<open>The same management API seen by the observer of the initial fetch.\<close>

definition demo_fetch2 :: "nat \<Rightarrow> fetch_event list config_fetcher" where
  "demo_fetch2 fails ev =
     (let a = (if length ev < 2 * fails then Inl (External ''timeout'') else Inr demo_configs)
      in Ret (a, ev @ [Fetched (\<not> isl a)]))"

definition demo_cache2 :: "nat \<Rightarrow> fetch_event list alert_config_cache" where
  "demo_cache2 fails = NewAlertConfigCache (demo_fetch2 fails) (Pair 42)
     (\<lambda>d ev. (None, ev @ [Slept d])) 60000 (30 * second) 3 1000 30000"

lemma initial_fetch_schedule_witness:
  "\<exists>r c' w' k. fetchWithBackoff (demo_cache2 5) \<lparr>mtr = zero_metrics, ext = []\<rparr> = Ret (r, c', w')
    \<and> k \<le> 3 \<and> AlertCacheRefreshErrors (mtr w') = k \<and> (r \<noteq> None \<longrightarrow> c' = demo_cache2 5)"
proof -
  have f: "\<exists>r x'. cache_rrClient (demo_cache2 5) x = Ret (r, x') \<and> x' = x @ [Fetched (\<not> isl r)]" for x
    by (simp add: demo_cache2_def NewAlertConfigCache_def demo_fetch2_def Let_def)
  have n: "snd (cache_now (demo_cache2 5) x) = x" for x
    by (simp add: demo_cache2_def NewAlertConfigCache_def)
  have w: "snd (cache_wait (demo_cache2 5) d x) = x @ [Slept d]" for d x
    by (simp add: demo_cache2_def NewAlertConfigCache_def wait_or_done_def)
  have m: "cache_maxRetries (demo_cache2 5) = 3" by (simp add: demo_cache2_def NewAlertConfigCache_def)
  from initial_fetch_schedule [of "demo_cache2 5" "\<lambda>x. x", OF f n w, of "\<lparr>mtr = zero_metrics, ext = []\<rparr>"]
  show ?thesis by (fastforce simp: m zero_metrics_def split: if_splits)
qed

lemma backoff_closed_form_witness: "sint (delay_after (demo_cache 1) 4) = 16000000000
    \<and> sint (delay_after (demo_cache 1) 5) = 30000000000"
proof -
  have "sint (initialBackoff (demo_cache 1)) = 1000000000" "sint (maxBackoff (demo_cache 1)) = 30000000000"
    by (simp_all add: demo_cache_def NewAlertConfigCache_def of_ms_def millisecond_def)
  then show ?thesis using backoff_closed_form [of "demo_cache 1"] by simp
qed

end
