(* ===== verification/Telemetry_Consumer.thy ===== *)
theory Telemetry_Consumer
  imports Driven_Adapters
begin

text \<open>
  \<open>internal/adapter/driving/nats_telemetry_consumer.go\<close>: the JetStream consumer of telemetry. A
  callback decodes a message, hands it to the heartbeat handler and queues it; a flush loop collects
  queued messages into batches, writes them and answers every message. The handler, the writer, the
  answers to JetStream and \<open>time.Now\<close> are fields of the consumer.
\<close>

section \<open>Messages\<close>

text \<open>
  A delivery of a JetStream message. The reply subject identifies the delivery: an answer is a
  message to it.
\<close>

record nats_msg =
  msg_Subject :: string
  msg_Data :: string
  msg_Reply :: string

datatype answer = Ack | NakWithDelay duration | Term

text \<open>\<open>model.TelemetryRow{}\<close>, the zero value.\<close>

definition zero_row :: telemetry_row where
  "zero_row = \<lparr>row_Time = - 62135596800 * 1000000000, row_TenantID = [], row_GatewayID = [],
     row_SensorID = [], row_SensorType = [], row_EncryptedData = \<lparr>blob_Value = []\<rparr>,
     row_IV = \<lparr>blob_Value = []\<rparr>, row_AuthTag = \<lparr>blob_Value = []\<rparr>, row_KeyVersion = 0\<rparr>"

record pending_msg =
  pm_msg :: nats_msg
  pm_row :: telemetry_row
  pm_err :: "go_error option"

record 'x telemetry_consumer =
  tc_handler :: "'x telemetry_message_handler"
  tc_writer :: "telemetry_row list \<Rightarrow> 'x \<Rightarrow> go_error option \<times> 'x"
  tc_answer :: "nats_msg \<Rightarrow> answer \<Rightarrow> 'x \<Rightarrow> string option \<times> 'x"
  tc_now :: "'x \<Rightarrow> time \<times> 'x"
  durableName :: string
  batchSize :: i64
  flushEvery :: duration

definition newNATSTelemetryConsumer ::
    "'x telemetry_message_handler
      \<Rightarrow> (telemetry_row list \<Rightarrow> 'x \<Rightarrow> go_error option \<times> 'x)
      \<Rightarrow> (nats_msg \<Rightarrow> answer \<Rightarrow> 'x \<Rightarrow> string option \<times> 'x) \<Rightarrow> ('x \<Rightarrow> time \<times> 'x)
      \<Rightarrow> string \<Rightarrow> i64 \<Rightarrow> duration \<Rightarrow> 'x telemetry_consumer" where
  "newNATSTelemetryConsumer handler writer respond now durable batch every =
     \<lparr>tc_handler = handler, tc_writer = writer, tc_answer = respond, tc_now = now,
      durableName = durable, batchSize = batch, flushEvery = every\<rparr>"

definition subjectTelemetry :: string where
  "subjectTelemetry = ''telemetry.data.>''"

section \<open>Processing one message\<close>

definition extractTenantID :: "string \<Rightarrow> go_error + string" where
  "extractTenantID subject =
     (let parts = split_on (CHR ''.'') subject
      in if length parts \<noteq> 4 then Inl (Errorf ''unexpected telemetry subject: %q'' [FS subject])
         else Inr (parts ! 2))"

definition buildRow :: "string \<Rightarrow> telemetry_envelope \<Rightarrow> telemetry_row" where
  "buildRow tenantID env =
     \<lparr>row_Time = env_Timestamp env, row_TenantID = tenantID, row_GatewayID = env_GatewayID env,
      row_SensorID = env_SensorID env, row_SensorType = env_SensorType env,
      row_EncryptedData = env_EncryptedData env, row_IV = env_IV env,
      row_AuthTag = env_AuthTag env, row_KeyVersion = env_KeyVersion env\<rparr>"

definition processMessage ::
    "json_codec \<Rightarrow> 'x telemetry_consumer \<Rightarrow> nats_msg \<Rightarrow> 'x world
      \<Rightarrow> ((telemetry_row \<times> go_error option) \<times> 'x world) go_result" where
  "processMessage J c msg w =
     (case extractTenantID (msg_Subject msg) of
        Inl err \<Rightarrow> Ret ((zero_row, Some (Permanent err)), w)
      | Inr tenantID \<Rightarrow>
          (case dec_envelope J (msg_Data msg) of
             Inl e \<Rightarrow> Ret ((zero_row,
                 Some (Permanent (Wrapf ''unmarshal telemetry envelope: %w'' [] (External e)))), w)
           | Inr envelope \<Rightarrow>
               go_bind (tc_handler c tenantID envelope w) (\<lambda>(err, w1).
                 case err of
                   Some e \<Rightarrow> Ret ((zero_row, Some (Wrapf ''handle telemetry: %w'' [] e)), w1)
                 | None \<Rightarrow> Ret ((buildRow tenantID envelope, None), w1))))"

text \<open>The body of the callback that \<open>Run\<close> subscribes, up to the queueing.\<close>

definition on_message ::
    "json_codec \<Rightarrow> 'x telemetry_consumer \<Rightarrow> nats_msg \<Rightarrow> 'x world
      \<Rightarrow> (pending_msg \<times> 'x world) go_result" where
  "on_message J c msg w =
     go_bind (processMessage J c msg (with_metrics IncMessagesReceived w)) (\<lambda>((row, err), w1).
       Ret (\<lparr>pm_msg = msg, pm_row = row, pm_err = err\<rparr>, w1))"

section \<open>Answers and batches\<close>

text \<open>The error of an answer is ignored everywhere.\<close>

definition respond :: "'x telemetry_consumer \<Rightarrow> nats_msg \<Rightarrow> answer \<Rightarrow> 'x world \<Rightarrow> 'x world" where
  "respond c msg a w = snd (outside (tc_answer c msg a) w)"

text \<open>The branch of \<open>enqueuePending\<close> that is taken when the context is done.\<close>

definition abandon_answer :: "pending_msg \<Rightarrow> answer" where
  "abandon_answer pm =
     (case pm_err pm of
        Some e \<Rightarrow> if errors_as_permanent e then Term else NakWithDelay (5 * second)
      | None \<Rightarrow> NakWithDelay (5 * second))"

definition abandonPending :: "'x telemetry_consumer \<Rightarrow> pending_msg \<Rightarrow> 'x world \<Rightarrow> 'x world" where
  "abandonPending c pm w = respond c (pm_msg pm) (abandon_answer pm) w"

definition batch_rows :: "pending_msg list \<Rightarrow> telemetry_row list" where
  "batch_rows batch = map pm_row (filter (\<lambda>pm. pm_err pm = None) batch)"

definition settle ::
    "'x telemetry_consumer \<Rightarrow> go_error option \<Rightarrow> pending_msg \<Rightarrow> 'x world \<Rightarrow> 'x world" where
  "settle c writeErr pm w =
     (if pm_err pm \<noteq> None then respond c (pm_msg pm) Term (with_metrics IncMessageParsingErrors w)
      else if writeErr \<noteq> None
      then respond c (pm_msg pm) (NakWithDelay (5 * second)) (with_metrics IncWriteErrors w)
      else respond c (pm_msg pm) Ack (with_metrics IncMessagesWritten w))"

definition timed_write ::
    "'x telemetry_consumer \<Rightarrow> telemetry_row list \<Rightarrow> 'x world \<Rightarrow> go_error option \<times> 'x world" where
  "timed_write c rows w =
     (if rows = [] then (None, w)
      else
        let (start, w1) = outside (tc_now c) w;
            (writeErr, w2) = outside (tc_writer c rows) w1;
            (now, w3) = outside (tc_now c) w2
        in (writeErr, with_metrics (ObserveWriteLatency (time_sub now start)) w3))"

definition writeBatch :: "'x telemetry_consumer \<Rightarrow> pending_msg list \<Rightarrow> 'x world \<Rightarrow> 'x world" where
  "writeBatch c batch w =
     (let rows = batch_rows batch;
          (writeErr, w1) = timed_write c rows (with_metrics (ObserveBatchSize (length rows)) w)
      in fold (settle c writeErr) batch w1)"

section \<open>The flush loop\<close>

definition flush ::
    "'x telemetry_consumer \<Rightarrow> pending_msg list \<times> 'x world \<Rightarrow> pending_msg list \<times> 'x world" where
  "flush c s = (case s of (buf, w) \<Rightarrow> if buf = [] then (buf, w) else ([], writeBatch c buf w))"

definition flush_receive ::
    "'x telemetry_consumer \<Rightarrow> pending_msg \<Rightarrow> pending_msg list \<times> 'x world
      \<Rightarrow> pending_msg list \<times> 'x world" where
  "flush_receive c pm s =
     (case s of (buf, w) \<Rightarrow>
        let buf1 = buf @ [pm]
        in if sint (batchSize c) \<le> int (length buf1) then flush c (buf1, w) else (buf1, w))"

text \<open>
  The choices of the select: a message from the channel, a tick of the timer, or the end of the
  context. \<open>flushLoop\<close> runs over the choices made, up to the end of the context.
\<close>

datatype flush_choice = Received pending_msg | TickerFired | ContextDone

fun flush_choices ::
    "'x telemetry_consumer \<Rightarrow> flush_choice list \<Rightarrow> pending_msg list \<times> 'x world
      \<Rightarrow> pending_msg list \<times> 'x world" where
  "flush_choices c [] s = s"
| "flush_choices c (Received pm # cs) s = flush_choices c cs (flush_receive c pm s)"
| "flush_choices c (TickerFired # cs) s = flush_choices c cs (flush c s)"
| "flush_choices c (ContextDone # cs) s = flush c s"

definition flushLoop ::
    "'x telemetry_consumer \<Rightarrow> flush_choice list \<Rightarrow> 'x world \<Rightarrow> (pending_msg list \<times> 'x world) go_result" where
  "flushLoop c cs w =
     (if sint (flushEvery c) \<le> 0 then Panic ''non-positive interval for NewTicker''
      else if sint (batchSize c) < 0 then Panic ''makeslice: cap out of range''
      else Ret (flush_choices c cs ([], w)))"

text \<open>
  \<open>Run\<close>: the channel, the subscription, the loop, and the draining of the subscription at the end,
  whose error is ignored. The context's end stops the loop.
\<close>

definition Run_consumer ::
    "(string \<Rightarrow> string \<Rightarrow> 'x \<Rightarrow> string option \<times> 'x) \<Rightarrow> ('x \<Rightarrow> string option \<times> 'x)
      \<Rightarrow> 'x telemetry_consumer \<Rightarrow> flush_choice list \<Rightarrow> 'x world \<Rightarrow> (go_error option \<times> 'x world) go_result" where
  "Run_consumer subscribe drain c cs w =
     (if sint (batchSize c * 2) < 0 then Panic ''makechan: size out of range''
      else
        case outside (subscribe subjectTelemetry (durableName c)) w of
          (Some err, w1) \<Rightarrow> Ret (Some (Wrapf ''subscribe %s: %w'' [FS subjectTelemetry] (External err)), w1)
        | (None, w1) \<Rightarrow>
            go_bind (flushLoop c (cs @ [ContextDone]) w1)
              (\<lambda>(buf, w2). Ret (None, snd (outside drain w2))))"

section \<open>The consumer as a system of two goroutines\<close>

text \<open>
  The callback and the flush loop share the channel of pending messages. The state holds the message
  that the callback is about to queue, the channel, the buffer of the loop, whether the context is
  done and whether the loop still runs; \<open>cs_delivered\<close> is a ghost: the deliveries so far.
\<close>

record 'x consumer_sys =
  cs_inflight :: "pending_msg option"
  cs_chan :: "pending_msg list"
  cs_buf :: "pending_msg list"
  cs_done :: bool
  cs_running :: bool
  cs_world :: "'x world"
  cs_delivered :: "nats_msg list"

definition chan_cap :: "'x telemetry_consumer \<Rightarrow> nat" where
  "chan_cap c = nat (sint (batchSize c * 2))"

definition consumer_start :: "'x world \<Rightarrow> 'x consumer_sys" where
  "consumer_start w = \<lparr>cs_inflight = None, cs_chan = [], cs_buf = [], cs_done = False,
     cs_running = True, cs_world = w, cs_delivered = []\<rparr>"

definition with_loop :: "'x consumer_sys \<Rightarrow> pending_msg list \<times> 'x world \<Rightarrow> 'x consumer_sys" where
  "with_loop s r = s\<lparr>cs_buf := fst r, cs_world := snd r\<rparr>"

text \<open>
  The steps. A select with several ready cases takes any of them. Deliveries go on after the end of
  the context until the subscription is drained. \<open>env\<close> is what the other goroutines do to the world.
\<close>

inductive consumer_step ::
    "json_codec \<Rightarrow> 'x telemetry_consumer \<Rightarrow> ('x world \<Rightarrow> 'x world \<Rightarrow> bool)
      \<Rightarrow> 'x consumer_sys \<Rightarrow> 'x consumer_sys \<Rightarrow> bool"
  for J :: json_codec and c :: "'x telemetry_consumer" and env :: "'x world \<Rightarrow> 'x world \<Rightarrow> bool"
where
  deliver: "cs_inflight s = None \<Longrightarrow> on_message J c msg (cs_world s) = Ret (pm, w) \<Longrightarrow>
    consumer_step J c env s
      (s\<lparr>cs_inflight := Some pm, cs_world := w, cs_delivered := cs_delivered s @ [msg]\<rparr>)"
| enqueue: "cs_inflight s = Some pm \<Longrightarrow> length (cs_chan s) < chan_cap c \<Longrightarrow>
    consumer_step J c env s (s\<lparr>cs_inflight := None, cs_chan := cs_chan s @ [pm]\<rparr>)"
| hand_over: "cs_inflight s = Some pm \<Longrightarrow> cs_chan s = [] \<Longrightarrow> cs_running s \<Longrightarrow>
    consumer_step J c env s
      (with_loop (s\<lparr>cs_inflight := None\<rparr>) (flush_receive c pm (cs_buf s, cs_world s)))"
| abandon: "cs_inflight s = Some pm \<Longrightarrow> cs_done s \<Longrightarrow>
    consumer_step J c env s
      (s\<lparr>cs_inflight := None, cs_world := abandonPending c pm (cs_world s)\<rparr>)"
| receive: "cs_running s \<Longrightarrow> cs_chan s = pm # rest \<Longrightarrow>
    consumer_step J c env s
      (with_loop (s\<lparr>cs_chan := rest\<rparr>) (flush_receive c pm (cs_buf s, cs_world s)))"
| ticker: "cs_running s \<Longrightarrow>
    consumer_step J c env s (with_loop s (flush c (cs_buf s, cs_world s)))"
| cancel: "consumer_step J c env s (s\<lparr>cs_done := True\<rparr>)"
| stop: "cs_running s \<Longrightarrow> cs_done s \<Longrightarrow>
    consumer_step J c env s (with_loop (s\<lparr>cs_running := False\<rparr>) (flush c (cs_buf s, cs_world s)))"
| others: "env (cs_world s) w \<Longrightarrow> consumer_step J c env s (s\<lparr>cs_world := w\<rparr>)"

inductive consumer_reach ::
    "json_codec \<Rightarrow> 'x telemetry_consumer \<Rightarrow> ('x world \<Rightarrow> 'x world \<Rightarrow> bool) \<Rightarrow> 'x world
      \<Rightarrow> 'x consumer_sys \<Rightarrow> bool"
  for J c env w0
where
  start: "consumer_reach J c env w0 (consumer_start w0)"
| step: "consumer_reach J c env w0 s \<Longrightarrow> consumer_step J c env s s' \<Longrightarrow> consumer_reach J c env w0 s'"


end
