(* ===== verification/Driving_Adapters.thy ===== *)
theory Driving_Adapters
  imports Telemetry_Consumer
begin

text \<open>
  The other two driving adapters: the consumer of decommission events
  (\<open>internal/adapter/driving/nats_decommission_consumer.go\<close>) and the timer of the liveness check
  (\<open>internal/adapter/driving/heartbeat_tick_timer.go\<close>).
\<close>

section \<open>Decommission events\<close>

definition subjectDecommissioned :: string where
  "subjectDecommissioned = ''gateway.decommissioned.>''"

definition durableDecommissionListener :: string where
  "durableDecommissionListener = ''data-consumer-decommission-listener''"

record 'x decommission_consumer =
  dc_handler :: "'x decommission_event_handler"
  dc_answer :: "nats_msg \<Rightarrow> answer \<Rightarrow> 'x \<Rightarrow> string option \<times> 'x"

definition newNATSDecommissionConsumer ::
    "'x decommission_event_handler \<Rightarrow> (nats_msg \<Rightarrow> answer \<Rightarrow> 'x \<Rightarrow> string option \<times> 'x)
      \<Rightarrow> 'x decommission_consumer" where
  "newNATSDecommissionConsumer handler answering =
     \<lparr>dc_handler = handler, dc_answer = answering\<rparr>"

definition extractIDs :: "string \<Rightarrow> go_error + string \<times> string" where
  "extractIDs subject =
     (let parts = split_on (CHR ''.'') subject
      in if length parts \<noteq> 4 then Inl (Errorf ''unexpected subject format %q'' [FS subject])
         else Inr (parts ! 2, parts ! 3))"

definition handleMsg :: "'x decommission_consumer \<Rightarrow> nats_msg \<Rightarrow> 'x world \<Rightarrow> 'x world" where
  "handleMsg c msg w =
     (case extractIDs (msg_Subject msg) of
        Inl err \<Rightarrow> snd (outside (dc_answer c msg Term) w)
      | Inr (tenantID, gatewayID) \<Rightarrow>
          snd (outside (dc_answer c msg Ack) (dc_handler c tenantID gatewayID w)))"

text \<open>
  \<open>Run\<close> blocks until the context ends, while the subscription calls \<open>handleMsg\<close> for the deliveries
  \<open>msgs\<close> one after the other; then it drains the subscription and ignores the error of that.
\<close>

definition Run_decommission ::
    "(string \<Rightarrow> string \<Rightarrow> 'x \<Rightarrow> string option \<times> 'x) \<Rightarrow> ('x \<Rightarrow> string option \<times> 'x)
      \<Rightarrow> 'x decommission_consumer \<Rightarrow> nats_msg list \<Rightarrow> 'x world \<Rightarrow> go_error option \<times> 'x world" where
  "Run_decommission subscribe drain c msgs w =
     (case outside (subscribe subjectDecommissioned durableDecommissionListener) w of
        (Some err, w1) \<Rightarrow>
          (Some (Wrapf ''subscribe %s: %w'' [FS subjectDecommissioned] (External err)), w1)
      | (None, w1) \<Rightarrow> (None, snd (outside drain (fold (handleMsg c) msgs w1))))"

section \<open>The timer of the liveness check\<close>

text \<open>
  A check is a call of the ticker together with what Go leaves open in it, the iteration order of
  the map.
\<close>

record ('x, 'o) tick_timer =
  timer_ticker :: "('x, 'o) heartbeat_ticker"
  timer_now :: "'x \<Rightarrow> time \<times> 'x"
  timer_interval :: duration

definition NewHeartbeatTickTimer ::
    "('x, 'o) heartbeat_ticker \<Rightarrow> ('x \<Rightarrow> time \<times> 'x) \<Rightarrow> duration \<Rightarrow> ('x, 'o) tick_timer" where
  "NewHeartbeatTickTimer ticker now interval =
     \<lparr>timer_ticker = ticker, timer_now = now, timer_interval = interval\<rparr>"

definition timer_turn ::
    "('x, 'o) tick_timer \<Rightarrow> 'o \<Rightarrow> 'x world \<Rightarrow> 'x world go_result" where
  "timer_turn h order w =
     (let (start, w1) = outside (timer_now h) w
      in go_bind (timer_ticker h order w1) (\<lambda>w2.
           let (now, w3) = outside (timer_now h) w2
           in Ret (with_metrics (ObserveHeartbeatTickDuration (time_sub now start)) w3)))"

text \<open>\<open>Run\<close> over the ticks that its select takes before it takes the end of the context.\<close>

definition Run_timer ::
    "('x, 'o) tick_timer \<Rightarrow> 'o list \<Rightarrow> 'x world \<Rightarrow> 'x world go_result" where
  "Run_timer h orders w =
     (if sint (timer_interval h) \<le> 0 then Panic ''non-positive interval for NewTicker''
      else fold_result (timer_turn h) orders w)"

end
