(* ===== verification/Telemetry_Lemmas.thy ===== *)
theory Telemetry_Lemmas
  imports Telemetry_Consumer "HOL-Library.Multiset"
begin

text \<open>
  Facts about the telemetry consumer: what one batch does to the answers and to the rows written, and
  the invariant of the system of callback and flush loop.
\<close>

section \<open>What a message means\<close>

text \<open>The row a message asks for, if its subject and its payload can be decoded.\<close>

definition message_row :: "json_codec \<Rightarrow> nats_msg \<Rightarrow> telemetry_row option" where
  "message_row J msg =
     (case (extractTenantID (msg_Subject msg), dec_envelope J (msg_Data msg)) of
        (Inr tenantID, Inr env) \<Rightarrow> Some (buildRow tenantID env)
      | _ \<Rightarrow> None)"

definition pm_ok :: "json_codec \<Rightarrow> pending_msg \<Rightarrow> bool" where
  "pm_ok J pm \<longleftrightarrow>
     (case pm_err pm of
        None \<Rightarrow> message_row J (pm_msg pm) = Some (pm_row pm)
      | Some e \<Rightarrow> message_row J (pm_msg pm) = None \<and> errors_as_permanent e)"

text \<open>
  The contract of the handler: it reports no error. The errors that reach the flush loop are then
  those of decoding, which are permanent.
\<close>

locale telemetry_handler =
  fixes handler :: "string \<Rightarrow> telemetry_envelope \<Rightarrow> 'x world \<Rightarrow> (go_error option \<times> 'x world) go_result"
  assumes never_fails: "handler t env w = Ret (err, w') \<Longrightarrow> err = None"
begin

lemma processMessage_ok:
  assumes "tc_handler c = handler" and "processMessage J c msg w = Ret ((row, err), w')"
  shows "pm_ok J \<lparr>pm_msg = msg, pm_row = row, pm_err = err\<rparr>"
proof (cases "extractTenantID (msg_Subject msg)")
  case (Inr t)
  show ?thesis
  proof (cases "dec_envelope J (msg_Data msg)")
    case (Inr env)
    with assms \<open>extractTenantID _ = Inr t\<close> obtain e w1 where h: "handler t env w = Ret (e, w1)"
      by (auto simp: processMessage_def go_bind_Ret_iff)
    with never_fails have "e = None" by blast
    with assms h Inr \<open>extractTenantID _ = Inr t\<close> show ?thesis
      by (simp add: processMessage_def pm_ok_def message_row_def)
  qed (use assms Inr in \<open>auto simp: processMessage_def pm_ok_def message_row_def\<close>)
qed (use assms in \<open>auto simp: processMessage_def pm_ok_def message_row_def\<close>)

lemma on_message_ok:
  assumes "tc_handler c = handler" and "on_message J c msg w = Ret (pm, w')"
  shows "pm_msg pm = msg" and "pm_ok J pm"
  using assms(2) processMessage_ok [OF assms(1)]
  by (auto simp: on_message_def go_bind_Ret_iff split: prod.splits)

end

section \<open>One batch\<close>

definition settle_answer :: "go_error option \<Rightarrow> pending_msg \<Rightarrow> answer" where
  "settle_answer writeErr pm =
     (if pm_err pm \<noteq> None then Term else if writeErr \<noteq> None then NakWithDelay (5 * second) else Ack)"

definition settled :: "go_error option \<Rightarrow> pending_msg list \<Rightarrow> (nats_msg \<times> answer) list" where
  "settled writeErr batch = map (\<lambda>pm. (pm_msg pm, settle_answer writeErr pm)) batch"

text \<open>
  An observer of the outside: the answers given so far, and the rows of the batch writes that
  returned without an error. Only the answers and the writes of the consumer change them.
\<close>

definition observed_consumer ::
    "'x telemetry_consumer \<Rightarrow> ('x world \<Rightarrow> 'x world \<Rightarrow> bool) \<Rightarrow> ('x \<Rightarrow> (nats_msg \<times> answer) list)
      \<Rightarrow> ('x \<Rightarrow> telemetry_row list) \<Rightarrow> bool" where
  "observed_consumer c env acks stored \<longleftrightarrow>
     (\<forall>m a x. acks (snd (tc_answer c m a x)) = acks x @ [(m, a)]
        \<and> stored (snd (tc_answer c m a x)) = stored x)
     \<and> (\<forall>rows x. acks (snd (tc_writer c rows x)) = acks x
        \<and> stored (snd (tc_writer c rows x)) = stored x @ (if fst (tc_writer c rows x) = None then rows else []))
     \<and> (\<forall>x. acks (snd (tc_now c x)) = acks x \<and> stored (snd (tc_now c x)) = stored x)
     \<and> (\<forall>t e w r w'. tc_handler c t e w = Ret (r, w') \<longrightarrow>
          acks (ext w') = acks (ext w) \<and> stored (ext w') = stored (ext w))
     \<and> (\<forall>w w'. env w w' \<longrightarrow> acks (ext w') = acks (ext w) \<and> stored (ext w') = stored (ext w))"

lemma respond_observed:
  assumes "observed_consumer c env acks stored"
  shows "acks (ext (respond c m a w)) = acks (ext w) @ [(m, a)]"
    "stored (ext (respond c m a w)) = stored (ext w)"
  using assms by (simp_all add: respond_def observed_consumer_def)

lemma settle_observed:
  assumes "observed_consumer c env acks stored"
  shows "acks (ext (settle c e pm w)) = acks (ext w) @ [(pm_msg pm, settle_answer e pm)]"
    "stored (ext (settle c e pm w)) = stored (ext w)"
  by (simp_all add: settle_def settle_answer_def respond_observed [OF assms])

lemma settle_all_observed:
  assumes "observed_consumer c env acks stored"
  shows "acks (ext (fold (settle c e) batch w)) = acks (ext w) @ settled e batch
    \<and> stored (ext (fold (settle c e) batch w)) = stored (ext w)"
  by (induction batch arbitrary: w) (simp_all add: settle_observed [OF assms] settled_def)

lemma timed_write_observed:
  assumes "observed_consumer c env acks stored" and "timed_write c rows w = (e, w')"
  shows "acks (ext w') = acks (ext w)
    \<and> stored (ext w') = stored (ext w) @ (if e = None then rows else [])"
proof (cases "rows = []")
  case False
  obtain start w1 where 1: "outside (tc_now c) w = (start, w1)" by fastforce
  obtain e2 w2 where 2: "outside (tc_writer c rows) w1 = (e2, w2)" by fastforce
  obtain now w3 where 3: "outside (tc_now c) w2 = (now, w3)" by fastforce
  from assms(2) False 1 2 3 have "e = e2" "ext w' = ext w3" by (auto simp: timed_write_def)
  moreover from outsideE [OF 1] outsideE [OF 2] outsideE [OF 3]
  have "tc_now c (ext w) = (start, ext w1)" "tc_writer c rows (ext w1) = (e2, ext w2)"
    "tc_now c (ext w2) = (now, ext w3)" by simp_all
  ultimately show ?thesis using assms(1) unfolding observed_consumer_def by (metis fst_conv snd_conv)
qed (use assms in \<open>simp add: timed_write_def\<close>)

lemma writeBatch_observed:
  assumes "observed_consumer c env acks stored"
  shows "\<exists>e. acks (ext (writeBatch c batch w)) = acks (ext w) @ settled e batch
    \<and> stored (ext (writeBatch c batch w)) = stored (ext w) @ (if e = None then batch_rows batch else [])"
proof -
  let ?w = "with_metrics (ObserveBatchSize (length (batch_rows batch))) w"
  obtain e w1 where t: "timed_write c (batch_rows batch) ?w = (e, w1)" by fastforce
  from timed_write_observed [OF assms t] settle_all_observed [OF assms, of e batch w1] t
  show ?thesis by (auto simp: writeBatch_def intro!: exI [of _ e])
qed

text \<open>What flushing does to a buffer: a first part of it is settled, the rest stays.\<close>

definition drains ::
    "('x \<Rightarrow> (nats_msg \<times> answer) list) \<Rightarrow> ('x \<Rightarrow> telemetry_row list)
      \<Rightarrow> pending_msg list \<times> 'x world \<Rightarrow> pending_msg list \<times> 'x world \<Rightarrow> bool" where
  "drains acks stored s r \<longleftrightarrow>
     (\<exists>batch e. fst s = batch @ fst r
        \<and> acks (ext (snd r)) = acks (ext (snd s)) @ settled e batch
        \<and> stored (ext (snd r)) = stored (ext (snd s)) @ (if e = None then batch_rows batch else []))"

lemma drains_nothing: "drains acks stored (buf, w) (buf, w)"
  by (auto simp: drains_def settled_def batch_rows_def intro!: exI [of _ "[]"])

lemma flush_drains:
  assumes "observed_consumer c env acks stored"
  shows "drains acks stored (buf, w) (flush c (buf, w))" and "fst (flush c (buf, w)) = []"
  using writeBatch_observed [OF assms, of buf w] drains_nothing [of acks stored buf w]
  by (auto simp: flush_def drains_def)

lemma flush_receive_drains:
  assumes "observed_consumer c env acks stored"
  shows "drains acks stored (buf @ [pm], w) (flush_receive c pm (buf, w))"
  using flush_drains(1) [OF assms, of "buf @ [pm]" w] drains_nothing [of acks stored "buf @ [pm]" w]
  by (simp add: flush_receive_def Let_def)

lemma flush_receive_size:
  "length buf < nat (sint (batchSize c)) \<Longrightarrow>
     length (fst (flush_receive c pm (buf, w))) < nat (sint (batchSize c))"
  by (auto simp: flush_receive_def flush_def Let_def)

section \<open>The invariant of the system\<close>

definition unanswered :: "'x consumer_sys \<Rightarrow> pending_msg list" where
  "unanswered s = cs_buf s @ cs_chan s @ (case cs_inflight s of None \<Rightarrow> [] | Some pm \<Rightarrow> [pm])"

definition acked :: "(nats_msg \<times> answer) list \<Rightarrow> nats_msg list" where
  "acked as = map fst (filter (\<lambda>(m, a). a = Ack) as)"

text \<open>
  The accounts of a set of messages that wait and a world: every answer fits its message, and the
  rows written are those of the acknowledged messages, in the same order.
\<close>

definition books ::
    "json_codec \<Rightarrow> ('x \<Rightarrow> (nats_msg \<times> answer) list) \<Rightarrow> ('x \<Rightarrow> telemetry_row list) \<Rightarrow> 'x world \<Rightarrow> bool" where
  "books J acks stored w \<longleftrightarrow>
     map Some (stored (ext w)) = map (message_row J) (acked (acks (ext w)))
     \<and> (\<forall>m a. (m, a) \<in> set (acks (ext w)) \<longrightarrow> (a = Term \<longleftrightarrow> message_row J m = None))"

lemma settled_acked: "acked (settled e batch) =
    (if e = None then map pm_msg (filter (\<lambda>pm. pm_err pm = None) batch) else [])"
  by (induction batch) (auto simp: settled_def settle_answer_def acked_def)

lemma batch_rows_ok:
  assumes "\<forall>pm \<in> set batch. pm_ok J pm"
  shows "map Some (batch_rows batch) =
    map (message_row J) (map pm_msg (filter (\<lambda>pm. pm_err pm = None) batch))"
  using assms by (auto simp: batch_rows_def pm_ok_def)

lemma settled_terms:
  assumes "\<forall>pm \<in> set batch. pm_ok J pm" and "(m, a) \<in> set (settled e batch)"
  shows "a = Term \<longleftrightarrow> message_row J m = None"
  using assms by (auto simp: settled_def settle_answer_def pm_ok_def split: if_splits option.splits)

lemma drains_books:
  assumes "drains acks stored (buf, w) (buf', w')" and "\<forall>pm \<in> set buf. pm_ok J pm"
    and "books J acks stored w"
  shows "books J acks stored w'
    \<and> mset (map fst (acks (ext w'))) + mset (map pm_msg buf')
      = mset (map fst (acks (ext w))) + mset (map pm_msg buf)"
proof -
  from assms(1) obtain batch e where b: "buf = batch @ buf'"
    "acks (ext w') = acks (ext w) @ settled e batch"
    "stored (ext w') = stored (ext w) @ (if e = None then batch_rows batch else [])"
    by (auto simp: drains_def)
  from b(1) assms(2) have ok: "\<forall>pm \<in> set batch. pm_ok J pm" by simp
  have "acked (acks (ext w')) = acked (acks (ext w)) @ acked (settled e batch)"
    using b(2) by (simp add: acked_def)
  then have "books J acks stored w'"
    using assms(3) b batch_rows_ok [OF ok] settled_terms [OF ok]
    by (auto simp: books_def settled_acked)
  moreover have "map fst (settled e batch) = map pm_msg batch" by (simp add: settled_def)
  ultimately show ?thesis using b by simp
qed

definition consumer_inv ::
    "json_codec \<Rightarrow> 'x telemetry_consumer \<Rightarrow> ('x \<Rightarrow> (nats_msg \<times> answer) list)
      \<Rightarrow> ('x \<Rightarrow> telemetry_row list) \<Rightarrow> 'x consumer_sys \<Rightarrow> bool" where
  "consumer_inv J c acks stored s \<longleftrightarrow>
     (\<forall>pm \<in> set (unanswered s). pm_ok J pm)
     \<and> books J acks stored (cs_world s)
     \<and> mset (cs_delivered s) = mset (map fst (acks (ext (cs_world s)))) + mset (map pm_msg (unanswered s))
     \<and> length (cs_chan s) \<le> chan_cap c
     \<and> length (cs_buf s) < nat (sint (batchSize c))
     \<and> (\<not> cs_running s \<longrightarrow> cs_buf s = [])
     \<and> (cs_running s \<or> cs_done s)"

section \<open>The invariant is kept\<close>

lemma on_message_observed:
  assumes "observed_consumer c env acks stored" and "on_message J c msg w = Ret (pm, w')"
  shows "acks (ext w') = acks (ext w)" and "stored (ext w') = stored (ext w)"
proof -
  let ?w = "with_metrics IncMessagesReceived w"
  from assms(2) obtain r where r: "processMessage J c msg ?w = Ret (r, w')"
    by (auto simp: on_message_def go_bind_Ret_iff)
  have "w' = ?w \<or> (\<exists>t e q. tc_handler c t e ?w = Ret (q, w'))"
    using r by (fastforce simp: processMessage_def go_bind_Ret_iff split: sum.splits option.splits)
  then have "acks (ext w') = acks (ext w) \<and> stored (ext w') = stored (ext w)"
    using assms(1) unfolding observed_consumer_def by (metis with_metrics_simps(2))
  then show "acks (ext w') = acks (ext w)" "stored (ext w') = stored (ext w)" by simp_all
qed

lemma books_cong:
  "acks (ext w') = acks (ext w) \<Longrightarrow> stored (ext w') = stored (ext w) \<Longrightarrow>
     books J acks stored w' = books J acks stored w"
  by (simp add: books_def)

text \<open>A step of the loop: the part of the unanswered messages before \<open>rest\<close> is drained.\<close>

lemma loop_step_inv:
  assumes inv: "consumer_inv J c acks stored s"
    and d: "drains acks stored (buf, cs_world s) (buf', w')"
    and w: "unanswered s = buf @ rest" and w': "unanswered s' = buf' @ rest"
    and s': "cs_world s' = w'" "cs_delivered s' = cs_delivered s"
    and side: "length (cs_chan s') \<le> chan_cap c" "length (cs_buf s') < nat (sint (batchSize c))"
      "\<not> cs_running s' \<longrightarrow> cs_buf s' = []" "cs_running s' \<or> cs_done s'"
  shows "consumer_inv J c acks stored s'"
proof -
  from inv w have ok: "\<forall>pm \<in> set buf. pm_ok J pm" and bk: "books J acks stored (cs_world s)"
    and ms: "mset (cs_delivered s) = mset (map fst (acks (ext (cs_world s)))) + mset (map pm_msg (unanswered s))"
    by (simp_all add: consumer_inv_def)
  from d have "set buf' \<subseteq> set buf" by (auto simp: drains_def)
  with inv w have "\<forall>pm \<in> set (buf' @ rest). pm_ok J pm" by (auto simp: consumer_inv_def)
  moreover note drains_books [OF d ok bk]
  ultimately show ?thesis using ms side w w' s' by (simp add: consumer_inv_def)
qed

lemma abandon_inv:
  assumes obs: "observed_consumer c env acks stored" and inv: "consumer_inv J c acks stored s"
    and pm: "cs_inflight s = Some pm"
  shows "consumer_inv J c acks stored
    (s\<lparr>cs_inflight := None, cs_world := abandonPending c pm (cs_world s)\<rparr>)"
proof -
  let ?w = "abandonPending c pm (cs_world s)"
  have a: "acks (ext ?w) = acks (ext (cs_world s)) @ [(pm_msg pm, abandon_answer pm)]"
    "stored (ext ?w) = stored (ext (cs_world s))"
    by (simp_all add: abandonPending_def respond_observed [OF obs])
  from inv pm have "pm_ok J pm" by (simp add: consumer_inv_def unanswered_def)
  then have "abandon_answer pm \<noteq> Ack" "abandon_answer pm = Term \<longleftrightarrow> message_row J (pm_msg pm) = None"
    by (auto simp: abandon_answer_def pm_ok_def split: option.splits)
  with inv a have "books J acks stored ?w"
    by (auto simp: consumer_inv_def books_def acked_def)
  with inv pm a show ?thesis by (simp add: consumer_inv_def unanswered_def)
qed

lemma consumer_start_inv:
  assumes "acks (ext w) = []" and "stored (ext w) = []" and "0 < sint (batchSize c)"
  shows "consumer_inv J c acks stored (consumer_start w)"
  using assms by (simp add: consumer_inv_def consumer_start_def unanswered_def books_def acked_def)

context telemetry_handler
begin

lemma deliver_inv:
  assumes h: "tc_handler c = handler" and obs: "observed_consumer c env acks stored"
    and inv: "consumer_inv J c acks stored s" and none: "cs_inflight s = None"
    and m: "on_message J c msg (cs_world s) = Ret (pm, w)"
  shows "consumer_inv J c acks stored
    (s\<lparr>cs_inflight := Some pm, cs_world := w, cs_delivered := cs_delivered s @ [msg]\<rparr>)"
  using inv none on_message_ok [OF h m] on_message_observed [OF obs m]
    books_cong [of acks w "cs_world s" stored J]
  by (auto simp: consumer_inv_def unanswered_def)

lemma consumer_step_inv:
  assumes h: "tc_handler c = handler" and obs: "observed_consumer c env acks stored"
    and inv: "consumer_inv J c acks stored s" and st: "consumer_step J c env s s'"
  shows "consumer_inv J c acks stored s'"
  using st
proof cases
  case (deliver msg pm w)
  with deliver_inv [OF h obs inv] show ?thesis by simp
next
  case (enqueue pm)
  with inv show ?thesis by (simp add: consumer_inv_def unanswered_def)
next
  case (hand_over pm)
  let ?r = "flush_receive c pm (cs_buf s, cs_world s)"
  have "drains acks stored (cs_buf s @ [pm], cs_world s) (fst ?r, snd ?r)"
    using flush_receive_drains [OF obs] by simp
  with inv show ?thesis
    by (rule loop_step_inv [where rest = "[]"])
      (use inv hand_over flush_receive_size [of "cs_buf s" c pm "cs_world s"]
        in \<open>auto simp: consumer_inv_def unanswered_def with_loop_def\<close>)
next
  case (abandon pm)
  with abandon_inv [OF obs inv] show ?thesis by simp
next
  case (receive pm rest)
  let ?r = "flush_receive c pm (cs_buf s, cs_world s)"
  let ?rest = "rest @ (case cs_inflight s of None \<Rightarrow> [] | Some pm \<Rightarrow> [pm])"
  have "drains acks stored (cs_buf s @ [pm], cs_world s) (fst ?r, snd ?r)"
    using flush_receive_drains [OF obs] by simp
  with inv show ?thesis
    by (rule loop_step_inv [where rest = ?rest])
      (use inv receive flush_receive_size [of "cs_buf s" c pm "cs_world s"]
        in \<open>auto simp: consumer_inv_def unanswered_def with_loop_def\<close>)
next
  case ticker
  let ?r = "flush c (cs_buf s, cs_world s)"
  let ?rest = "cs_chan s @ (case cs_inflight s of None \<Rightarrow> [] | Some pm \<Rightarrow> [pm])"
  have "drains acks stored (cs_buf s, cs_world s) (fst ?r, snd ?r)"
    using flush_drains(1) [OF obs] by simp
  with inv show ?thesis
    by (rule loop_step_inv [where rest = ?rest])
      (use inv ticker flush_drains(2) [OF obs, of "cs_buf s" "cs_world s"]
        in \<open>auto simp: consumer_inv_def unanswered_def with_loop_def\<close>)
next
  case cancel
  with inv show ?thesis by (simp add: consumer_inv_def unanswered_def)
next
  case stop
  let ?r = "flush c (cs_buf s, cs_world s)"
  let ?rest = "cs_chan s @ (case cs_inflight s of None \<Rightarrow> [] | Some pm \<Rightarrow> [pm])"
  have "drains acks stored (cs_buf s, cs_world s) (fst ?r, snd ?r)"
    using flush_drains(1) [OF obs] by simp
  with inv show ?thesis
    by (rule loop_step_inv [where rest = ?rest])
      (use inv stop flush_drains(2) [OF obs, of "cs_buf s" "cs_world s"]
        in \<open>auto simp: consumer_inv_def unanswered_def with_loop_def\<close>)
next
  case (others w)
  from obs \<open>env (cs_world s) w\<close> have "acks (ext w) = acks (ext (cs_world s))"
    "stored (ext w) = stored (ext (cs_world s))" by (simp_all add: observed_consumer_def)
  with inv others books_cong [of acks w "cs_world s" stored J] show ?thesis
    by (simp add: consumer_inv_def unanswered_def)
qed

theorem consumer_reach_inv:
  assumes "tc_handler c = handler" and "observed_consumer c env acks stored"
    and "acks (ext w0) = []" and "stored (ext w0) = []" and "0 < sint (batchSize c)"
    and "consumer_reach J c env w0 s"
  shows "consumer_inv J c acks stored s"
  using assms(6)
  by induction (use assms consumer_start_inv consumer_step_inv in blast)+

end

end
