(* ===== verification/Tracker_Service.thy ===== *)
theory Tracker_Service
  imports Tracker_Lemmas Telemetry_Lemmas
begin

text \<open>
  The tracker as the service that the driving adapters call: its state is part of the world of the
  adapter, beside the outside world of the tracker's own ports.
\<close>

text \<open>From the world of a driving adapter to the tracker and its world, and back.\<close>

definition tracker_view :: "(tracker \<times> 'x) world \<Rightarrow> 'x tstate" where
  "tracker_view w = (fst (ext w), \<lparr>mtr = mtr w, ext = snd (ext w)\<rparr>)"

definition adapter_view :: "'x tstate \<Rightarrow> (tracker \<times> 'x) world" where
  "adapter_view s = \<lparr>mtr = mtr (snd s), ext = (fst s, ext (snd s))\<rparr>"

lemma views_inverse [simp]:
  "tracker_view (adapter_view s) = s" "adapter_view (tracker_view w) = w"
  by (cases s; cases "snd s"; simp add: tracker_view_def adapter_view_def)
     (simp add: tracker_view_def adapter_view_def)

lemma view_ext [simp]: "ext (adapter_view (t, w)) = (t, ext w)" "mtr (adapter_view (t, w)) = mtr w"
  by (simp_all add: adapter_view_def)

definition tracker_handler ::
    "'x driven_ports \<Rightarrow> string \<Rightarrow> telemetry_envelope \<Rightarrow> (tracker \<times> 'x) world
      \<Rightarrow> (go_error option \<times> (tracker \<times> 'x) world) go_result" where
  "tracker_handler P tenantID env w =
     go_bind (HandleTelemetry P tenantID env (tracker_view w)) (\<lambda>(err, s). Ret (err, adapter_view s))"

definition tracker_decommission ::
    "string \<Rightarrow> string \<Rightarrow> (tracker \<times> 'x) world \<Rightarrow> (tracker \<times> 'x) world" where
  "tracker_decommission tenantID gatewayID w =
     adapter_view (HandleDecommission tenantID gatewayID (tracker_view w))"

definition tracker_tick ::
    "'x driven_ports \<Rightarrow> gateway_key list \<Rightarrow> (tracker \<times> 'x) world \<Rightarrow> (tracker \<times> 'x) world go_result" where
  "tracker_tick P order w =
     go_bind (Tick P order (tracker_view w)) (\<lambda>s. Ret (adapter_view s))"

text \<open>The outside of the adapter's world is that of the tracker, beside the tracker itself.\<close>

definition on_outside :: "('y \<Rightarrow> 'a \<times> 'y) \<Rightarrow> tracker \<times> 'y \<Rightarrow> 'a \<times> (tracker \<times> 'y)" where
  "on_outside f x = (let (r, y) = f (snd x) in (r, (fst x, y)))"

definition service_answer ::
    "(nats_msg \<Rightarrow> answer \<Rightarrow> 'y \<Rightarrow> string option \<times> 'y)
      \<Rightarrow> nats_msg \<Rightarrow> answer \<Rightarrow> tracker \<times> 'y \<Rightarrow> string option \<times> (tracker \<times> 'y)" where
  "service_answer answer m a = on_outside (answer m a)"

lemma on_outside_simps [simp]:
  "fst (snd (on_outside f x)) = fst x" "snd (snd (on_outside f x)) = snd (f (snd x))"
  "fst (on_outside f x) = fst (f (snd x))"
  by (simp_all add: on_outside_def split: prod.splits)

text \<open>The tracker meets the contract of a telemetry handler: its error is always nil.\<close>

interpretation tracker_as_handler: telemetry_handler "tracker_handler P" for P
  by unfold_locales
     (auto simp: tracker_handler_def HandleTelemetry_def go_bind_Ret_iff Let_def split: prod.splits)

text \<open>Of the outside world, \<open>HandleTelemetry\<close> touches only the clock.\<close>

lemma dispatch_ext: "dispatchStatusUpdate u (t, w) = Ret (t', w') \<Longrightarrow> ext w' = ext w"
  by (auto simp: dispatchStatusUpdate_def go_bind_Ret_iff split: option.splits)

lemma telemetry_locked_ext: "telemetry_locked now t g (tr, w) = Ret (tr', w') \<Longrightarrow> ext w' = ext w"
  by (auto simp: telemetry_locked_def Let_def split: option.splits if_splits dest: dispatch_ext)

lemma tracker_handler_ext:
  assumes "tracker_handler P t env w = Ret (r, w')"
  shows "snd (ext w') = ext (snd (clock_Now P (snd (tracker_view w))))"
proof -
  obtain now w1 where c: "clock_Now P (snd (tracker_view w)) = (now, w1)" by fastforce
  from assms obtain tr' w2 where
    "telemetry_locked now t (env_GatewayID env) (fst (tracker_view w), w1) = Ret (tr', w2)"
    "w' = adapter_view (tr', w2)"
    using c by (auto simp: tracker_handler_def HandleTelemetry_def go_bind_Ret_iff Let_def
        split: prod.splits)
  with telemetry_locked_ext c show ?thesis by fastforce
qed

end
