(* ===== verification/Driving_Props.thy ===== *)
theory Driving_Props
  imports Driving_Adapters Tracker_Service
begin

text \<open>
  Properties of the decommission consumer and of the timer, run with the tracker.
\<close>

section \<open>Decommission events\<close>

definition decommission_service ::
    "(nats_msg \<Rightarrow> answer \<Rightarrow> 'y \<Rightarrow> string option \<times> 'y) \<Rightarrow> (tracker \<times> 'y) decommission_consumer" where
  "decommission_service answer =
     newNATSDecommissionConsumer tracker_decommission (service_answer answer)"

lemma extractIDs_subject:
  assumes "\<forall>p \<in> {a, b, t, g}. CHR ''.'' \<notin> set p"
  shows "extractIDs (join_with ''.'' [a, b, t, g]) = Inr (t, g)"
proof -
  have "split_on (CHR ''.'') (join_with [CHR ''.''] [a, b, t, g]) = [a, b, t, g]"
    by (rule split_on_join) (use assms in auto)
  then show ?thesis by (simp only: extractIDs_def Let_def) simp
qed

lemma tracker_decommission_view:
  "tracker_decommission t g w =
     \<lparr>mtr = SetHeartbeatMapSize (int (tracked ((fst (ext w))\<lparr>beats := (beats (fst (ext w)))(GatewayKey t g := None)\<rparr>)))
        (mtr w),
      ext = ((fst (ext w))\<lparr>beats := (beats (fst (ext w)))(GatewayKey t g := None)\<rparr>, snd (ext w))\<rparr>"
  by (simp add: tracker_decommission_def HandleDecommission_def tracker_view_def adapter_view_def
      Let_def with_metrics_def)

lemma handleMsg_good:
  assumes "extractIDs (msg_Subject msg) = Inr (t, g)"
  shows "handleMsg (decommission_service answer) msg w =
    \<lparr>mtr = mtr (tracker_decommission t g w),
     ext = (fst (ext (tracker_decommission t g w)), snd (answer msg Ack (snd (ext w))))\<rparr>"
  using assms
  by (simp add: handleMsg_def decommission_service_def newNATSDecommissionConsumer_def service_answer_def on_outside_def outside_def
      tracker_decommission_view split: prod.splits)

text \<open>
  A decommission message whose subject names a tenant and a gateway makes the tracker forget
  exactly that gateway, sets the gauge to the number of gateways left, and is acknowledged.
\<close>

theorem decommission_message_effect:
  assumes "msg_Subject msg = join_with ''.'' [''gateway'', ''decommissioned'', t, g]"
    and "CHR ''.'' \<notin> set t" and "CHR ''.'' \<notin> set g"
  shows "let w' = handleMsg (decommission_service answer) msg w; tr = fst (ext w); tr' = fst (ext w') in
    tr' = tr\<lparr>beats := (beats tr)(GatewayKey t g := None)\<rparr>
    \<and> HeartbeatMapSize (mtr w') = int (card (dom (beats tr) - {GatewayKey t g}))
    \<and> snd (ext w') = snd (answer msg Ack (snd (ext w)))"
proof -
  have "extractIDs (msg_Subject msg) = Inr (t, g)"
    unfolding assms(1) by (rule extractIDs_subject) (use assms(2,3) in auto)
  from handleMsg_good [OF this, of answer w] show ?thesis
    by (simp add: Let_def tracker_decommission_view metric_defs tracked_def)
qed

text \<open>
  A message whose subject does not have four parts is terminated and changes nothing else.
\<close>

theorem malformed_decommission_terminated:
  assumes "length (split_on (CHR ''.'') (msg_Subject msg)) \<noteq> 4"
  shows "let w' = handleMsg (decommission_service answer) msg w in
    fst (ext w') = fst (ext w) \<and> mtr w' = mtr w \<and> snd (ext w') = snd (answer msg Term (snd (ext w)))"
  using assms
  by (simp add: handleMsg_def extractIDs_def decommission_service_def newNATSDecommissionConsumer_def service_answer_def on_outside_def
      outside_def Let_def split: prod.splits)

text \<open>
  Decommission messages may be delivered again: handling a message a second time leaves the
  tracker and the metrics as they are after the first time.
\<close>

theorem decommission_redelivery_harmless:
  "let h = handleMsg (decommission_service answer) in
     fst (ext (h msg' (h msg w))) = fst (ext (h msg w)) \<and> mtr (h msg' (h msg w)) = mtr (h msg w)"
  if "msg_Subject msg' = msg_Subject msg"
proof (cases "extractIDs (msg_Subject msg)")
  case (Inl e)
  with that show ?thesis
    by (simp add: handleMsg_def decommission_service_def newNATSDecommissionConsumer_def service_answer_def on_outside_def outside_def Let_def
        split: prod.splits)
next
  case (Inr p)
  obtain t g where p: "p = (t, g)" by fastforce
  from Inr that p have e: "extractIDs (msg_Subject msg) = Inr (t, g)"
    "extractIDs (msg_Subject msg') = Inr (t, g)" by simp_all
  show ?thesis
    by (simp add: Let_def handleMsg_good [OF e(1)] handleMsg_good [OF e(2)] tracker_decommission_view
        metric_defs tracked_def)
qed

section \<open>The timer\<close>

lemma timer_turn_observes:
  assumes "\<And>i w w'. timer_ticker h i w = Ret w' \<Longrightarrow>
      HeartbeatTickDuration (mtr w') = HeartbeatTickDuration (mtr w)"
    and "timer_turn h order w = Ret w'"
  shows "\<exists>d. HeartbeatTickDuration (mtr w') = HeartbeatTickDuration (mtr w) @ [d]"
proof -
  obtain start w1 where 1: "outside (timer_now h) w = (start, w1)" by fastforce
  with assms(2) obtain w2 where 2: "timer_ticker h order w1 = Ret w2"
    by (auto simp: timer_turn_def go_bind_Ret_iff)
  obtain now w3 where 3: "outside (timer_now h) w2 = (now, w3)" by fastforce
  from assms(2) 1 2 3 have "w' = with_metrics (ObserveHeartbeatTickDuration (time_sub now start)) w3"
    by (simp add: timer_turn_def)
  with outsideE [OF 1] outsideE [OF 3] assms(1) [OF 2] show ?thesis by (simp add: metric_defs)
qed

text \<open>
  The timer runs one check per tick of its interval, records the duration of each, and ends with
  its context, provided that the interval is positive and no check panics.
\<close>

theorem timer_observes_every_tick:
  assumes "0 < sint (timer_interval h)"
    and "\<And>i w. \<exists>w'. timer_ticker h i w = Ret w'
      \<and> HeartbeatTickDuration (mtr w') = HeartbeatTickDuration (mtr w)"
  shows "\<exists>w' ds. Run_timer h orders w = Ret w' \<and> length ds = length orders
    \<and> HeartbeatTickDuration (mtr w') = HeartbeatTickDuration (mtr w) @ ds"
proof -
  have frame: "HeartbeatTickDuration (mtr w') = HeartbeatTickDuration (mtr w)"
    if "timer_ticker h i w = Ret w'" for i w w' using assms(2) [of i w] that by auto
  have "\<exists>w' ds. fold_result (timer_turn h) orders w = Ret w' \<and> length ds = length orders
    \<and> HeartbeatTickDuration (mtr w') = HeartbeatTickDuration (mtr w) @ ds" for w
  proof (induction orders arbitrary: w)
    case (Cons i rest)
    obtain start w1 where 1: "outside (timer_now h) w = (start, w1)" by fastforce
    obtain w2 where "timer_ticker h i w1 = Ret w2" using assms(2) by blast
    then obtain w' where turn: "timer_turn h i w = Ret w'"
      using 1 by (cases "outside (timer_now h) w2") (auto simp: timer_turn_def)
    have "\<exists>d. HeartbeatTickDuration (mtr w') = HeartbeatTickDuration (mtr w) @ [d]"
      by (rule timer_turn_observes [OF _ turn]) (rule frame)
    then obtain d where "HeartbeatTickDuration (mtr w') = HeartbeatTickDuration (mtr w) @ [d]" by blast
    with turn Cons.IH [of w'] show ?case by (auto intro!: exI [of _ "d # _"])
  qed simp
  with assms(1) show ?thesis by (simp add: Run_timer_def)
qed

section \<open>Witnesses\<close>

definition demo_decommission :: nats_msg where
  "demo_decommission = \<lparr>msg_Subject = ''gateway.decommissioned.t.g'', msg_Data = [], msg_Reply = ''1''\<rparr>"

definition demo_malformed :: nats_msg where
  "demo_malformed = \<lparr>msg_Subject = ''gateway.decommissioned.t'', msg_Data = [], msg_Reply = ''2''\<rparr>"

definition demo_answer :: "nats_msg \<Rightarrow> answer \<Rightarrow> answer list \<Rightarrow> string option \<times> answer list" where
  "demo_answer m a x = (None, x @ [a])"

definition demo_start :: "(tracker \<times> answer list) world" where
  "demo_start = \<lparr>mtr = zero_metrics, ext = (\<lparr>startTime = 0, gracePeriod = 0,
     beats = [GatewayKey ''t'' ''g'' \<mapsto>
       \<lparr>he_tenantID = ''t'', he_gatewayID = ''g'', lastSeen = 0, knownStatus = Online\<rparr>],
     dispatchCap = 4, dispatchCh = [], dispatchClosed = False, worker = Ready\<rparr>, [])\<rparr>"

lemma decommission_message_effect_witness:
  "let w' = handleMsg (decommission_service demo_answer) demo_decommission demo_start in
     beats (fst (ext w')) = Map.empty \<and> HeartbeatMapSize (mtr w') = 0 \<and> snd (ext w') = [Ack]"
  using decommission_message_effect [of demo_decommission "''t''" "''g''" demo_answer demo_start]
  by (simp add: demo_decommission_def demo_start_def demo_answer_def Let_def)

lemma malformed_decommission_terminated_witness:
  "snd (ext (handleMsg (decommission_service demo_answer) demo_malformed demo_start)) = [Term]"
  using malformed_decommission_terminated [of demo_malformed demo_answer demo_start]
  by (simp add: demo_malformed_def demo_start_def demo_answer_def Let_def)

lemma decommission_redelivery_harmless_witness:
  "let h = handleMsg (decommission_service demo_answer) demo_decommission in
     fst (ext (h (h demo_start))) = fst (ext (h demo_start))"
  using decommission_redelivery_harmless [of demo_decommission demo_decommission demo_answer demo_start]
  by (simp add: Let_def)

lemma timer_observes_every_tick_witness:
  "\<exists>w' ds. Run_timer \<lparr>timer_ticker = (\<lambda>i w. Ret w), timer_now = Pair 3, timer_interval = second\<rparr>
     [(), ()] demo_start = Ret w' \<and> length ds = 2 \<and> HeartbeatTickDuration (mtr w') = ds"
  using timer_observes_every_tick
    [of "\<lparr>timer_ticker = (\<lambda>i w. Ret w), timer_now = Pair 3, timer_interval = second\<rparr>" "[(), ()]" demo_start]
  by (simp add: second_def demo_start_def zero_metrics_def numeral_2_eq_2)

end
