(* ===== verification/Telemetry_Props.thy ===== *)
theory Telemetry_Props
  imports Tracker_Service RR_Props
begin

text \<open>
  Properties of the telemetry consumer, run with the heartbeat tracker as its handler: every delivery
  is answered once, acknowledged only after its row was written, and terminated only if it cannot be
  decoded.
\<close>

section \<open>The system of callback and flush loop\<close>

text \<open>
  C6. No delivery is lost or answered twice: at any moment the deliveries so far are those answered
  together with those that wait in the buffer, in the channel and in the callback, which are fewer
  than a batch, the capacity of the channel and one. Once the loop has stopped its buffer is empty.
\<close>

theorem every_delivery_accounted:
  assumes "consumer_reach J c env w0 s" and "tc_handler c = tracker_handler P"
    and "observed_consumer c env acks stored" and "acks (ext w0) = []" and "stored (ext w0) = []"
    and "0 < sint (batchSize c)"
  shows "mset (cs_delivered s)
      = mset (map fst (acks (ext (cs_world s)))) + mset (map pm_msg (unanswered s))
    \<and> length (cs_buf s) < nat (sint (batchSize c)) \<and> length (cs_chan s) \<le> chan_cap c
    \<and> (\<not> cs_running s \<longrightarrow> cs_buf s = [])"
  using tracker_as_handler.consumer_reach_inv [OF assms(2-6,1)] by (simp add: consumer_inv_def)

text \<open>
  A message is acknowledged only after its row was written: the rows of the batch writes that
  succeeded are exactly the rows of the acknowledged messages, in the order of the acknowledgements.
\<close>

theorem acknowledged_rows_are_written:
  assumes "consumer_reach J c env w0 s" and "tc_handler c = tracker_handler P"
    and "observed_consumer c env acks stored" and "acks (ext w0) = []" and "stored (ext w0) = []"
    and "0 < sint (batchSize c)"
  shows "map Some (stored (ext (cs_world s)))
    = map (message_row J) (map fst (filter (\<lambda>(m, a). a = Ack) (acks (ext (cs_world s)))))"
  using tracker_as_handler.consumer_reach_inv [OF assms(2-6,1)]
  by (simp add: consumer_inv_def books_def acked_def)

text \<open>
  C19. A message is terminated exactly if its subject or its payload cannot be decoded, whichever
  goroutine answers it; everything else is acknowledged or asked for again.
\<close>

theorem terminated_iff_undecodable:
  assumes "consumer_reach J c env w0 s" and "tc_handler c = tracker_handler P"
    and "observed_consumer c env acks stored" and "acks (ext w0) = []" and "stored (ext w0) = []"
    and "0 < sint (batchSize c)" and "(m, a) \<in> set (acks (ext (cs_world s)))"
  shows "a = Term \<longleftrightarrow> message_row J m = None"
  using tracker_as_handler.consumer_reach_inv [OF assms(2-6,1)] assms(7)
  by (auto simp: consumer_inv_def books_def)

section \<open>Progress\<close>

abbreviation consumer_steps where
  "consumer_steps J c env \<equiv> (consumer_step J c env)\<^sup>*\<^sup>*"

lemma loop_takes_all:
  "cs_running s \<Longrightarrow> \<exists>s'. consumer_steps J c env s s' \<and> cs_running s' \<and> cs_chan s' = []
     \<and> cs_inflight s' = cs_inflight s \<and> cs_delivered s' = cs_delivered s"
proof (induction "length (cs_chan s)" arbitrary: s)
  case 0
  then show ?case by auto
next
  case (Suc n)
  then obtain pm rest where ch: "cs_chan s = pm # rest" by (cases "cs_chan s") auto
  let ?s = "with_loop (s\<lparr>cs_chan := rest\<rparr>) (flush_receive c pm (cs_buf s, cs_world s))"
  have "consumer_step J c env s ?s" using Suc.prems ch by (rule consumer_step.receive)
  moreover obtain s' where "consumer_steps J c env ?s s'" "cs_running s'" "cs_chan s' = []"
    "cs_inflight s' = cs_inflight ?s" "cs_delivered s' = cs_delivered ?s"
    using Suc.hyps(1) [of ?s] Suc.hyps(2) Suc.prems ch by (auto simp: with_loop_def)
  ultimately show ?case
    by (intro exI [of _ s']) (auto simp: with_loop_def intro: converse_rtranclp_into_rtranclp)
qed

lemma loop_takes_inflight:
  assumes "cs_running s" and "cs_chan s = []"
  shows "\<exists>s'. consumer_steps J c env s s' \<and> cs_running s' \<and> cs_chan s' = []
    \<and> cs_inflight s' = None \<and> cs_delivered s' = cs_delivered s"
proof (cases "cs_inflight s")
  case (Some pm)
  from consumer_step.hand_over [OF Some assms(2,1), of J c env] assms show ?thesis
    by (intro exI [of _ "with_loop (s\<lparr>cs_inflight := None\<rparr>) (flush_receive c pm (cs_buf s, cs_world s))"])
       (auto simp: with_loop_def)
qed (use assms in auto)

text \<open>
  While the loop runs it is never stuck: from any state it can come to one where nothing waits
  any more, without a further delivery.
\<close>

theorem running_loop_can_settle_all:
  assumes "cs_running s"
  shows "\<exists>s'. consumer_steps J c env s s' \<and> unanswered s' = [] \<and> cs_delivered s' = cs_delivered s"
proof -
  from loop_takes_all [OF assms] obtain s1 where 1: "consumer_steps J c env s s1" "cs_running s1"
    "cs_chan s1 = []" "cs_delivered s1 = cs_delivered s" by blast
  from loop_takes_inflight [OF 1(2,3)] obtain s2 where 2: "consumer_steps J c env s1 s2"
    "cs_running s2" "cs_chan s2 = []" "cs_inflight s2 = None" "cs_delivered s2 = cs_delivered s1" by blast
  let ?s = "with_loop s2 (flush c (cs_buf s2, cs_world s2))"
  have "consumer_step J c env s2 ?s" using 2(2) by (rule consumer_step.ticker)
  with 1 2 have "consumer_steps J c env s ?s" by (meson rtranclp.simps rtranclp_trans)
  moreover have "unanswered ?s = []" using 2 by (simp add: unanswered_def with_loop_def flush_def)
  ultimately show ?thesis using 1 2 by (intro exI [of _ ?s]) (simp add: with_loop_def)
qed

section \<open>One message, one batch\<close>

text \<open>
  A tenant is read from a subject exactly if the subject consists of four parts without dots,
  and it is the third of them.
\<close>

theorem tenant_of_subject:
  "extractTenantID subject = Inr t \<longleftrightarrow>
     (\<exists>a b g. subject = a @ ''.'' @ b @ ''.'' @ t @ ''.'' @ g
        \<and> CHR ''.'' \<notin> set (a @ b @ t @ g))"
proof
  assume "extractTenantID subject = Inr t"
  then have parts: "length (split_on (CHR ''.'') subject) = 4" "split_on (CHR ''.'') subject ! 2 = t"
    by (auto simp: extractTenantID_def Let_def split: if_splits)
  then obtain a b g where sp: "split_on (CHR ''.'') subject = [a, b, t, g]"
    by (auto simp: numeral_eq_Suc length_Suc_conv)
  with join_split_on [of "CHR ''.''" subject] have "subject = a @ ''.'' @ b @ ''.'' @ t @ ''.'' @ g"
    by simp
  moreover have "CHR ''.'' \<notin> set p" if "p \<in> {a, b, t, g}" for p
    using split_on_no_sep [of p "CHR ''.''" subject] sp that by auto
  ultimately show "\<exists>a b g. subject = a @ ''.'' @ b @ ''.'' @ t @ ''.'' @ g
      \<and> CHR ''.'' \<notin> set (a @ b @ t @ g)" by auto
next
  assume "\<exists>a b g. subject = a @ ''.'' @ b @ ''.'' @ t @ ''.'' @ g
      \<and> CHR ''.'' \<notin> set (a @ b @ t @ g)"
  then obtain a b g where s: "subject = join_with [CHR ''.''] [a, b, t, g]"
    and dots: "\<forall>p \<in> set [a, b, t, g]. CHR ''.'' \<notin> set p" by auto
  have "split_on (CHR ''.'') subject = [a, b, t, g]"
    unfolding s by (rule split_on_join [OF _ dots]) simp
  then show "extractTenantID subject = Inr t" by (simp add: extractTenantID_def)
qed

lemma respond_mtr [simp]: "mtr (respond c m a w) = mtr w"
  by (simp add: respond_def)

lemma settle_mtr: "mtr (settle c e pm w) =
    (if pm_err pm \<noteq> None then IncMessageParsingErrors (mtr w)
     else if e \<noteq> None then IncWriteErrors (mtr w) else IncMessagesWritten (mtr w))"
  by (simp add: settle_def)

lemma batch_rows_length:
  "length (batch_rows []) = 0" "length (batch_rows batch) \<le> length batch"
  "length (batch_rows (pm # batch)) = (if pm_err pm = None then 1 else 0) + length (batch_rows batch)"
  by (simp_all add: batch_rows_def)

lemma settle_counters:
  "MessagesWritten (mtr (fold (settle c e) batch w)) = MessagesWritten (mtr w)
       + (if e = None then length (batch_rows batch) else 0)
   \<and> WriteErrors (mtr (fold (settle c e) batch w)) = WriteErrors (mtr w)
       + (if e = None then 0 else length (batch_rows batch))
   \<and> MessageParsingErrors (mtr (fold (settle c e) batch w)) = MessageParsingErrors (mtr w)
       + (length batch - length (batch_rows batch))
   \<and> BatchSize (mtr (fold (settle c e) batch w)) = BatchSize (mtr w)"
  by (induction batch arbitrary: w)
     (simp_all add: settle_mtr batch_rows_length Suc_diff_le trans_le_add2 metric_defs)

lemma timed_write_counters:
  assumes "timed_write c rows w = (e, w')"
  shows "MessagesWritten (mtr w') = MessagesWritten (mtr w) \<and> WriteErrors (mtr w') = WriteErrors (mtr w)
    \<and> MessageParsingErrors (mtr w') = MessageParsingErrors (mtr w) \<and> BatchSize (mtr w') = BatchSize (mtr w)
    \<and> (rows = [] \<longrightarrow> e = None)"
  using assms
  by (auto simp: timed_write_def outside_def Let_def metric_defs split: if_splits prod.splits)

text \<open>
  The counters of one batch: every message is counted once, as written, as failed or as
  malformed, and the size observed is the number of rows.
\<close>

theorem batch_counters:
  "let m = mtr w; m' = mtr (writeBatch c batch w); n = length (batch_rows batch);
       writeErr = fst (timed_write c (batch_rows batch) (with_metrics (ObserveBatchSize n) w)) in
     MessagesWritten m' = MessagesWritten m + (if writeErr = None then n else 0)
     \<and> WriteErrors m' = WriteErrors m + (if writeErr = None then 0 else n)
     \<and> MessageParsingErrors m' = MessageParsingErrors m + (length batch - n)
     \<and> BatchSize m' = BatchSize m @ [n]"
proof -
  let ?w = "with_metrics (ObserveBatchSize (length (batch_rows batch))) w"
  obtain e w1 where t: "timed_write c (batch_rows batch) ?w = (e, w1)" by fastforce
  from timed_write_counters [OF t] settle_counters [of c e batch w1] t show ?thesis
    by (simp add: writeBatch_def metric_defs Let_def)
qed

text \<open>
  The two goroutines disagree on a handler error that is not permanent: the flush loop terminates
  the message, while the callback, giving up at the end of the context, asks for it again.
\<close>

theorem transient_error_is_terminated:
  fixes e :: string and m :: nats_msg
  defines "pm \<equiv> \<lparr>pm_msg = m, pm_row = zero_row,
    pm_err = Some (Wrapf ''handle telemetry: %w'' [] (External e))\<rparr>"
  shows "writeBatch c [pm] w =
      respond c m Term (with_metrics IncMessageParsingErrors (with_metrics (ObserveBatchSize 0) w))
    \<and> abandonPending c pm w = respond c m (NakWithDelay (5 * second)) w"
  by (simp add: pm_def writeBatch_def batch_rows_def timed_write_def settle_def abandonPending_def
      abandon_answer_def)

section \<open>Witnesses\<close>

text \<open>
  A consumer with batches of one row whose outside world is the log of answers and the list of rows
  written, on a codec that reads one fixed payload.
\<close>

type_synonym demo_log = "(nats_msg \<times> answer) list \<times> telemetry_row list"

definition demo_log_ports :: "demo_log driven_ports" where
  "demo_log_ports = \<lparr>clock_Now = Pair 7, Publish = (\<lambda>t a. Pair None), UpdateStatus = (\<lambda>u. Pair None),
     TimeoutFor = (\<lambda>t g w. 60000), GetGatewayLifecycle = (\<lambda>t g. Pair (LifecycleOnline, None))\<rparr>"

definition demo_envelope :: telemetry_envelope where
  "demo_envelope = \<lparr>env_GatewayID = ''g'', env_SensorID = ''s'', env_SensorType = SensorTypePressure,
     env_Timestamp = 5, env_KeyVersion = 1, env_EncryptedData = \<lparr>blob_Value = ''AAAA''\<rparr>,
     env_IV = \<lparr>blob_Value = ''BBBB''\<rparr>, env_AuthTag = \<lparr>blob_Value = ''CCCC''\<rparr>\<rparr>"

definition demo_json :: json_codec where
  "demo_json = demo_codec\<lparr>dec_envelope :=
     (\<lambda>s. if s = ''{}'' then Inr demo_envelope else Inl ''invalid character'')\<rparr>"

definition demo_consumer :: "(tracker \<times> demo_log) telemetry_consumer" where
  "demo_consumer = newNATSTelemetryConsumer (tracker_handler demo_log_ports)
     (\<lambda>rows (t, as, st). (None, t, as, st @ rows)) (\<lambda>m a (t, as, st). (None, t, as @ [(m, a)], st))
     (Pair 7) ''durable'' 1 second"

definition demo_log_tracker :: tracker where
  "demo_log_tracker = \<lparr>startTime = 0, gracePeriod = 0, beats = Map.empty, dispatchCap = 4,
     dispatchCh = [], dispatchClosed = False, worker = Ready\<rparr>"

definition demo_world0 :: "(tracker \<times> demo_log) world" where
  "demo_world0 = \<lparr>mtr = zero_metrics, ext = (demo_log_tracker, [], [])\<rparr>"

definition demo_good :: nats_msg where
  "demo_good = \<lparr>msg_Subject = ''telemetry.data.t.g'', msg_Data = ''{}'', msg_Reply = ''1''\<rparr>"

definition demo_bad :: nats_msg where
  "demo_bad = \<lparr>msg_Subject = ''telemetry.data.t'', msg_Data = ''{}'', msg_Reply = ''2''\<rparr>"

lemma demo_consumer_simps [simp]:
  "tc_handler demo_consumer = tracker_handler demo_log_ports" "batchSize demo_consumer = 1"
  by (simp_all add: demo_consumer_def newNATSTelemetryConsumer_def)

lemma demo_consumer_observed:
  "observed_consumer demo_consumer (\<lambda>w w'. False) (\<lambda>x. fst (snd x)) (\<lambda>x. snd (snd x))"
proof -
  have "snd (ext w') = snd (ext w)" if "tracker_handler demo_log_ports t e w = Ret (r, w')" for t e w r w'
    using tracker_handler_ext [OF that] by (simp add: demo_log_ports_def tracker_view_def)
  then show ?thesis
    by (auto simp: observed_consumer_def demo_consumer_def newNATSTelemetryConsumer_def
        split: prod.splits)
qed

text \<open>A delivery that is handed over at once, for a message of either kind.\<close>

lemma deliver_and_settle:
  assumes "consumer_reach J c env w0 s" and "cs_inflight s = None" "cs_chan s = []" "cs_running s"
    and "on_message J c m (cs_world s) = Ret (pm, w)"
  shows "consumer_reach J c env w0
    (with_loop (s\<lparr>cs_delivered := cs_delivered s @ [m], cs_world := w\<rparr>)
       (flush_receive c pm (cs_buf s, w)))"
proof -
  note reach1 = consumer_reach.step [OF assms(1) consumer_step.deliver [OF assms(2,5)]]
  have upd: "s\<lparr>cs_delivered := d, cs_inflight := None, cs_buf := b, cs_world := v\<rparr>
      = s\<lparr>cs_delivered := d, cs_buf := b, cs_world := v\<rparr>" for d b v
    using assms(2) by (cases s) simp
  from consumer_reach.step [OF reach1 consumer_step.hand_over] assms(3,4) show ?thesis
    by (simp add: with_loop_def upd)
qed

definition demo_settled :: "nats_msg \<Rightarrow> (tracker \<times> demo_log) consumer_sys" where
  "demo_settled m = (let (pm, w) = (case on_message demo_json demo_consumer m demo_world0 of
       Ret r \<Rightarrow> r | Panic p \<Rightarrow> undefined)
     in with_loop ((consumer_start demo_world0)\<lparr>cs_delivered := [m], cs_world := w\<rparr>)
       (flush_receive demo_consumer pm ([], w)))"

lemmas demo_consumer_eval = on_message_def processMessage_def extractTenantID_def demo_json_def
  demo_consumer_def newNATSTelemetryConsumer_def tracker_handler_def HandleTelemetry_def
  telemetry_locked_def dispatchStatusUpdate_def try_send_def demo_log_ports_def demo_world0_def
  demo_log_tracker_def tracker_view_def adapter_view_def Let_def with_metrics_def metric_defs
  flush_receive_def flush_def writeBatch_def batch_rows_def timed_write_def settle_def respond_def
  outside_def with_loop_def consumer_start_def

lemma demo_settled_log:
  "snd (ext (cs_world (demo_settled demo_good))) = ([(demo_good, Ack)], [buildRow ''t'' demo_envelope])"
  "snd (ext (cs_world (demo_settled demo_bad))) = ([(demo_bad, Term)], [])"
  by (simp_all add: demo_settled_def demo_good_def demo_bad_def demo_consumer_eval)

lemma demo_settled_frame:
  "cs_delivered (demo_settled m) = [m]" "cs_running (demo_settled m)" "cs_chan (demo_settled m) = []"
  "cs_inflight (demo_settled m) = None"
  by (simp_all add: demo_settled_def with_loop_def consumer_start_def Let_def split: prod.splits)

lemma demo_reach:
  assumes "m \<in> {demo_good, demo_bad}"
  shows "consumer_reach demo_json demo_consumer (\<lambda>w w'. False) demo_world0 (demo_settled m)"
proof -
  obtain pm w where om: "on_message demo_json demo_consumer m demo_world0 = Ret (pm, w)"
    using assms by (auto simp: demo_good_def demo_bad_def demo_consumer_eval)
  have "demo_settled m = with_loop ((consumer_start demo_world0)\<lparr>cs_delivered := [m], cs_world := w\<rparr>)
      (flush_receive demo_consumer pm ([], w))"
    by (simp add: demo_settled_def om)
  with deliver_and_settle [OF consumer_reach.start, of demo_world0 demo_json demo_consumer m pm w] om
  show ?thesis by (simp add: consumer_start_def)
qed

lemma demo_hyps:
  "fst (snd (ext demo_world0)) = []" "snd (snd (ext demo_world0)) = []" "0 < sint (batchSize demo_consumer)"
  by (simp_all add: demo_world0_def)

lemma every_delivery_accounted_witness:
  "mset [demo_bad] = mset (map fst [(demo_bad, Term)]) + mset (map pm_msg (unanswered (demo_settled demo_bad)))"
proof -
  have "demo_bad \<in> {demo_good, demo_bad}" by simp
  from every_delivery_accounted [OF demo_reach [OF this] demo_consumer_simps(1)
      demo_consumer_observed demo_hyps]
  show ?thesis using demo_settled_log(2) demo_settled_frame(1) [of demo_bad] by (metis fst_conv)
qed

lemma acknowledged_rows_are_written_witness:
  "[Some (buildRow ''t'' demo_envelope)] = map (message_row demo_json) [demo_good]"
proof -
  have "demo_good \<in> {demo_good, demo_bad}" by simp
  from acknowledged_rows_are_written [OF demo_reach [OF this] demo_consumer_simps(1)
      demo_consumer_observed demo_hyps]
  show ?thesis using demo_settled_log(1) by simp
qed

lemma terminated_iff_undecodable_witness: "message_row demo_json demo_bad = None"
proof -
  have "demo_bad \<in> {demo_good, demo_bad}" by simp
  from terminated_iff_undecodable [OF demo_reach [OF this] demo_consumer_simps(1)
      demo_consumer_observed demo_hyps, of demo_bad Term]
  show ?thesis using demo_settled_log(2) by simp
qed

lemma running_loop_can_settle_all_witness:
  "\<exists>s'. consumer_steps demo_json demo_consumer (\<lambda>w w'. False) (demo_settled demo_good) s'
     \<and> unanswered s' = [] \<and> cs_delivered s' = [demo_good]"
  using running_loop_can_settle_all [OF demo_settled_frame(2)] demo_settled_frame(1) by metis

end
