(* ===== verification/Decimal.thy ===== *)
theory Decimal
  imports Prelude
begin

text \<open>
  The part of Go's \<open>strconv\<close> and of the verb \<open>%d\<close> that the configuration loader and the JSON decoder
  use: 64-bit integers in decimal, read and printed, and the facts that relate the two.
\<close>

section \<open>Integers in decimal\<close>

datatype num_error = InvalidSyntax | OutOfRange

definition is_digit :: "char \<Rightarrow> bool" where
  "is_digit c \<longleftrightarrow> 48 \<le> (of_char c :: nat) \<and> (of_char c :: nat) \<le> 57"

definition digit_value :: "char \<Rightarrow> nat" where
  "digit_value c = of_char c - 48"

text \<open>
  The loop of \<open>strconv.ParseUint(s, 10, 64)\<close>, which looks at the characters one by one and reports the
  first thing that is wrong: the number may be out of range before a bad character is seen.
\<close>

fun parse_uint :: "nat \<Rightarrow> string \<Rightarrow> num_error + nat" where
  "parse_uint n [] = Inr n"
| "parse_uint n (c # cs) =
     (if \<not> is_digit c then Inl InvalidSyntax
      else if 1844674407370955162 \<le> n then Inl OutOfRange
      else let n1 = n * 10 + digit_value c in
        if 2 ^ 64 \<le> n1 then Inl OutOfRange else parse_uint n1 cs)"

text \<open>\<open>strconv.ParseInt(s, 10, 64)\<close>: an optional sign and digits, without an empty number.\<close>

definition parse_signed :: "bool \<Rightarrow> string \<Rightarrow> num_error + i64" where
  "parse_signed neg s =
     (if s = [] then Inl InvalidSyntax
      else case parse_uint 0 s of
        Inl e \<Rightarrow> Inl e
      | Inr un \<Rightarrow>
          if \<not> neg \<and> 2 ^ 63 \<le> un then Inl OutOfRange
          else if neg \<and> 2 ^ 63 < un then Inl OutOfRange
          else Inr (if neg then - word_of_nat un else word_of_nat un))"

definition parse_decimal :: "string \<Rightarrow> num_error + i64" where
  "parse_decimal s =
     (case s of
        c # cs \<Rightarrow>
          if c = CHR ''+'' then parse_signed False cs
          else if c = CHR ''-'' then parse_signed True cs
          else parse_signed False s
      | [] \<Rightarrow> Inl InvalidSyntax)"

text \<open>A \<open>*strconv.NumError\<close>: the function, the input and what is wrong with it.\<close>

definition num_error :: "string \<Rightarrow> string \<Rightarrow> num_error \<Rightarrow> go_error" where
  "num_error fn s e = Wrapf ''strconv.%s: parsing %q: %w'' [FS fn, FS s]
     (External (case e of InvalidSyntax \<Rightarrow> ''invalid syntax'' | OutOfRange \<Rightarrow> ''value out of range''))"

definition Atoi :: "string \<Rightarrow> go_error + i64" where
  "Atoi s = (case parse_decimal s of Inl e \<Rightarrow> Inl (num_error ''Atoi'' s e) | Inr n \<Rightarrow> Inr n)"

definition ParseInt :: "string \<Rightarrow> go_error + i64" where
  "ParseInt s = (case parse_decimal s of Inl e \<Rightarrow> Inl (num_error ''ParseInt'' s e) | Inr n \<Rightarrow> Inr n)"

text \<open>The verb \<open>%d\<close>.\<close>

fun show_nat :: "nat \<Rightarrow> string" where
  "show_nat n = (if n < 10 then [char_of (48 + n)] else show_nat (n div 10) @ [char_of (48 + n mod 10)])"

declare show_nat.simps [simp del]

definition show_int :: "int \<Rightarrow> string" where
  "show_int i = (if i < 0 then ''-'' @ show_nat (nat (- i)) else show_nat (nat i))"

section \<open>Reading what was printed\<close>

lemma digit_char: "d < 10 \<Longrightarrow> is_digit (char_of (48 + d)) \<and> digit_value (char_of (48 + d)) = d"
  by (simp add: is_digit_def digit_value_def)

lemma parse_uint_append:
  "parse_uint n (xs @ ys) = (case parse_uint n xs of Inl e \<Rightarrow> Inl e | Inr m \<Rightarrow> parse_uint m ys)"
  by (induction xs arbitrary: n) (simp_all add: Let_def)

lemma parse_show_nat: "n < 2 ^ 64 \<Longrightarrow> parse_uint 0 (show_nat n) = Inr n"
proof (induction n rule: show_nat.induct)
  case (1 n)
  show ?case
  proof (cases "n < 10")
    case True
    then show ?thesis by (simp add: show_nat.simps [of n] digit_char)
  next
    case False
    then have "parse_uint 0 (show_nat (n div 10)) = Inr (n div 10)" using 1 by simp
    moreover have "n div 10 < 1844674407370955162" using 1(2) by simp
    moreover have "n div 10 * 10 + n mod 10 = n" by simp
    ultimately show ?thesis
      using False 1(2) by (simp add: show_nat.simps [of n] parse_uint_append digit_char)
  qed
qed

lemma show_nat_not_Nil [simp]: "show_nat n \<noteq> []"
  by (simp add: show_nat.simps [of n])

lemma show_nat_hd: "is_digit (hd (show_nat n))"
proof (induction n rule: show_nat.induct)
  case (1 n)
  then show ?case by (simp add: show_nat.simps [of n] digit_char)
qed

lemma not_sign: "is_digit c \<Longrightarrow> c \<noteq> CHR ''+'' \<and> c \<noteq> CHR ''-''"
  by (auto simp: is_digit_def)

lemma parse_decimal_digits: "is_digit (hd s) \<Longrightarrow> s \<noteq> [] \<Longrightarrow> parse_decimal s = parse_signed False s"
  by (cases s) (auto simp: parse_decimal_def dest: not_sign)

lemma show_int_not_Nil [simp]: "show_int i \<noteq> []"
  by (simp add: show_int_def)

lemma parse_show_int: "parse_decimal (show_int (sint n)) = Inr n"
proof -
  have lt: "sint n < 2 ^ 63" and ge: "- (2 ^ 63) \<le> sint n"
    using sint_lt [of n] sint_ge [of n] by simp_all
  show ?thesis
  proof (cases "sint n < 0")
    case True
    then have "nat (- sint n) \<le> 2 ^ 63" using ge by simp
    then have "parse_uint 0 (show_nat (nat (- sint n))) = Inr (nat (- sint n))"
      by (intro parse_show_nat) simp
    moreover have "- word_of_nat (nat (- sint n)) = n" using True by simp
    ultimately show ?thesis
      using True \<open>nat (- sint n) \<le> 2 ^ 63\<close>
      by (simp add: show_int_def parse_decimal_def parse_signed_def)
  next
    case False
    then have b: "nat (sint n) < 2 ^ 63" using lt by simp
    then have "parse_uint 0 (show_nat (nat (sint n))) = Inr (nat (sint n))"
      by (intro parse_show_nat) simp
    moreover have "word_of_nat (nat (sint n)) = n" using False by simp
    ultimately show ?thesis
      using False b show_nat_hd [of "nat (sint n)"]
      by (simp add: show_int_def parse_decimal_digits parse_signed_def)
  qed
qed

text \<open>What a number means that was read: its digits, within the range of 64 bits.\<close>

lemma parse_uint_range: "parse_uint n s = Inr m \<Longrightarrow> n < 2 ^ 64 \<Longrightarrow> m < 2 ^ 64"
  by (induction s arbitrary: n) (auto simp: Let_def split: if_splits)

end
