(* ===== verification/Config.thy ===== *)
theory Config
  imports Decimal "HOL-Library.Char_ord" "HOL-Library.List_Lexorder"
begin

text \<open>
  \<open>internal/config/config.go\<close>: the configuration read from the environment at startup, its validation,
  and the database DSN. The environment is a function (\<open>os.Getenv\<close> gives the empty string for a
  variable that is not set) and the file system a function from paths to contents or an error. The
  parts of \<open>strings\<close> and \<open>net/url\<close> that the code uses are written out; \<open>strconv\<close> is in \<open>Decimal\<close>.
\<close>

section \<open>The configuration\<close>

definition dbSSLModeDisable :: string where "dbSSLModeDisable = ''disable''"
definition dbSSLModeRequire :: string where "dbSSLModeRequire = ''require''"
definition dbSSLModeVerifyCA :: string where "dbSSLModeVerifyCA = ''verify-ca''"
definition dbSSLModeVerifyFull :: string where "dbSSLModeVerifyFull = ''verify-full''"

record config =
  NATSUrl :: string
  NATSTlsCa :: string
  NATSTlsCert :: string
  NATSTlsKey :: string
  NATSConsumerDurableName :: string
  NATSConnectTimeoutSeconds :: i64
  DBHost :: string
  DBPort :: i64
  DBName :: string
  DBUser :: string
  DBPasswordFile :: string
  DBMaxConns :: i64
  DBMinConns :: i64
  DBSSLMode :: string
  DBSSLRootCert :: string
  GatewayBufferSize :: i64
  HeartbeatTickMs :: i64
  HeartbeatGracePeriodMs :: i64
  AlertConfigRefreshMs :: i64
  AlertConfigDefaultTimeoutMs :: i64
  AlertConfigMaxRetries :: i64
  AlertConfigInitialBackoffMs :: i64
  AlertConfigMaxBackoffMs :: i64
  MetricsAddr :: string

type_synonym environment = "string \<Rightarrow> string"

definition envOrDefault :: "environment \<Rightarrow> string \<Rightarrow> string \<Rightarrow> string" where
  "envOrDefault env key dflt = (if env key \<noteq> [] then env key else dflt)"

text \<open>\<open>None\<close> for a variable that is not set: the destination keeps its value.\<close>

definition parseInt :: "string \<Rightarrow> go_error + i64 option" where
  "parseInt s = (if s = [] then Inr None else case Atoi s of Inl e \<Rightarrow> Inl e | Inr v \<Rightarrow> Inr (Some v))"

definition parseInt64 :: "string \<Rightarrow> go_error + i64 option" where
  "parseInt64 s = (if s = [] then Inr None else case ParseInt s of Inl e \<Rightarrow> Inl e | Inr v \<Rightarrow> Inr (Some v))"

definition validateDBSSLMode :: "string \<Rightarrow> go_error option" where
  "validateDBSSLMode v =
     (if v \<in> {dbSSLModeDisable, dbSSLModeRequire, dbSSLModeVerifyCA, dbSSLModeVerifyFull} then None
      else Some (Errorf ''DB_SSL_MODE: invalid value %q'' [FS v]))"

definition requiresDBSSLRootCert :: "string \<Rightarrow> bool" where
  "requiresDBSSLRootCert mode \<longleftrightarrow> mode \<in> {dbSSLModeVerifyCA, dbSSLModeVerifyFull}"

section \<open>The loader\<close>

text \<open>
  The loader with the configuration it fills in and its first error. A destination pointer is the
  update of its field.
\<close>

record loader =
  ld_cfg :: config
  ld_err :: "go_error option"

definition require :: "environment \<Rightarrow> string \<Rightarrow> (string \<Rightarrow> config \<Rightarrow> config) \<Rightarrow> loader \<Rightarrow> loader" where
  "require env key dst l =
     (if ld_err l \<noteq> None then l
      else if env key = []
      then l\<lparr>ld_err := Some (Errorf ''required environment variable %q is not set'' [FS key])\<rparr>
      else l\<lparr>ld_cfg := dst (env key) (ld_cfg l)\<rparr>)"

definition opt_parsed ::
    "(string \<Rightarrow> go_error + i64 option) \<Rightarrow> environment \<Rightarrow> string \<Rightarrow> (i64 \<Rightarrow> config \<Rightarrow> config)
      \<Rightarrow> loader \<Rightarrow> loader" where
  "opt_parsed parse env key dst l =
     (if ld_err l \<noteq> None then l
      else case parse (env key) of
        Inl err \<Rightarrow> l\<lparr>ld_err := Some (Wrapf ''%s: %w'' [FS key] err)\<rparr>
      | Inr None \<Rightarrow> l
      | Inr (Some v) \<Rightarrow> l\<lparr>ld_cfg := dst v (ld_cfg l)\<rparr>)"

definition optInt :: "environment \<Rightarrow> string \<Rightarrow> (i64 \<Rightarrow> config \<Rightarrow> config) \<Rightarrow> loader \<Rightarrow> loader" where
  "optInt = opt_parsed parseInt"

definition optInt64 :: "environment \<Rightarrow> string \<Rightarrow> (i64 \<Rightarrow> config \<Rightarrow> config) \<Rightarrow> loader \<Rightarrow> loader" where
  "optInt64 = opt_parsed parseInt64"

definition initial_config :: "environment \<Rightarrow> config" where
  "initial_config env =
     \<lparr>NATSUrl = [], NATSTlsCa = [], NATSTlsCert = [], NATSTlsKey = [],
      NATSConsumerDurableName = envOrDefault env ''NATS_CONSUMER_DURABLE_NAME'' ''data-consumer-telemetry'',
      NATSConnectTimeoutSeconds = 10,
      DBHost = [], DBPort = 5432, DBName = [], DBUser = [], DBPasswordFile = [],
      DBMaxConns = 10, DBMinConns = 2,
      DBSSLMode = envOrDefault env ''DB_SSL_MODE'' dbSSLModeRequire, DBSSLRootCert = [],
      GatewayBufferSize = 1000, HeartbeatTickMs = 10000, HeartbeatGracePeriodMs = 120000,
      AlertConfigRefreshMs = 30000, AlertConfigDefaultTimeoutMs = 60000, AlertConfigMaxRetries = 10,
      AlertConfigInitialBackoffMs = 1000, AlertConfigMaxBackoffMs = 30000,
      MetricsAddr = envOrDefault env ''METRICS_ADDR'' '':9090''\<rparr>"

text \<open>The calls of the loader in \<open>Load\<close>, in order.\<close>

definition load_required :: "environment \<Rightarrow> loader \<Rightarrow> loader" where
  "load_required env l = fold (\<lambda>(key, dst). require env key dst)
     [(''NATS_URL'', \<lambda>v c. c\<lparr>NATSUrl := v\<rparr>),
      (''NATS_TLS_CA'', \<lambda>v c. c\<lparr>NATSTlsCa := v\<rparr>),
      (''NATS_TLS_CERT'', \<lambda>v c. c\<lparr>NATSTlsCert := v\<rparr>),
      (''NATS_TLS_KEY'', \<lambda>v c. c\<lparr>NATSTlsKey := v\<rparr>),
      (''DB_HOST'', \<lambda>v c. c\<lparr>DBHost := v\<rparr>),
      (''DB_NAME'', \<lambda>v c. c\<lparr>DBName := v\<rparr>),
      (''DB_USER'', \<lambda>v c. c\<lparr>DBUser := v\<rparr>),
      (''DB_PASSWORD_FILE'', \<lambda>v c. c\<lparr>DBPasswordFile := v\<rparr>)] l"

definition load_optional :: "environment \<Rightarrow> loader \<Rightarrow> loader" where
  "load_optional env l =
     (let ints = fold (\<lambda>(key, dst). optInt env key dst);
          l1 = ints
            [(''DB_PORT'', \<lambda>v c. c\<lparr>DBPort := v\<rparr>),
             (''NATS_CONNECT_TIMEOUT_SECONDS'', \<lambda>v c. c\<lparr>NATSConnectTimeoutSeconds := v\<rparr>),
             (''DB_MAX_CONNS'', \<lambda>v c. c\<lparr>DBMaxConns := v\<rparr>),
             (''DB_MIN_CONNS'', \<lambda>v c. c\<lparr>DBMinConns := v\<rparr>),
             (''GATEWAY_BUFFER_SIZE'', \<lambda>v c. c\<lparr>GatewayBufferSize := v\<rparr>),
             (''HEARTBEAT_TICK_MS'', \<lambda>v c. c\<lparr>HeartbeatTickMs := v\<rparr>),
             (''HEARTBEAT_GRACE_PERIOD_MS'', \<lambda>v c. c\<lparr>HeartbeatGracePeriodMs := v\<rparr>),
             (''ALERT_CONFIG_REFRESH_MS'', \<lambda>v c. c\<lparr>AlertConfigRefreshMs := v\<rparr>)] l;
          l2 = optInt64 env ''ALERT_CONFIG_DEFAULT_TIMEOUT_MS'' (\<lambda>v c. c\<lparr>AlertConfigDefaultTimeoutMs := v\<rparr>) l1
      in ints
           [(''ALERT_CONFIG_MAX_RETRIES'', \<lambda>v c. c\<lparr>AlertConfigMaxRetries := v\<rparr>),
            (''ALERT_CONFIG_INITIAL_BACKOFF_MS'', \<lambda>v c. c\<lparr>AlertConfigInitialBackoffMs := v\<rparr>),
            (''ALERT_CONFIG_MAX_BACKOFF_MS'', \<lambda>v c. c\<lparr>AlertConfigMaxBackoffMs := v\<rparr>)] l2)"

text \<open>The validation at the end; a missing certificate overwrites the error of an invalid mode.\<close>

definition load_validate :: "loader \<Rightarrow> loader" where
  "load_validate l =
     (if ld_err l \<noteq> None then l
      else
        let l1 = (case validateDBSSLMode (DBSSLMode (ld_cfg l)) of
                    Some err \<Rightarrow> l\<lparr>ld_err := Some err\<rparr>
                  | None \<Rightarrow> l)
        in if requiresDBSSLRootCert (DBSSLMode (ld_cfg l)) \<and> DBSSLRootCert (ld_cfg l) = []
           then l1\<lparr>ld_err := Some (Errorf ''DB_SSL_ROOT_CERT is required when DB_SSL_MODE=%q''
                  [FS (DBSSLMode (ld_cfg l))])\<rparr>
           else l1)"

definition Load :: "environment \<Rightarrow> config \<times> go_error option" where
  "Load env =
     (let l1 = load_required env \<lparr>ld_cfg = initial_config env, ld_err = None\<rparr>;
          l2 = l1\<lparr>ld_cfg := (ld_cfg l1)\<lparr>DBSSLRootCert := env ''DB_SSL_ROOT_CERT''\<rparr>\<rparr>;
          l3 = load_validate (load_optional env l2)
      in (ld_cfg l3, ld_err l3))"

section \<open>The DSN\<close>

text \<open>
  \<open>strings.TrimSpace\<close>: the white space of Unicode, as its encodings in UTF-8. The decoder of Go reads
  a rune from the front or from the back, which for these encodings is a match of a prefix or suffix.
\<close>

definition space_encodings :: "string list" where
  "space_encodings = map (map char_of)
     ([[9], [10], [11], [12], [13], [32 :: nat], [0xC2, 0x85], [0xC2, 0xA0], [0xE1, 0x9A, 0x80]]
      @ map (\<lambda>b. [0xE2, 0x80, b]) ([0x80..<0x8B] @ [0xA8, 0xA9, 0xAF])
      @ [[0xE2, 0x81, 0x9F], [0xE3, 0x80, 0x80]])"

definition space_prefix :: "string list \<Rightarrow> string \<Rightarrow> nat" where
  "space_prefix encs s = (case find (\<lambda>e. take (length e) s = e) encs of None \<Rightarrow> 0 | Some e \<Rightarrow> length e)"

function trim_front :: "string list \<Rightarrow> string \<Rightarrow> string" where
  "trim_front encs s =
     (let n = space_prefix encs s in if n = 0 \<or> s = [] then s else trim_front encs (drop n s))"
  by pat_completeness auto
termination
  by (relation "measure (\<lambda>(encs, s). length s)") auto

declare trim_front.simps [simp del]

definition TrimSpace :: "string \<Rightarrow> string" where
  "TrimSpace s = rev (trim_front (map rev space_encodings) (rev (trim_front space_encodings s)))"

text \<open>The escaping of \<open>net/url\<close>, byte by byte, in the four places where the DSN uses it.\<close>

datatype url_mode = EncodeUserPassword | EncodeHost | EncodePath | EncodeQueryComponent

definition is_alnum :: "char \<Rightarrow> bool" where
  "is_alnum c \<longleftrightarrow> is_digit c
     \<or> 65 \<le> (of_char c :: nat) \<and> (of_char c :: nat) \<le> 90
     \<or> 97 \<le> (of_char c :: nat) \<and> (of_char c :: nat) \<le> 122"

definition should_escape :: "char \<Rightarrow> url_mode \<Rightarrow> bool" where
  "should_escape c mode =
     (if is_alnum c then False
      else if mode = EncodeHost \<and> c \<in> set (''!$&()*+,;=:[]<>'' @ [CHR 0x27, CHR 0x22]) then False
      else if c \<in> set ''-_.~'' then False
      else if c \<in> set ''$&+,/:;=?@'' then
        (case mode of
           EncodePath \<Rightarrow> c = CHR ''?''
         | EncodeUserPassword \<Rightarrow> c \<in> set ''@/?:''
         | _ \<Rightarrow> True)
      else True)"

definition hex_digit :: "nat \<Rightarrow> char" where
  "hex_digit n = ''0123456789ABCDEF'' ! n"

definition escape_char :: "url_mode \<Rightarrow> char \<Rightarrow> string" where
  "escape_char mode c =
     (if \<not> should_escape c mode then [c]
      else if c = CHR '' '' \<and> mode = EncodeQueryComponent then ''+''
      else [CHR ''%'', hex_digit (of_char c div 16), hex_digit (of_char c mod 16)])"

definition url_escape :: "url_mode \<Rightarrow> string \<Rightarrow> string" where
  "url_escape mode s = concat (map (escape_char mode) s)"

text \<open>\<open>url.Values.Encode\<close>: the pairs in the order of their keys.\<close>

definition encode_query :: "(string \<times> string) list \<Rightarrow> string" where
  "encode_query q = join_with ''&''
     (map (\<lambda>(k, v). url_escape EncodeQueryComponent k @ ''='' @ url_escape EncodeQueryComponent v)
       (sort_key fst q))"

text \<open>
  \<open>url.URL.String\<close> for a URL with a scheme, a user with a password, a host and a query: \<open>/\<close> is put
  before a relative path, and the path \<open>*\<close> is not escaped.
\<close>

definition url_string ::
    "string \<Rightarrow> string \<Rightarrow> string \<Rightarrow> string \<Rightarrow> string \<Rightarrow> string \<Rightarrow> string" where
  "url_string scheme user password host path query =
     (let p = (if path = ''*'' then ''*'' else url_escape EncodePath path)
      in scheme @ ''://'' @ url_escape EncodeUserPassword user @ '':'' @ url_escape EncodeUserPassword password
         @ ''@'' @ url_escape EncodeHost host
         @ (if p \<noteq> [] \<and> hd p \<noteq> CHR ''/'' then ''/'' else []) @ p
         @ (if query \<noteq> [] then ''?'' @ query else []))"

definition dsn_query :: "config \<Rightarrow> (string \<times> string) list" where
  "dsn_query c = (''sslmode'', DBSSLMode c) #
     (if DBSSLRootCert c \<noteq> [] \<and> requiresDBSSLRootCert (DBSSLMode c)
      then [(''sslrootcert'', DBSSLRootCert c)] else [])"

definition GetDatabaseDSN :: "(string \<Rightarrow> string + string) \<Rightarrow> config \<Rightarrow> go_error + string" where
  "GetDatabaseDSN readFile c =
     (case readFile (DBPasswordFile c) of
        Inl err \<Rightarrow> Inl (Wrapf ''failed to read database password file: %w'' [] (External err))
      | Inr bytes \<Rightarrow>
          Inr (url_string ''postgres'' (DBUser c) (TrimSpace bytes)
            (DBHost c @ '':'' @ show_int (sint (DBPort c))) (DBName c) (encode_query (dsn_query c))))"

end
