(* ===== verification/Startup.thy ===== *)
theory Startup
  imports Config Metrics
begin

text \<open>
  \<open>migrations/embed.go\<close>, the embedded migrations, and \<open>run\<close> of \<open>cmd/consumer/main.go\<close>, which starts
  the service and takes it down. The embedded files and every action on the outside are parameters.
\<close>

section \<open>Migrations\<close>

record dir_entry =
  entry_Name :: string
  entry_IsDir :: bool

definition has_suffix :: "string \<Rightarrow> string \<Rightarrow> bool" where
  "has_suffix suffix s \<longleftrightarrow> length suffix \<le> length s \<and> drop (length s - length suffix) s = suffix"

text \<open>The files to run; \<open>sort.Strings\<close> orders them byte by byte.\<close>

definition migration_files :: "dir_entry list \<Rightarrow> string list" where
  "migration_files entries =
     sort (map entry_Name (filter (\<lambda>e. \<not> (entry_IsDir e \<or> \<not> has_suffix ''.sql'' (entry_Name e))) entries))"

fun run_migrations ::
    "(string \<Rightarrow> string + string) \<Rightarrow> (string \<Rightarrow> 'x \<Rightarrow> string option \<times> 'x) \<Rightarrow> string list \<Rightarrow> 'x
      \<Rightarrow> go_error option \<times> 'x" where
  "run_migrations readFile exec [] x = (None, x)"
| "run_migrations readFile exec (name # names) x =
     (case readFile name of
        Inl err \<Rightarrow> (Some (Wrapf ''read embedded migration %s: %w'' [FS name] (External err)), x)
      | Inr statement \<Rightarrow>
          (case exec statement x of
             (Some err, x1) \<Rightarrow> (Some (Wrapf ''apply embedded migration %s: %w'' [FS name] (External err)), x1)
           | (None, x1) \<Rightarrow> run_migrations readFile exec names x1))"

definition Apply ::
    "(string + dir_entry list) \<Rightarrow> (string \<Rightarrow> string + string) \<Rightarrow> (string \<Rightarrow> 'x \<Rightarrow> string option \<times> 'x)
      \<Rightarrow> 'x \<Rightarrow> go_error option \<times> 'x" where
  "Apply readDir readFile exec x =
     (case readDir of
        Inl err \<Rightarrow> (Some (Wrapf ''list embedded migrations: %w'' [] (External err)), x)
      | Inr entries \<Rightarrow> run_migrations readFile exec (migration_files entries) x)"

section \<open>Starting and stopping the service\<close>

definition natsRRTimeout :: duration where "natsRRTimeout = 5 * second"
definition telemetryBatchSize :: i64 where "telemetryBatchSize = 100"
definition telemetryFlushInterval :: duration where "telemetryFlushInterval = 500 * millisecond"

text \<open>
  The actions of \<open>run\<close> on the outside, with the arguments it computes for them, and the actions it
  defers. \<open>MakeTracker\<close> reads the clock; the actions that start a goroutine return at once.
\<close>

datatype startup_op =
    ConnectNATS string string string string duration
  | OpenJetStream
  | ParsePoolConfig string
  | NotifySignals
  | OpenPool "32 word" "32 word"
  | ApplyMigrations
  | MakeTracker i64 duration
  | ServeMetrics string
  | RunAlertCache i64 duration i64 i64 i64
  | RunTickTimer duration
  | RunDecommissionConsumer
  | RunTelemetryConsumer string i64 duration
  | ShutdownMetrics
  | CloseTracker
  | ClosePool
  | StopSignals
  | DrainNATS

text \<open>
  \<open>connectNATS\<close>: the connection with its options, by their values; the handler of reconnections is
  \<open>on_reconnect\<close> of \<open>Process\<close>. The timeout is a number of seconds, and its conversion can wrap.
\<close>

definition connectNATS :: "config \<Rightarrow> startup_op" where
  "connectNATS cfg = ConnectNATS (NATSUrl cfg) (NATSTlsCa cfg) (NATSTlsCert cfg) (NATSTlsKey cfg)
     (NATSConnectTimeoutSeconds cfg * second)"

type_synonym 'x actor = "startup_op \<Rightarrow> 'x \<Rightarrow> go_error option \<times> 'x"

text \<open>Deferred actions, the one deferred last in front; their errors are ignored.\<close>

definition unwind :: "'x actor \<Rightarrow> startup_op list \<Rightarrow> 'x \<Rightarrow> 'x" where
  "unwind act defers x = fold (\<lambda>op y. snd (act op y)) defers x"

definition attempt ::
    "'x actor \<Rightarrow> startup_op \<Rightarrow> string \<Rightarrow> startup_op list
      \<Rightarrow> ('x \<Rightarrow> (go_error option \<times> 'x) go_result) \<Rightarrow> 'x \<Rightarrow> (go_error option \<times> 'x) go_result" where
  "attempt act op msg defers continue x =
     (case act op x of
        (Some e, x1) \<Rightarrow> Ret (Some (Wrapf msg [] e), unwind act defers x1)
      | (None, x1) \<Rightarrow> continue x1)"

definition perform :: "'x actor \<Rightarrow> startup_op \<Rightarrow> 'x \<Rightarrow> 'x" where
  "perform act op x = snd (act op x)"

text \<open>The second half of \<open>run\<close>: the service, once the database is ready.\<close>

definition run_service :: "'x actor \<Rightarrow> config \<Rightarrow> 'x \<Rightarrow> (go_error option \<times> 'x) go_result" where
  "run_service act cfg x =
     (if sint (GatewayBufferSize cfg) < 0 then Panic ''makechan: size out of range''
      else
        let x1 = perform act (MakeTracker (GatewayBufferSize cfg) (of_ms (HeartbeatGracePeriodMs cfg))) x;
            x2 = perform act (ServeMetrics (MetricsAddr cfg)) x1;
            x3 = perform act (RunAlertCache (AlertConfigDefaultTimeoutMs cfg) (of_ms (AlertConfigRefreshMs cfg))
                   (AlertConfigMaxRetries cfg) (AlertConfigInitialBackoffMs cfg)
                   (AlertConfigMaxBackoffMs cfg)) x2;
            x4 = perform act (RunTickTimer (of_ms (HeartbeatTickMs cfg))) x3;
            x5 = perform act RunDecommissionConsumer x4;
            defers = [ShutdownMetrics, CloseTracker, ClosePool, StopSignals, DrainNATS]
        in attempt act
             (RunTelemetryConsumer (NATSConsumerDurableName cfg) telemetryBatchSize telemetryFlushInterval)
             ''telemetry consumer: %w'' defers
             (\<lambda>x6. Ret (None, unwind act defers x6)) x5)"

text \<open>\<open>int32(n)\<close> of an \<open>int\<close> keeps the low 32 bits.\<close>

definition int32_of :: "i64 \<Rightarrow> 32 word" where
  "int32_of n = ucast n"

definition run_main ::
    "environment \<Rightarrow> (string \<Rightarrow> string + string) \<Rightarrow> ('x \<Rightarrow> 'x go_result) \<Rightarrow> 'x actor \<Rightarrow> 'x
      \<Rightarrow> (go_error option \<times> 'x) go_result" where
  "run_main env readFile newMetrics act x =
     (case Load env of
        (cfg, Some err) \<Rightarrow> Ret (Some (Wrapf ''load config: %w'' [] err), x)
      | (cfg, None) \<Rightarrow>
          (case GetDatabaseDSN readFile cfg of
             Inl err \<Rightarrow> Ret (Some (Wrapf ''build database DSN: %w'' [] err), x)
           | Inr dsn \<Rightarrow>
               go_bind (newMetrics x)
               (attempt act (connectNATS cfg) ''nats connect: %w'' []
               (attempt act OpenJetStream ''nats jetstream context: %w'' [DrainNATS]
               (attempt act (ParsePoolConfig dsn) ''parse pool config: %w'' [DrainNATS]
               (\<lambda>x1. attempt act (OpenPool (int32_of (DBMaxConns cfg)) (int32_of (DBMinConns cfg)))
                   ''create pgxpool: %w'' [StopSignals, DrainNATS]
               (attempt act ApplyMigrations ''apply database migrations: %w''
                   [ClosePool, StopSignals, DrainNATS]
               (run_service act cfg)) (perform act NotifySignals x1)))))))"

end
