(* ===== verification/Config_Props.thy ===== *)
theory Config_Props
  imports Config
begin

text \<open>
  Properties of the configuration: numbers are read back as they are printed, a configuration that
  loads satisfies what the service relies on, and the DSN keeps the secrets inside their fields.
\<close>

section \<open>Numbers\<close>

text \<open>
  Every integer of the configuration that is printed in decimal is read back as itself by
  the loader's two number parsers.
\<close>

theorem decimal_round_trip:
  "parseInt (show_int (sint n)) = Inr (Some n) \<and> parseInt64 (show_int (sint n)) = Inr (Some n)"
  by (simp add: parseInt_def parseInt64_def Atoi_def ParseInt_def parse_show_int)

section \<open>Loading\<close>

text \<open>A call of the loader keeps an error that is there, and otherwise leaves the other fields.\<close>

lemma require_err: "ld_err (require env key dst l) = None \<longleftrightarrow> ld_err l = None \<and> env key \<noteq> []"
  by (simp add: require_def)

lemma require_cfg: "ld_err (require env key dst l) = None \<Longrightarrow>
    ld_cfg (require env key dst l) = dst (env key) (ld_cfg l)"
  by (auto simp: require_def split: if_splits)

lemma opt_err: "ld_err (opt_parsed parse env key dst l) = None \<longleftrightarrow>
    ld_err l = None \<and> \<not> isl (parse (env key))"
  by (auto simp: opt_parsed_def split: sum.splits option.splits)

lemma opt_cfg: "ld_err (opt_parsed parse env key dst l) = None \<Longrightarrow>
    ld_cfg (opt_parsed parse env key dst l) =
      (case projr (parse (env key)) of None \<Rightarrow> ld_cfg l | Some v \<Rightarrow> dst v (ld_cfg l))"
  by (auto simp: opt_parsed_def split: sum.splits option.splits if_splits)

lemmas loader_calls = require_err require_cfg opt_err opt_cfg

definition required_vars :: "string list" where
  "required_vars = [''NATS_URL'', ''NATS_TLS_CA'', ''NATS_TLS_CERT'', ''NATS_TLS_KEY'', ''DB_HOST'',
     ''DB_NAME'', ''DB_USER'', ''DB_PASSWORD_FILE'']"

definition int_vars :: "string list" where
  "int_vars = [''DB_PORT'', ''NATS_CONNECT_TIMEOUT_SECONDS'', ''DB_MAX_CONNS'', ''DB_MIN_CONNS'',
     ''GATEWAY_BUFFER_SIZE'', ''HEARTBEAT_TICK_MS'', ''HEARTBEAT_GRACE_PERIOD_MS'',
     ''ALERT_CONFIG_REFRESH_MS'', ''ALERT_CONFIG_DEFAULT_TIMEOUT_MS'', ''ALERT_CONFIG_MAX_RETRIES'',
     ''ALERT_CONFIG_INITIAL_BACKOFF_MS'', ''ALERT_CONFIG_MAX_BACKOFF_MS'']"

definition int_ok :: "environment \<Rightarrow> string \<Rightarrow> bool" where
  "int_ok env key \<longleftrightarrow> env key = [] \<or> \<not> isl (parse_decimal (env key))"

lemma parse_ok: "\<not> isl (parseInt (env key)) \<longleftrightarrow> int_ok env key" "\<not> isl (parseInt64 (env key)) \<longleftrightarrow> int_ok env key"
  by (auto simp: parseInt_def parseInt64_def Atoi_def ParseInt_def int_ok_def split: sum.splits)

lemma fold_require_err:
  "ld_err (fold (\<lambda>(key, dst). require env key dst) ks l) = None \<longleftrightarrow>
     ld_err l = None \<and> (\<forall>(key, dst) \<in> set ks. env key \<noteq> [])"
  by (induction ks arbitrary: l) (auto simp: require_err)

lemma fold_int_err:
  "ld_err (fold (\<lambda>(key, dst). optInt env key dst) ks l) = None \<longleftrightarrow>
     ld_err l = None \<and> (\<forall>(key, dst) \<in> set ks. int_ok env key)"
  by (induction ks arbitrary: l) (auto simp: optInt_def opt_err parse_ok)

lemma load_required_err: "ld_err (load_required env l) = None \<longleftrightarrow>
    ld_err l = None \<and> (\<forall>key \<in> set required_vars. env key \<noteq> [])"
  by (simp only: load_required_def fold_require_err) (simp add: required_vars_def)

lemma load_optional_err: "ld_err (load_optional env l) = None \<longleftrightarrow>
    ld_err l = None \<and> (\<forall>key \<in> set int_vars. int_ok env key)"
  by (simp only: load_optional_def Let_def fold_int_err optInt64_def opt_err parse_ok)
     (auto simp: int_vars_def)

text \<open>The TLS mode is not touched by the loader's calls.\<close>

lemma fold_keeps:
  assumes "\<And>x l. x \<in> set xs \<Longrightarrow> P l \<Longrightarrow> P (f x l)" and "P l"
  shows "P (fold f xs l)"
  using assms by (induction xs arbitrary: l) auto

lemma load_required_mode [simp]:
  "DBSSLMode (ld_cfg (load_required env l)) = DBSSLMode (ld_cfg l)"
  "DBSSLRootCert (ld_cfg (load_required env l)) = DBSSLRootCert (ld_cfg l)"
  unfolding load_required_def
  by (rule fold_keeps [where P = "\<lambda>l'. DBSSLMode (ld_cfg l') = DBSSLMode (ld_cfg l)"];
      auto simp: require_def)
     (rule fold_keeps [where P = "\<lambda>l'. DBSSLRootCert (ld_cfg l') = DBSSLRootCert (ld_cfg l)"];
      auto simp: require_def)

lemma load_optional_mode [simp]:
  "DBSSLMode (ld_cfg (load_optional env l)) = DBSSLMode (ld_cfg l)"
  "DBSSLRootCert (ld_cfg (load_optional env l)) = DBSSLRootCert (ld_cfg l)"
proof -
  let ?P = "\<lambda>l'. DBSSLMode (ld_cfg l') = DBSSLMode (ld_cfg l)
    \<and> DBSSLRootCert (ld_cfg l') = DBSSLRootCert (ld_cfg l)"
  have opt: "?P (opt_parsed parse env key dst l')"
    if "?P l'" "\<And>v c. DBSSLMode (dst v c) = DBSSLMode c \<and> DBSSLRootCert (dst v c) = DBSSLRootCert c"
    for parse key dst l'
    using that by (auto simp: opt_parsed_def split: sum.splits option.splits)
  have "?P (load_optional env l)"
    unfolding load_optional_def Let_def optInt64_def optInt_def
    by (rule fold_keeps, (auto intro!: opt)[1], rule opt, rule fold_keeps) (auto intro!: opt)
  then show "DBSSLMode (ld_cfg (load_optional env l)) = DBSSLMode (ld_cfg l)"
    "DBSSLRootCert (ld_cfg (load_optional env l)) = DBSSLRootCert (ld_cfg l)" by simp_all
qed

lemma load_validate_err: "ld_err (load_validate l) = None \<longleftrightarrow>
    ld_err l = None \<and> validateDBSSLMode (DBSSLMode (ld_cfg l)) = None
    \<and> (requiresDBSSLRootCert (DBSSLMode (ld_cfg l)) \<longrightarrow> DBSSLRootCert (ld_cfg l) \<noteq> [])"
  by (auto simp: load_validate_def Let_def split: option.splits)

lemma load_validate_cfg [simp]: "ld_cfg (load_validate l) = ld_cfg l"
  by (auto simp: load_validate_def Let_def split: option.splits)

definition ssl_mode :: "environment \<Rightarrow> string" where
  "ssl_mode env = envOrDefault env ''DB_SSL_MODE'' ''require''"

text \<open>
  C36. \<open>Load\<close> succeeds exactly if all eight required variables are set, every numeric variable that is
  set is a decimal number of 64 bits, the TLS mode is one of the four known ones, and a root
  certificate is given whenever the mode verifies the server.
\<close>

theorem load_succeeds_iff:
  "snd (Load env) = None \<longleftrightarrow>
     (\<forall>key \<in> set required_vars. env key \<noteq> []) \<and> (\<forall>key \<in> set int_vars. int_ok env key)
     \<and> ssl_mode env \<in> {''disable'', ''require'', ''verify-ca'', ''verify-full''}
     \<and> (ssl_mode env \<in> {''verify-ca'', ''verify-full''} \<longrightarrow> env ''DB_SSL_ROOT_CERT'' \<noteq> [])"
  by (auto simp: Load_def Let_def load_validate_err load_optional_err load_required_err ssl_mode_def
      initial_config_def validateDBSSLMode_def requiresDBSSLRootCert_def dbSSLModeDisable_def
      dbSSLModeRequire_def dbSSLModeVerifyCA_def dbSSLModeVerifyFull_def split: if_splits)

lemma require_stuck: "ld_err l \<noteq> None \<Longrightarrow> fold (\<lambda>(key, dst). require env key dst) ks l = l"
  by (induction ks) (auto simp: require_def)

lemma optInt_stuck: "ld_err l \<noteq> None \<Longrightarrow> fold (\<lambda>(key, dst). optInt env key dst) ks l = l"
  by (induction ks) (auto simp: optInt_def opt_parsed_def)

lemma load_optional_stuck: "ld_err l \<noteq> None \<Longrightarrow> load_optional env l = l"
  by (simp add: load_optional_def Let_def optInt_def optInt64_def opt_parsed_def)

definition missing :: "string \<Rightarrow> go_error" where
  "missing key = Errorf ''required environment variable %q is not set'' [FS key]"

lemma fold_require_missing:
  "ld_err l = None \<Longrightarrow> find (\<lambda>key. env key = []) (map fst ks) = Some key \<Longrightarrow>
     ld_err (fold (\<lambda>(key, dst). require env key dst) ks l) = Some (missing key)"
proof (induction ks arbitrary: l)
  case (Cons x ks)
  obtain k dst where x: "x = (k, dst)" by fastforce
  show ?case
  proof (cases "env k = []")
    case True
    with Cons.prems x have "require env k dst l = l\<lparr>ld_err := Some (missing key)\<rparr>"
      by (simp add: require_def missing_def)
    with x require_stuck [of "l\<lparr>ld_err := Some (missing key)\<rparr>"] show ?thesis by simp
  next
    case False
    with Cons.prems Cons.IH [of "require env k dst l"] x show ?thesis by (simp add: require_err)
  qed
qed simp

text \<open>
  When required variables are missing, the error names the first of them in the order of loading,
  whatever else is wrong with the environment.
\<close>

theorem first_missing_variable_reported:
  assumes "find (\<lambda>key. env key = []) required_vars = Some key"
  shows "snd (Load env) = Some (Errorf ''required environment variable %q is not set'' [FS key])"
proof -
  have "ld_err (load_required env l) = Some (missing key)" if "ld_err l = None" for l
    unfolding load_required_def
    by (rule fold_require_missing [OF that]) (use assms in \<open>simp add: required_vars_def\<close>)
  then show ?thesis
    by (simp add: Load_def Let_def load_optional_stuck load_validate_def missing_def)
qed

text \<open>What a numeric variable is worth: its value, or the default if it is not set.\<close>

definition int_value :: "environment \<Rightarrow> string \<Rightarrow> i64 \<Rightarrow> i64" where
  "int_value env key dflt = (if env key = [] then dflt else projr (parse_decimal (env key)))"

lemma optInt_ok:
  assumes "ld_err l = None" and "int_ok env key" and "\<And>c. dst (get c) c = c"
  shows "optInt env key dst l = l\<lparr>ld_cfg := dst (int_value env key (get (ld_cfg l))) (ld_cfg l)\<rparr>"
  using assms
  by (auto simp: optInt_def opt_parsed_def parseInt_def Atoi_def int_ok_def int_value_def split: sum.splits)

lemma optInt64_ok:
  assumes "ld_err l = None" and "int_ok env key" and "\<And>c. dst (get c) c = c"
  shows "optInt64 env key dst l = l\<lparr>ld_cfg := dst (int_value env key (get (ld_cfg l))) (ld_cfg l)\<rparr>"
  using assms
  by (auto simp: optInt64_def opt_parsed_def parseInt64_def ParseInt_def int_ok_def int_value_def
      split: sum.splits)

lemmas opt_fields =
  optInt_ok [where dst = "\<lambda>v c. c\<lparr>NATSConnectTimeoutSeconds := v\<rparr>" and get = NATSConnectTimeoutSeconds, simplified]
  optInt_ok [where dst = "\<lambda>v c. c\<lparr>DBPort := v\<rparr>" and get = DBPort, simplified]
  optInt_ok [where dst = "\<lambda>v c. c\<lparr>DBMaxConns := v\<rparr>" and get = DBMaxConns, simplified]
  optInt_ok [where dst = "\<lambda>v c. c\<lparr>DBMinConns := v\<rparr>" and get = DBMinConns, simplified]
  optInt_ok [where dst = "\<lambda>v c. c\<lparr>GatewayBufferSize := v\<rparr>" and get = GatewayBufferSize, simplified]
  optInt_ok [where dst = "\<lambda>v c. c\<lparr>HeartbeatTickMs := v\<rparr>" and get = HeartbeatTickMs, simplified]
  optInt_ok [where dst = "\<lambda>v c. c\<lparr>HeartbeatGracePeriodMs := v\<rparr>" and get = HeartbeatGracePeriodMs, simplified]
  optInt_ok [where dst = "\<lambda>v c. c\<lparr>AlertConfigRefreshMs := v\<rparr>" and get = AlertConfigRefreshMs, simplified]
  optInt_ok [where dst = "\<lambda>v c. c\<lparr>AlertConfigMaxRetries := v\<rparr>" and get = AlertConfigMaxRetries, simplified]
  optInt_ok [where dst = "\<lambda>v c. c\<lparr>AlertConfigInitialBackoffMs := v\<rparr>" and get = AlertConfigInitialBackoffMs, simplified]
  optInt_ok [where dst = "\<lambda>v c. c\<lparr>AlertConfigMaxBackoffMs := v\<rparr>" and get = AlertConfigMaxBackoffMs, simplified]
  optInt64_ok [where dst = "\<lambda>v c. c\<lparr>AlertConfigDefaultTimeoutMs := v\<rparr>"
    and get = AlertConfigDefaultTimeoutMs, simplified]

lemma require_ok: "ld_err l = None \<Longrightarrow> env key \<noteq> [] \<Longrightarrow>
    require env key dst l = l\<lparr>ld_cfg := dst (env key) (ld_cfg l)\<rparr>"
  by (simp add: require_def)


section \<open>The DSN\<close>

text \<open>Decoding of percent escapes, as a reader of the DSN does it.\<close>

definition hex_value :: "char \<Rightarrow> nat" where
  "hex_value c = (let n = of_char c in if n < 65 then n - 48 else n - 55)"

fun url_unescape :: "string \<Rightarrow> string" where
  "url_unescape [] = []"
| "url_unescape (c # cs) =
     (if c = CHR ''%'' then
        (case cs of
           a # b # rest \<Rightarrow> char_of (16 * hex_value a + hex_value b) # url_unescape rest
         | _ \<Rightarrow> c # url_unescape cs)
      else c # url_unescape cs)"

lemma hex_digit_value: "n < 16 \<Longrightarrow> hex_value (hex_digit n) = n \<and> is_alnum (hex_digit n)"
proof -
  have "\<forall>n \<in> {0..<16}. hex_value (hex_digit n) = n \<and> is_alnum (hex_digit n)"
    by (simp add: hex_digit_def hex_value_def is_alnum_def is_digit_def numeral_eq_Suc
        atLeastLessThanSuc)
  then show "n < 16 \<Longrightarrow> hex_value (hex_digit n) = n \<and> is_alnum (hex_digit n)" by simp
qed

lemma of_char_256: "(of_char c :: nat) < 256"
  by (metis nat_of_char_less_256)

lemma of_char_div_16: "(of_char c :: nat) div 16 < 16"
  by (rule less_mult_imp_div_less) (use of_char_256 [of c] in simp)

lemma unescape_char:
  assumes "mode \<noteq> EncodeQueryComponent"
  shows "url_unescape (escape_char mode c @ t) = c # url_unescape t"
proof (cases "should_escape c mode")
  case True
  let ?n = "of_char c :: nat"
  have "hex_value (hex_digit (?n div 16)) = ?n div 16" "hex_value (hex_digit (?n mod 16)) = ?n mod 16"
    using hex_digit_value [of "?n div 16"] hex_digit_value [of "?n mod 16"] of_char_div_16 [of c] by auto
  then have "char_of (16 * hex_value (hex_digit (?n div 16)) + hex_value (hex_digit (?n mod 16))) = c"
    by simp
  with True assms show ?thesis by (simp add: escape_char_def)
next
  case False
  then have "c \<noteq> CHR ''%''" by (auto simp: should_escape_def is_alnum_def is_digit_def)
  with False show ?thesis by (simp add: escape_char_def)
qed

lemma unescape_escape:
  "mode \<noteq> EncodeQueryComponent \<Longrightarrow> url_unescape (url_escape mode s) = s"
  by (induction s) (simp_all add: url_escape_def unescape_char)

lemma alnum_safe: "is_alnum c \<Longrightarrow> c \<notin> set ''@/?:''"
  by (auto simp: is_alnum_def is_digit_def)

lemma escape_char_safe: "set (escape_char EncodeUserPassword c) \<inter> set ''@/?:'' = {}"
proof (cases "should_escape c EncodeUserPassword")
  case True
  have "is_alnum (hex_digit (of_char c div 16))" "is_alnum (hex_digit (of_char c mod 16))"
    using hex_digit_value [of "of_char c div 16"] hex_digit_value [of "of_char c mod 16"] of_char_div_16 [of c]
    by auto
  with True show ?thesis using alnum_safe by (fastforce simp: escape_char_def)
next
  case False
  then have "c \<notin> set ''@/?:''"
    by (auto simp: should_escape_def is_alnum_def is_digit_def split: if_splits)
  with False show ?thesis by (auto simp: escape_char_def)
qed

lemma escape_safe: "set (url_escape EncodeUserPassword s) \<inter> set ''@/?:'' = {}"
proof -
  have "c \<notin> set ''@/?:''" if "c \<in> set (url_escape EncodeUserPassword s)" for c
  proof -
    from that obtain d where "c \<in> set (escape_char EncodeUserPassword d)" by (auto simp: url_escape_def)
    with escape_char_safe [of d] show ?thesis by blast
  qed
  then show ?thesis by blast
qed

text \<open>
  C37. The user and the password stay inside their fields of the DSN: neither field contains a
  separator of the URL, and decoding them gives back the user and the trimmed contents of the
  password file, whatever bytes these hold.
\<close>

theorem dsn_user_and_password:
  assumes "readFile (DBPasswordFile c) = Inr bytes"
  shows "\<exists>u p rest. GetDatabaseDSN readFile c = Inr (''postgres://'' @ u @ '':'' @ p @ ''@'' @ rest)
    \<and> url_unescape u = DBUser c \<and> url_unescape p = TrimSpace bytes
    \<and> (set u \<union> set p) \<inter> set ''@/?:'' = {}"
  using assms escape_safe [of "DBUser c"] escape_safe [of "TrimSpace bytes"]
  by (intro exI [of _ "url_escape EncodeUserPassword (DBUser c)"]
      exI [of _ "url_escape EncodeUserPassword (TrimSpace bytes)"] exI)
    (auto simp: GetDatabaseDSN_def url_string_def unescape_escape Let_def)

text \<open>
  The query of the DSN carries the TLS mode, and the root certificate exactly if the mode
  verifies the server and a certificate is configured.
\<close>

theorem dsn_tls_parameters:
  "encode_query (dsn_query c) = ''sslmode='' @ url_escape EncodeQueryComponent (DBSSLMode c)
     @ (if DBSSLRootCert c \<noteq> [] \<and> DBSSLMode c \<in> {''verify-ca'', ''verify-full''}
        then ''&sslrootcert='' @ url_escape EncodeQueryComponent (DBSSLRootCert c) else [])"
proof -
  have keys: "url_escape EncodeQueryComponent ''sslmode'' = ''sslmode''"
    "url_escape EncodeQueryComponent ''sslrootcert'' = ''sslrootcert''"
    by (simp_all add: url_escape_def escape_char_def should_escape_def is_alnum_def is_digit_def)
  have sorted: "sort_key fst [(''sslmode'', m), (''sslrootcert'', r)] = [(''sslmode'', m), (''sslrootcert'', r)]"
    for m r :: string
    by (simp add: less_eq_char_def)
  show ?thesis
    by (simp add: encode_query_def dsn_query_def sorted keys requiresDBSSLRootCert_def
        dbSSLModeVerifyCA_def dbSSLModeVerifyFull_def)
qed

section \<open>Witnesses\<close>

definition demo_environment :: environment where
  "demo_environment key =
     (if key \<in> set required_vars then ''x''
      else if key = ''DB_PORT'' then ''6543'' else if key = ''HEARTBEAT_TICK_MS'' then ''0'' else [])"

lemma demo_environment_ok: "\<forall>key \<in> set required_vars. demo_environment key \<noteq> []"
  "\<forall>key \<in> set int_vars. int_ok demo_environment key" "ssl_mode demo_environment = ''require''"
  by (simp_all add: demo_environment_def required_vars_def int_vars_def int_ok_def ssl_mode_def
      envOrDefault_def parse_decimal_def parse_signed_def is_digit_def digit_value_def)

lemma load_succeeds_iff_witness: "snd (Load demo_environment) = None"
  using load_succeeds_iff [of demo_environment] demo_environment_ok by simp

lemma first_missing_variable_reported_witness:
  "snd (Load (\<lambda>key. if key = ''NATS_URL'' then ''x'' else [])) =
     Some (Errorf ''required environment variable %q is not set'' [FS ''NATS_TLS_CA''])"
  by (rule first_missing_variable_reported) (simp add: required_vars_def)

lemma demo_environment_loads: "snd (Load demo_environment) = None"
  by (simp add: Load_def Let_def load_validate_err load_optional_err load_required_err
      demo_environment_ok initial_config_def validateDBSSLMode_def requiresDBSSLRootCert_def
      demo_environment_ok(3) [unfolded ssl_mode_def] dbSSLModeRequire_def dbSSLModeDisable_def
      dbSSLModeVerifyCA_def dbSSLModeVerifyFull_def)


lemma dsn_user_and_password_witness:
  "\<exists>u p rest. GetDatabaseDSN (\<lambda>path. Inr ('' p@ss/word'' @ [CHR 0x0A]))
      ((initial_config demo_environment)\<lparr>DBUser := ''us:er''\<rparr>)
     = Inr (''postgres://'' @ u @ '':'' @ p @ ''@'' @ rest)
   \<and> url_unescape p = ''p@ss/word'' \<and> set p \<inter> set ''@/?:'' = {}"
proof -
  have "TrimSpace ('' p@ss/word'' @ [CHR 0x0A]) = ''p@ss/word''" by code_simp
  with dsn_user_and_password [of "\<lambda>path. Inr ('' p@ss/word'' @ [CHR 0x0A])"
      "(initial_config demo_environment)\<lparr>DBUser := ''us:er''\<rparr>" "'' p@ss/word'' @ [CHR 0x0A]"]
  show ?thesis by auto
qed

end
