(* ===== verification/Startup_Props.thy ===== *)
theory Startup_Props
  imports Startup Config_Props "HOL-Library.Multiset"
begin

text \<open>
  Properties of the migrations and of starting and stopping the service.
\<close>

section \<open>Migrations\<close>

lemma run_migrations_log:
  assumes "\<And>st x. log (snd (exec st x)) = log x @ [(st, fst (exec st x))]"
    and "\<forall>name \<in> set names. \<not> isl (readFile name)"
    and "run_migrations readFile exec names x = (r, x')"
  shows "\<exists>n \<le> length names. case r of
      None \<Rightarrow> n = length names \<and>
        log x' = log x @ map (\<lambda>name. (projr (readFile name), None)) names
    | Some e \<Rightarrow> n < length names \<and> (\<exists>err.
        e = Wrapf ''apply embedded migration %s: %w'' [FS (names ! n)] (External err)
        \<and> log x' = log x @ map (\<lambda>name. (projr (readFile name), None)) (take n names)
            @ [(projr (readFile (names ! n)), Some err)])"
  using assms(2,3)
proof (induction names arbitrary: x)
  case (Cons name names)
  obtain st where st: "readFile name = Inr st" using Cons.prems(1) by (cases "readFile name") auto
  obtain e x1 where e: "exec st x = (e, x1)" by fastforce
  with assms(1) have l: "log x1 = log x @ [(st, e)]" by (metis fst_conv snd_conv)
  show ?case
  proof (cases e)
    case (Some err)
    with Cons.prems st e l show ?thesis by (intro exI [of _ 0]) auto
  next
    case None
    with Cons.prems st e have rest: "run_migrations readFile exec names x1 = (r, x')" by simp
    from Cons.IH [OF _ this] Cons.prems(1) obtain n where n: "n \<le> length names" and
      c: "case r of
      None \<Rightarrow> n = length names \<and>
        log x' = log x1 @ map (\<lambda>name. (projr (readFile name), None)) names
    | Some e \<Rightarrow> n < length names \<and> (\<exists>err.
        e = Wrapf ''apply embedded migration %s: %w'' [FS (names ! n)] (External err)
        \<and> log x' = log x1 @ map (\<lambda>name. (projr (readFile name), None)) (take n names)
            @ [(projr (readFile (names ! n)), Some err)])" by auto
    from n c l st None show ?thesis by (intro exI [of _ "Suc n"]) (cases r; auto)
  qed
qed auto

text \<open>
  The migrations are the \<open>.sql\<close> files of the embedded directory, each run once in the order of
  their names. The first one that fails stops the run and is named in the error, and nothing is run
  after it.
\<close>

theorem migrations_run_in_order:
  assumes "\<And>st x. log (snd (exec st x)) = log x @ [(st, fst (exec st x))]"
    and "\<forall>name \<in> set (migration_files entries). \<not> isl (readFile name)"
    and "Apply (Inr entries) readFile exec x = (r, x')"
  shows "sorted (migration_files entries)
    \<and> mset (migration_files entries) = mset (map entry_Name
        (filter (\<lambda>e. \<not> entry_IsDir e \<and> has_suffix ''.sql'' (entry_Name e)) entries))
    \<and> (case r of
         None \<Rightarrow> log x' = log x @ map (\<lambda>name. (projr (readFile name), None)) (migration_files entries)
       | Some e \<Rightarrow> \<exists>n err. n < length (migration_files entries)
           \<and> e = Wrapf ''apply embedded migration %s: %w'' [FS (migration_files entries ! n)] (External err)
           \<and> log x' = log x
               @ map (\<lambda>name. (projr (readFile name), None)) (take n (migration_files entries))
               @ [(projr (readFile (migration_files entries ! n)), Some err)])"
proof -
  from assms(3) have "run_migrations readFile exec (migration_files entries) x = (r, x')"
    by (simp add: Apply_def)
  from run_migrations_log [OF assms(1,2) this]
  show ?thesis by (auto simp: migration_files_def split: option.splits)
qed

section \<open>Startup and shutdown\<close>

definition startup_sequence :: "config \<Rightarrow> string \<Rightarrow> startup_op list" where
  "startup_sequence cfg dsn =
     [ConnectNATS (NATSUrl cfg) (NATSTlsCa cfg) (NATSTlsCert cfg) (NATSTlsKey cfg)
        (NATSConnectTimeoutSeconds cfg * second),
      OpenJetStream, ParsePoolConfig dsn, NotifySignals,
      OpenPool (int32_of (DBMaxConns cfg)) (int32_of (DBMinConns cfg)), ApplyMigrations,
      MakeTracker (GatewayBufferSize cfg) (of_ms (HeartbeatGracePeriodMs cfg)),
      ServeMetrics (MetricsAddr cfg),
      RunAlertCache (AlertConfigDefaultTimeoutMs cfg) (of_ms (AlertConfigRefreshMs cfg))
        (AlertConfigMaxRetries cfg) (AlertConfigInitialBackoffMs cfg) (AlertConfigMaxBackoffMs cfg),
      RunTickTimer (of_ms (HeartbeatTickMs cfg)), RunDecommissionConsumer,
      RunTelemetryConsumer (NATSConsumerDurableName cfg) telemetryBatchSize telemetryFlushInterval]"

text \<open>What releases what an action acquired.\<close>

fun release_of :: "startup_op \<Rightarrow> startup_op list" where
  "release_of (ConnectNATS _ _ _ _ _) = [DrainNATS]"
| "release_of NotifySignals = [StopSignals]"
| "release_of (OpenPool _ _) = [ClosePool]"
| "release_of (MakeTracker _ _) = [CloseTracker]"
| "release_of (ServeMetrics _) = [ShutdownMetrics]"
| "release_of _ = []"

definition releases :: "startup_op list \<Rightarrow> startup_op list" where
  "releases ops = rev (concat (map release_of ops))"

text \<open>
  The run that stops after the action number \<open>n\<close>, which fails or is the last one: what was acquired
  before is released in reverse order.
\<close>

definition stopped_at :: "startup_op list \<Rightarrow> nat \<Rightarrow> startup_op list" where
  "stopped_at ops n = take (Suc n) ops @ releases (take n ops)"

lemma unwind_log:
  assumes "\<And>op x. log (snd (act op x)) = log x @ [op]"
  shows "log (unwind act ops x) = log x @ ops"
  by (induction ops arbitrary: x) (simp_all add: unwind_def assms)

lemma perform_log:
  assumes "\<And>op x. log (snd (act op x)) = log x @ [op]"
  shows "log (perform act op x) = log x @ [op]"
  by (simp add: perform_def assms)

lemma attempt_log:
  assumes act: "\<And>op x. log (snd (act op x)) = log x @ [op]"
    and run: "attempt act op msg defers continue x = Ret (r, x')"
  obtains (failed) e where "r = Some (Wrapf msg [] e)" "log x' = log x @ [op] @ defers"
    | (went_on) x1 where "log x1 = log x @ [op]" "continue x1 = Ret (r, x')"
proof -
  obtain e x1 where a: "act op x = (e, x1)" by fastforce
  with act have l: "log x1 = log x @ [op]" by (metis snd_conv)
  show thesis
  proof (cases e)
    case None
    with a run l show ?thesis by (intro went_on) (auto simp: attempt_def)
  next
    case (Some err)
    with a run l unwind_log [OF act] show ?thesis by (intro failed) (auto simp: attempt_def)
  qed
qed

lemma run_service_log:
  assumes act: "\<And>op x. log (snd (act op x)) = log x @ [op]"
    and "log x = l0 @ take 6 (startup_sequence cfg dsn)" and "run_service act cfg x = Ret (r, x')"
  shows "log x' = l0 @ stopped_at (startup_sequence cfg dsn) 11"
proof -
  note logs = perform_log [OF act] unwind_log [OF act]
  from assms(3) show ?thesis
    unfolding run_service_def Let_def
    by (auto split: if_splits elim!: attempt_log [OF act])
       (simp_all add: logs assms(2) stopped_at_def releases_def startup_sequence_def)
qed

lemma run_database_log:
  assumes act: "\<And>op x. log (snd (act op x)) = log x @ [op]"
    and x4: "log x = l0 @ take 4 (startup_sequence cfg dsn)"
    and run: "attempt act (OpenPool (int32_of (DBMaxConns cfg)) (int32_of (DBMinConns cfg)))
        ''create pgxpool: %w'' [StopSignals, DrainNATS]
        (attempt act ApplyMigrations ''apply database migrations: %w'' [ClosePool, StopSignals, DrainNATS]
          (run_service act cfg)) x = Ret (r, x')"
  shows "\<exists>n < 12. log x' = l0 @ stopped_at (startup_sequence cfg dsn) n \<and> (r = None \<longrightarrow> n = 11)"
proof -
  note sim = stopped_at_def releases_def startup_sequence_def numeral_eq_Suc
  note step = attempt_log [where log = log, OF act]
  show ?thesis
  proof (cases rule: step [OF run])
    case (1 e)
    then show ?thesis using x4 by (intro exI [of _ 4]) (simp add: sim)
  next
    case pool: (2 x5)
    show ?thesis
    proof (cases rule: step [OF pool(2)])
      case (1 e)
      then show ?thesis using x4 pool by (intro exI [of _ 5]) (simp add: sim)
    next
      case migrated: (2 x6)
      have "log x6 = l0 @ take 6 (startup_sequence cfg dsn)" using x4 pool migrated by (simp add: sim)
      from run_service_log [where log = log, OF act this migrated(2)]
      show ?thesis by (intro exI [of _ 11]) simp
    qed
  qed
qed


text \<open>
  The sizes of the connection pool are cut to 32 bits: a value is handed on unchanged exactly if
  it lies within them, and otherwise becomes another number.
\<close>

theorem pool_size_truncated:
  "sint (int32_of n) = sint n \<longleftrightarrow> - (2 ^ 31) \<le> sint n \<and> sint n < 2 ^ 31"
proof
  assume "sint (int32_of n) = sint n"
  then show "- (2 ^ 31) \<le> sint n \<and> sint n < 2 ^ 31"
    using sint_lt [of "int32_of n"] sint_ge [of "int32_of n"] by simp
next
  assume "- (2 ^ 31) \<le> sint n \<and> sint n < 2 ^ 31"
  then have "signed_take_bit 31 (sint n) = sint n" by (simp add: signed_take_bit_int_eq_self)
  then show "sint (int32_of n) = sint n"
    unfolding int32_of_def
    by transfer (simp add: signed_take_bit_take_bit signed_take_bit_signed_take_bit)
qed

section \<open>Witnesses\<close>

definition demo_dir :: "dir_entry list" where
  "demo_dir = map (\<lambda>n. \<lparr>entry_Name = n, entry_IsDir = False\<rparr>) [''002.sql'', ''embed.go'', ''001.sql'']"

definition demo_exec :: "string \<Rightarrow> (string \<times> string option) list
    \<Rightarrow> string option \<times> (string \<times> string option) list" where
  "demo_exec st x = (let r = (if st = ''B'' then Some ''syntax error'' else None) in (r, x @ [(st, r)]))"

definition demo_file :: "string \<Rightarrow> string + string" where
  "demo_file name = Inr (if name = ''002.sql'' then ''B'' else ''A'')"

lemma demo_migrations: "migration_files demo_dir = [''001.sql'', ''002.sql'']"
  by (simp add: migration_files_def demo_dir_def has_suffix_def less_eq_char_def less_char_def)

lemma migrations_run_in_order_witness:
  "Apply (Inr demo_dir) demo_file demo_exec [] =
     (Some (Wrapf ''apply embedded migration %s: %w'' [FS ''002.sql''] (External ''syntax error'')),
      [(''A'', None), (''B'', Some ''syntax error'')])
   \<and> sorted (migration_files demo_dir)"
proof -
  have log: "snd (demo_exec st x) = x @ [(st, fst (demo_exec st x))]" for st x
    by (simp add: demo_exec_def Let_def)
  have run: "Apply (Inr demo_dir) demo_file demo_exec [] =
     (Some (Wrapf ''apply embedded migration %s: %w'' [FS ''002.sql''] (External ''syntax error'')),
      [(''A'', None), (''B'', Some ''syntax error'')])"
    by (simp add: Apply_def demo_migrations demo_file_def demo_exec_def Let_def)
  from migrations_run_in_order [where log = "\<lambda>x. x", OF log _ run] run show ?thesis
    by (simp add: demo_file_def)
qed

definition demo_act :: "startup_op list actor" where
  "demo_act op x = ((if op = OpenJetStream then Some (External ''jetstream not enabled'') else None), x @ [op])"


end
