(* ===== verification/System_Props.thy ===== *)
theory System_Props
  imports Tracker_Metrics Tracker_Props Alert_Cache_Props Driving_Props Telemetry_Props Startup_Props
begin

text \<open>
  Properties that span components, over the ports as the service wires them: the tracker's metrics
  against its state, the timeouts of the cache against the decisions of a tick, and a telemetry
  message from its subject to the tracker and its row.
\<close>

section \<open>Metrics of the tracker\<close>

text \<open>
  With the service's adapters, a tick counts as many published alerts as it takes gateways from
  online to offline, and leaves the gauge of the map as it is.
\<close>

theorem alerts_counted_per_transition:
  assumes "tracker_inv t" and "iteration_order order t"
    and "Tick (service_ports J js rr now snap dflt) order (t, w) = Ret (t', w')"
  shows "AlertsPublished (mtr w') = AlertsPublished (mtr w) + card (went_offline t t')
    \<and> HeartbeatMapSize (mtr w') = HeartbeatMapSize (mtr w)"
proof -
  let ?P = "service_ports J js rr now snap dflt"
  let ?fired = "fired_entries (Tick_verdicts ?P order (t, w))"
  from fired_distinct [OF assms(1,2), of ?P w]
  have "card (set (map entry_key ?fired)) = length ?fired" using distinct_card by fastforce
  with went_offline_fired [OF assms] have "card (went_offline t t') = length ?fired"
    by (simp add: fired_keys_def)
  with service.reads_Tick [OF assms(3)] show ?thesis
    by (simp add: service.reads_def)
qed

text \<open>
  With the service's adapters, the gauge of the heartbeat map is the number of gateways tracked,
  after any run of calls on a new tracker.
\<close>

theorem map_gauge_is_exact:
  assumes "NewHeartbeatTracker (service_ports J js rr now snap dflt) n grace w0 = Ret s0"
    and "HeartbeatMapSize (mtr w0) = 0"
    and "exec_calls (service_ports J js rr now snap dflt) s0 calls (t, w)"
  shows "HeartbeatMapSize (mtr w) = int (card (dom (beats t)))"
  using service.exec_calls_gauge [OF assms(3) service.new_gauge [OF assms(1,2)]]
  by (simp add: service.gauge_ok_def tracked_def)

section \<open>The cache and the tick\<close>

text \<open>
  While the cache holds a given list of configurations, a tick takes a gateway offline only if
  its last heartbeat is at least as old as the timeout configured for it in that list: its own, else
  its tenant's, else the default.
\<close>

theorem offline_only_after_configured_timeout:
  fixes J js rr now snap dflt
  defines "P \<equiv> service_ports J js rr now snap dflt"
  assumes "tracker_inv t" and "iteration_order order t" and "Tick P order (t, w) = Ret (t', w')"
    and "\<And>x. \<exists>at. snap x = build_snapshot configs at" and "slash_free configs"
    and "beats t (GatewayKey tenant gw) = Some e" and "knownStatus e = Online"
    and "beats t' (GatewayKey tenant gw) = Some e'" and "knownStatus e' = Offline"
    and "CHR ''/'' \<notin> set tenant"
    and "- max_ms \<le> sint (configured configs dflt tenant gw)"
    and "sint (configured configs dflt tenant gw) \<le> max_ms"
  shows "lastSeen e + sint (configured configs dflt tenant gw) * 1000000 \<le> tick_now P w"
proof -
  let ?k = "GatewayKey tenant gw"
  from assms(7-10) have "?k \<in> went_offline t t'"
    by (simp add: went_offline_def fleet_of_def)
  with went_offline_fired [OF assms(2-4)] have "?k \<in> fired_keys (Tick_verdicts P order (t, w))" by simp
  from fired_was_online [OF assms(2,3) this] assms(7) obtain w1
    where "goes_offline P (tick_now P w) e w1"
    unfolding goes_offline_Fired tick_now_def by auto
  moreover have "he_tenantID e = tenant" "he_gatewayID e = gw"
    using tracker_invD(2) [OF assms(2,7)] by (simp_all add: entry_key_def)
  moreover have "TimeoutFor P tenant gw w1 = configured configs dflt tenant gw"
    using assms(5) [of "ext w1"] snapshot_timeout_configured [OF assms(6,11)]
    by (auto simp: P_def service_ports_def)
  ultimately show ?thesis
    using of_ms_exact [OF assms(12,13)] by (auto simp: goes_offline_def Let_def split: prod.splits)
qed

section \<open>A telemetry message\<close>

text \<open>
  A telemetry message that can be decoded, while the dispatch channel is open: the gateway of the
  envelope is online in the tracker with the clock's reading as its last heartbeat, no other gateway
  changes, and the row to be written holds the tenant of the subject and the envelope verbatim, its
  encrypted fields untouched.
\<close>

theorem telemetry_message_effect:
  assumes "tc_handler c = tracker_handler P" and "\<not> dispatchClosed (fst (ext w))"
    and "msg_Subject msg = join_with ''.'' [''telemetry'', ''data'', tenant, gw]"
    and "CHR ''.'' \<notin> set tenant" and "CHR ''.'' \<notin> set gw"
    and "dec_envelope J (msg_Data msg) = Inr env"
  shows "\<exists>w' e. on_message J c msg w
      = Ret (\<lparr>pm_msg = msg, pm_row = buildRow tenant env, pm_err = None\<rparr>, w')
    \<and> beats (fst (ext w')) = (beats (fst (ext w)))(GatewayKey tenant (env_GatewayID env) \<mapsto> e)
    \<and> knownStatus e = Online
    \<and> lastSeen e = fst (clock_Now P (snd (tracker_view (with_metrics IncMessagesReceived w))))"
proof -
  let ?w = "with_metrics IncMessagesReceived w"
  obtain t w1 where v: "tracker_view ?w = (t, w1)" by fastforce
  then have t: "t = fst (ext w)" by (auto simp: tracker_view_def)
  obtain n w2 where c: "clock_Now P w1 = (n, w2)" by fastforce
  from telemetry_locked_returns [of t n tenant "env_GatewayID env" w2] assms(2) t
  obtain t3 w3 where l: "telemetry_locked n tenant (env_GatewayID env) (t, w2) = Ret (t3, w3)" by blast
  then have h: "tracker_handler P tenant env ?w = Ret (None, adapter_view (t3, w3))"
    by (simp add: tracker_handler_def HandleTelemetry_def v c)
  have "extractTenantID (msg_Subject msg) = Inr tenant"
  proof -
    have "split_on (CHR ''.'') (join_with [CHR ''.''] [''telemetry'', ''data'', tenant, gw])
        = [''telemetry'', ''data'', tenant, gw]"
      by (rule split_on_join) (use assms(4,5) in auto)
    then show ?thesis unfolding assms(3) by (simp only: extractTenantID_def Let_def) simp
  qed
  with h assms(1,6) have "on_message J c msg w
      = Ret (\<lparr>pm_msg = msg, pm_row = buildRow tenant env, pm_err = None\<rparr>, adapter_view (t3, w3))"
    by (simp add: on_message_def processMessage_def)
  moreover note telemetry_locked_beats [OF l]
  ultimately show ?thesis
    using v c t
    by (auto intro!: exI [of _ "adapter_view (t3, w3)"] exI split: option.split)
qed

section \<open>Configuration and timers\<close>

lemma demo_tick_zero: "HeartbeatTickMs (fst (Load demo_environment)) = 0"
proof -
  let ?tick = "\<lambda>l. HeartbeatTickMs (ld_cfg l)"
  have "load_required demo_environment l = l\<lparr>ld_cfg := (ld_cfg l)
      \<lparr>NATSUrl := ''x'', NATSTlsCa := ''x'', NATSTlsCert := ''x'', NATSTlsKey := ''x'',
       DBHost := ''x'', DBName := ''x'', DBUser := ''x'', DBPasswordFile := ''x''\<rparr>\<rparr>"
    if "ld_err l = None" for l
    using that by (simp add: load_required_def require_ok demo_environment_def required_vars_def)
  then show ?thesis
    by (simp add: Load_def load_optional_def opt_fields demo_environment_ok(2) int_vars_def int_value_def
        demo_environment_def required_vars_def parse_decimal_def parse_signed_def is_digit_def
        digit_value_def int_ok_def)
qed

text \<open>
  The intervals are not validated: there is an environment, with \<open>HEARTBEAT_TICK_MS\<close> set to 0,
  that loads without an error and with which the goroutine of the liveness check panics at once.
\<close>

theorem zero_interval_loads_and_panics:
  "\<exists>env. snd (Load env) = None \<and> (\<forall>h orders w. \<not> returns
     (Run_timer (h\<lparr>timer_interval := of_ms (HeartbeatTickMs (fst (Load env)))\<rparr>) orders w))"
  by (rule exI [of _ demo_environment])
     (simp add: demo_environment_loads demo_tick_zero Run_timer_def of_ms_def)

section \<open>Witnesses\<close>

text \<open>
  The service's adapters on a network that answers every lifecycle query with \<open>online\<close>, a clock that
  stands at 100 seconds, and one gateway that was last heard at 0.
\<close>

definition demo_service :: "rr_event list driven_ports" where
  "demo_service = service_ports demo_codec (\<lambda>s d. Pair None) (demo_client 0 LifecycleOnline)
     (Pair 100000000000) (\<lambda>x. build_snapshot [] 0) 60000"

definition demo_fleet_key :: gateway_key where
  "demo_fleet_key = GatewayKey ''t'' ''gw''"

definition demo_fleet_entry :: heartbeat_entry where
  "demo_fleet_entry = \<lparr>he_tenantID = ''t'', he_gatewayID = ''gw'', lastSeen = 0, knownStatus = Online\<rparr>"

definition demo_fleet_tracker :: tracker where
  "demo_fleet_tracker = \<lparr>startTime = 0, gracePeriod = 0, beats = [demo_fleet_key \<mapsto> demo_fleet_entry],
     dispatchCap = 1, dispatchCh = [], dispatchClosed = False, worker = Ready\<rparr>"

definition demo_quiet :: "rr_event list world" where
  "demo_quiet = \<lparr>mtr = zero_metrics, ext = []\<rparr>"

definition demo_fleet_tracker' :: tracker where
  "demo_fleet_tracker' = demo_fleet_tracker\<lparr>
     beats := [demo_fleet_key \<mapsto> demo_fleet_entry\<lparr>knownStatus := Offline\<rparr>],
     dispatchCh := [\<lparr>job_update = offline_update demo_fleet_entry\<rparr>]\<rparr>"

definition demo_quiet' :: "rr_event list world" where
  "demo_quiet' = \<lparr>mtr = zero_metrics\<lparr>AlertsPublished := 1\<rparr>, ext = [Requested]\<rparr>"

lemmas demo_fleet_defs = demo_fleet_key_def demo_fleet_entry_def demo_fleet_tracker_def
  demo_fleet_tracker'_def demo_quiet_def demo_quiet'_def

lemma demo_fleet_ok:
  "tracker_inv demo_fleet_tracker" "iteration_order [demo_fleet_key] demo_fleet_tracker"
  by (simp_all add: demo_fleet_defs tracker_inv_def iteration_order_def entry_key_def)

lemma demo_service_ports:
  "clock_Now demo_service w = (100000000000, w)"
  "TimeoutFor demo_service t g w = 60000"
  "Publish demo_service t a w = (None, with_metrics IncAlertsPublished w)"
  "GetGatewayLifecycle demo_service ''t'' ''gw'' w =
     ((LifecycleOnline, None), w\<lparr>ext := ext w @ [Requested]\<rparr>)"
proof -
  have "RR_GetGatewayLifecycle demo_codec (demo_client 0 LifecycleOnline) ''t'' ''gw'' x
      = Ret ((LifecycleOnline, None), x @ [Requested])" for x
    by (simp add: RR_GetGatewayLifecycle_def demo_rr_eval validateGatewayLifecycleResponse_def)
  then show "GetGatewayLifecycle demo_service ''t'' ''gw'' w =
     ((LifecycleOnline, None), w\<lparr>ext := ext w @ [Requested]\<rparr>)"
    by (simp add: demo_service_def service_ports_def Provider_GetGatewayLifecycle_def outside_def
        result_of_def)
qed (simp_all add: demo_service_def service_ports_def SystemClock_Now_def outside_def
      Alert_Publish_def demo_codec_def build_snapshot_def snapshot_timeout_def)

lemma demo_fleet_tick:
  "Tick demo_service [demo_fleet_key] (demo_fleet_tracker, demo_quiet) = Ret (demo_fleet_tracker', demo_quiet')"
  by (simp add: demo_fleet_defs tick_eval demo_service_ports with_metrics_def metric_defs zero_metrics_def)

lemma alerts_counted_per_transition_witness:
  "AlertsPublished (mtr demo_quiet') = 0 + card (went_offline demo_fleet_tracker demo_fleet_tracker')"
  using alerts_counted_per_transition [OF demo_fleet_ok demo_fleet_tick [unfolded demo_service_def]]
  by (simp add: demo_quiet_def zero_metrics_def)

lemma map_gauge_is_exact_witness:
  "\<exists>t w. exec_calls demo_service (demo_fleet_tracker\<lparr>beats := Map.empty, startTime := 100000000000\<rparr>, demo_quiet)
      [Call_decommission ''t'' ''gw''] (t, w) \<and> HeartbeatMapSize (mtr w) = int (card (dom (beats t)))"
proof -
  let ?s0 = "(demo_fleet_tracker\<lparr>beats := Map.empty, startTime := 100000000000\<rparr>, demo_quiet)"
  have new: "NewHeartbeatTracker demo_service 1 0 demo_quiet = Ret ?s0"
    by (simp add: NewHeartbeatTracker_def demo_service_ports demo_fleet_tracker_def)
  obtain t w where hd: "HandleDecommission ''t'' ''gw'' ?s0 = (t, w)" by fastforce
  then have run: "exec_calls demo_service ?s0 [Call_decommission ''t'' ''gw''] (t, w)"
    by (auto intro!: exec_calls.intros)
  have "HeartbeatMapSize (mtr demo_quiet) = 0" by (simp add: demo_quiet_def zero_metrics_def)
  from map_gauge_is_exact [OF new [unfolded demo_service_def] this run [unfolded demo_service_def]]
  have "HeartbeatMapSize (mtr w) = int (card (dom (beats t)))" .
  with run show ?thesis by blast
qed

lemma offline_only_after_configured_timeout_witness:
  "lastSeen demo_fleet_entry + sint (configured [] 60000 ''t'' ''gw'') * 1000000
     \<le> tick_now demo_service demo_quiet"
  unfolding demo_service_def
  by (rule offline_only_after_configured_timeout [OF demo_fleet_ok
        demo_fleet_tick [unfolded demo_service_def]])
     (auto simp: demo_fleet_defs slash_free_def configured_def max_ms_def)

lemma telemetry_message_effect_witness:
  "\<exists>w' e. on_message demo_json demo_consumer demo_good demo_world0
      = Ret (\<lparr>pm_msg = demo_good, pm_row = buildRow ''t'' demo_envelope, pm_err = None\<rparr>, w')
    \<and> beats (fst (ext w')) (GatewayKey ''t'' ''g'') = Some e \<and> knownStatus e = Online \<and> lastSeen e = 7"
proof -
  have "\<not> dispatchClosed (fst (ext demo_world0))"
    by (simp add: demo_world0_def demo_log_tracker_def)
  moreover have "msg_Subject demo_good = join_with ''.'' [''telemetry'', ''data'', ''t'', ''g'']"
    "dec_envelope demo_json (msg_Data demo_good) = Inr demo_envelope"
    by (simp_all add: demo_good_def demo_json_def)
  ultimately show ?thesis
    using telemetry_message_effect [of demo_consumer demo_log_ports demo_world0 demo_good "''t''" "''g''"
        demo_json demo_envelope]
    by (auto simp: demo_log_ports_def demo_envelope_def)
qed

end
