(* ===== verification/Json_Text.thy ===== *)
theory Json_Text
  imports Decimal
begin

text \<open>
  The text of a JSON string as Go's \<open>encoding/json\<close> writes and reads it. A Go string is a sequence of
  bytes, normally UTF-8: \<open>rune_len\<close> is \<open>utf8.DecodeRune\<close>'s view of the bytes at the front. \<open>quote\<close> is
  the encoder (\<open>appendString\<close> with HTML escaping, as \<open>json.Marshal\<close> has it) and \<open>unquote\<close> the decoder
  (\<open>unquoteBytes\<close>), both between the quotation marks. The theory ends with the fact the payloads rest
  on: what was quoted is read back, with every byte that is not UTF-8 replaced by U+FFFD.
\<close>

section \<open>Bytes and runes\<close>

abbreviation byte :: "char \<Rightarrow> nat" where
  "byte c \<equiv> of_char c"

abbreviation backslash :: char where
  "backslash \<equiv> CHR 0x5C"

abbreviation dquote :: char where
  "dquote \<equiv> CHR 0x22"

definition is_cont :: "char \<Rightarrow> bool" where
  "is_cont c \<longleftrightarrow> 0x80 \<le> byte c \<and> byte c \<le> 0xBF"

definition tail_ok :: "nat \<Rightarrow> nat \<Rightarrow> nat \<Rightarrow> string \<Rightarrow> bool" where
  "tail_ok lo hi n cs \<longleftrightarrow>
     (case cs of [] \<Rightarrow> False
      | d # ds \<Rightarrow> lo \<le> byte d \<and> byte d \<le> hi \<and> n \<le> length ds \<and> list_all is_cont (take n ds))"

text \<open>The length of the rune at the front, 0 if the bytes there are not UTF-8.\<close>

fun rune_len :: "string \<Rightarrow> nat" where
  "rune_len [] = 0"
| "rune_len (c # cs) =
     (let b = byte c in
      if b < 0x80 then 1
      else if 0xC2 \<le> b \<and> b \<le> 0xDF \<and> tail_ok 0x80 0xBF 0 cs then 2
      else if 0xE0 \<le> b \<and> b \<le> 0xEF
        \<and> tail_ok (if b = 0xE0 then 0xA0 else 0x80) (if b = 0xED then 0x9F else 0xBF) 1 cs then 3
      else if 0xF0 \<le> b \<and> b \<le> 0xF4
        \<and> tail_ok (if b = 0xF0 then 0x90 else 0x80) (if b = 0xF4 then 0x8F else 0xBF) 2 cs then 4
      else 0)"

declare rune_len.simps(2) [simp del]

text \<open>\<open>utf8.AppendRune\<close>; U+FFFD stands for a surrogate.\<close>

definition replacement :: string where
  "replacement = [CHR 0xEF, CHR 0xBF, CHR 0xBD]"

definition encode_rune :: "nat \<Rightarrow> string" where
  "encode_rune r =
     (if r < 0x80 then [char_of r]
      else if r < 0x800 then [char_of (0xC0 + r div 64), char_of (0x80 + r mod 64)]
      else if 0xD800 \<le> r \<and> r \<le> 0xDFFF then replacement
      else if r < 0x10000 then
        [char_of (0xE0 + r div 4096), char_of (0x80 + r div 64 mod 64), char_of (0x80 + r mod 64)]
      else [char_of (0xF0 + r div 262144), char_of (0x80 + r div 4096 mod 64),
            char_of (0x80 + r div 64 mod 64), char_of (0x80 + r mod 64)])"

text \<open>The string with every byte that is not part of a rune replaced.\<close>

fun to_valid :: "string \<Rightarrow> string" where
  "to_valid [] = []"
| "to_valid (c # cs) =
     (let n = rune_len (c # cs) in
      if n = 0 then replacement @ to_valid cs
      else take n (c # cs) @ to_valid (drop (n - 1) cs))"

fun valid_utf8 :: "string \<Rightarrow> bool" where
  "valid_utf8 [] = True"
| "valid_utf8 (c # cs) =
     (let n = rune_len (c # cs) in 0 < n \<and> valid_utf8 (drop (n - 1) cs))"

section \<open>The encoder\<close>

definition hex_char :: "nat \<Rightarrow> char" where
  "hex_char n = (if n < 10 then char_of (48 + n) else char_of (87 + n))"

definition quote_ascii :: "char \<Rightarrow> string" where
  "quote_ascii c =
     (if c = dquote \<or> c = backslash then [backslash, c]
      else if byte c = 8 then [backslash, CHR ''b'']
      else if byte c = 12 then [backslash, CHR ''f'']
      else if byte c = 10 then [backslash, CHR ''n'']
      else if byte c = 13 then [backslash, CHR ''r'']
      else if byte c = 9 then [backslash, CHR ''t'']
      else if byte c < 32 \<or> c \<in> {CHR ''<'', CHR ''>'', CHR ''&''}
      then [backslash, CHR ''u'', CHR ''0'', CHR ''0'', hex_char (byte c div 16), hex_char (byte c mod 16)]
      else [c])"

text \<open>What is written for the front of the string, and how many bytes after the first it stands for.\<close>

definition quote_head :: "char \<Rightarrow> string \<Rightarrow> string \<times> nat" where
  "quote_head c cs =
     (let n = rune_len (c # cs) in
      if byte c < 0x80 then (quote_ascii c, 0)
      else if n = 0 then (backslash # ''ufffd'', 0)
      else if take n (c # cs) = [CHR 0xE2, CHR 0x80, CHR 0xA8] then (backslash # ''u2028'', n - 1)
      else if take n (c # cs) = [CHR 0xE2, CHR 0x80, CHR 0xA9] then (backslash # ''u2029'', n - 1)
      else (take n (c # cs), n - 1))"

fun quote :: "string \<Rightarrow> string" where
  "quote [] = []"
| "quote (c # cs) = fst (quote_head c cs) @ quote (drop (snd (quote_head c cs)) cs)"

section \<open>The decoder\<close>

definition hex_val :: "char \<Rightarrow> nat option" where
  "hex_val c =
     (let b = byte c in
      if 48 \<le> b \<and> b \<le> 57 then Some (b - 48)
      else if 97 \<le> b \<and> b \<le> 102 then Some (b - 87)
      else if 65 \<le> b \<and> b \<le> 70 then Some (b - 55)
      else None)"

text \<open>\<open>getu4\<close>: the code unit of a \<open>u\<close> escape with its four digits at the front.\<close>

fun getu4 :: "string \<Rightarrow> nat option" where
  "getu4 (c # d # x1 # x2 # x3 # x4 # s) =
     (if c = backslash \<and> d = CHR ''u'' then
        (case (hex_val x1, hex_val x2, hex_val x3, hex_val x4) of
           (Some a, Some b, Some e, Some f) \<Rightarrow> Some (((a * 16 + b) * 16 + e) * 16 + f)
         | _ \<Rightarrow> None)
      else None)"
| "getu4 _ = None"

definition unescape :: "char \<Rightarrow> char option" where
  "unescape d =
     (if d \<in> {dquote, backslash, CHR ''/'', CHR 0x27} then Some d
      else if d = CHR ''b'' then Some (CHR 0x08)
      else if d = CHR ''f'' then Some (CHR 0x0C)
      else if d = CHR ''n'' then Some (CHR 0x0A)
      else if d = CHR ''r'' then Some (CHR 0x0D)
      else if d = CHR ''t'' then Some (CHR 0x09)
      else None)"

text \<open>Two code units that form a surrogate pair, and the rune they stand for.\<close>

definition surrogate_pair :: "nat \<Rightarrow> nat option \<Rightarrow> nat option" where
  "surrogate_pair r low =
     (case low of
        Some r1 \<Rightarrow>
          if 0xD800 \<le> r \<and> r < 0xDC00 \<and> 0xDC00 \<le> r1 \<and> r1 < 0xE000
          then Some (0x10000 + (r - 0xD800) * 1024 + (r1 - 0xDC00)) else None
      | None \<Rightarrow> None)"

text \<open>
  What the front of the raw text stands for and how many bytes after the first it takes. \<open>None\<close> is
  the decoder's failure, which the scanner excludes.
\<close>

definition unquote_head :: "char \<Rightarrow> string \<Rightarrow> (string \<times> nat) option" where
  "unquote_head c cs =
     (if c = backslash then
        (case cs of
           [] \<Rightarrow> None
         | d # ds \<Rightarrow>
             if d = CHR ''u'' then
               (case getu4 (c # cs) of
                  None \<Rightarrow> None
                | Some r \<Rightarrow>
                    (case surrogate_pair r (getu4 (drop 5 cs)) of
                       Some r2 \<Rightarrow> Some (encode_rune r2, 11)
                     | None \<Rightarrow> Some (encode_rune r, 5)))
             else map_option (\<lambda>e. ([e], 1)) (unescape d))
      else if c = dquote \<or> byte c < 32 then None
      else if rune_len (c # cs) = 0 then Some (replacement, 0)
      else Some (take (rune_len (c # cs)) (c # cs), rune_len (c # cs) - 1))"

fun unquote :: "string \<Rightarrow> string option" where
  "unquote [] = Some []"
| "unquote (c # cs) =
     (case unquote_head c cs of
        None \<Rightarrow> None
      | Some (out, k) \<Rightarrow> map_option ((@) out) (unquote (drop k cs)))"

section \<open>What is quoted is read back\<close>

lemma byte_less_256 [simp]: "byte c < 256"
  using of_char_mod_256 [of c, where 'a = nat] mod_less_divisor [of 256 "byte c"] by simp

lemma byte_inject: "byte c = byte d \<longleftrightarrow> c = d"
  by (rule inj_eq) (rule inj_of_char)

lemma rune_len_ascii [simp]: "byte c < 128 \<Longrightarrow> rune_len (c # cs) = Suc 0"
  by (simp add: rune_len.simps)

lemma rune_len_multi: "128 \<le> byte c \<Longrightarrow> rune_len (c # cs) \<noteq> Suc 0"
  by (simp add: rune_len.simps Let_def)

lemma tail_ok_length: "tail_ok lo hi n cs \<Longrightarrow> n < length cs"
  by (auto simp: tail_ok_def split: list.splits)

lemma tail_ok_take: "tail_ok lo hi n cs \<Longrightarrow> tail_ok lo hi n (take (Suc n) cs @ r)"
  by (auto simp: tail_ok_def split: list.splits)

lemma tail_ok_cont:
  "tail_ok lo hi n cs \<Longrightarrow> 0x80 \<le> lo \<Longrightarrow> list_all (\<lambda>d. 0x80 \<le> byte d) (take (Suc n) cs)"
  by (auto simp: tail_ok_def is_cont_def list_all_iff split: list.splits)

text \<open>A rune of several bytes: its tail determines it, together with the first byte.\<close>

lemma rune_len_multiE:
  assumes "0 < rune_len (c # cs)" and "128 \<le> byte c"
  obtains lo hi n where "rune_len (c # cs) = n + 2" and "tail_ok lo hi n cs" and "0x80 \<le> lo"
    and "\<And>ds. tail_ok lo hi n ds \<Longrightarrow> rune_len (c # ds) = n + 2"
proof -
  let ?b = "byte c"
  have pos: "B \<or> C \<or> D"
    if "0 < (if A then 1 else if B then 2 else if C then 3 else if D then 4 else 0 :: nat)" "\<not> A"
    for A B C D using that by (auto split: if_splits)
  consider (two) "0xC2 \<le> ?b" "?b \<le> 0xDF" "tail_ok 0x80 0xBF 0 cs"
    | (three) "0xE0 \<le> ?b" "?b \<le> 0xEF"
        "tail_ok (if ?b = 0xE0 then 0xA0 else 0x80) (if ?b = 0xED then 0x9F else 0xBF) 1 cs"
    | (four) "0xF0 \<le> ?b" "?b \<le> 0xF4"
        "tail_ok (if ?b = 0xF0 then 0x90 else 0x80) (if ?b = 0xF4 then 0x8F else 0xBF) 2 cs"
    using pos [OF assms(1) [unfolded rune_len.simps Let_def]] assms(2) unfolding not_less by blast
  then show thesis
  proof cases
    case two
    then show thesis by (intro that [OF _ two(3)]) (simp_all add: rune_len.simps)
  next
    case three
    then show thesis by (intro that [OF _ three(3)]) (simp_all add: rune_len.simps)
  next
    case four
    then show thesis by (intro that [OF _ four(3)]) (simp_all add: rune_len.simps)
  qed
qed

lemma rune_len_le: "rune_len s \<le> length s"
proof (cases s)
  case (Cons c cs)
  then show ?thesis
  proof (cases "0 < rune_len (c # cs) \<and> 128 \<le> byte c")
    case True
    then obtain n where "rune_len (c # cs) = n + 2" "n < length cs"
      by (metis rune_len_multiE tail_ok_length)
    with Cons show ?thesis by simp
  qed (use Cons in \<open>auto simp: not_le\<close>)
qed simp

lemma rune_len_take:
  assumes "0 < rune_len (c # cs)"
  shows "rune_len (take (rune_len (c # cs)) (c # cs) @ r) = rune_len (c # cs)"
proof (cases "byte c < 128")
  case False
  then obtain lo hi n where "rune_len (c # cs) = n + 2" "tail_ok lo hi n cs"
      "\<And>ds. tail_ok lo hi n ds \<Longrightarrow> rune_len (c # ds) = n + 2"
    using assms by (metis not_le rune_len_multiE)
  then show ?thesis by (simp add: tail_ok_take)
qed simp

text \<open>The bytes of a rune of several bytes are never those of an ASCII character.\<close>

lemma rune_bytes:
  assumes "0 < rune_len (c # cs)" and "128 \<le> byte c"
  shows "list_all (\<lambda>d. 0x80 \<le> byte d) (take (rune_len (c # cs)) (c # cs))"
proof -
  obtain lo hi n where "rune_len (c # cs) = n + 2" "tail_ok lo hi n cs" "0x80 \<le> lo"
    using assms by (metis rune_len_multiE)
  then show ?thesis using assms(2) tail_ok_cont [of lo hi n cs] by (simp add: tail_ok_cont)
qed

lemma hex_val_hex_char [simp]: "n < 16 \<Longrightarrow> hex_val (hex_char n) = Some n"
  by (auto simp: hex_val_def hex_char_def Let_def)

text \<open>The text of one character or rune, whatever follows it.\<close>

definition valid_head :: "char \<Rightarrow> string \<Rightarrow> string" where
  "valid_head c cs =
     (if rune_len (c # cs) = 0 then replacement else take (rune_len (c # cs)) (c # cs))"

lemma append_single [simp]: "(@) [x] = (#) x" and append_none [simp]: "(@) [] = (\<lambda>s. s)"
  by auto

lemma quote_ascii_cases:
  assumes "byte c < 128"
  obtains (short) e where "quote_ascii c = [backslash, e]" and "e \<noteq> CHR ''u''" and "unescape e = Some c"
  | (hex) "quote_ascii c = backslash # ''u00'' @ [hex_char (byte c div 16), hex_char (byte c mod 16)]"
  | (plain) "quote_ascii c = [c]" and "c \<noteq> backslash" and "c \<noteq> dquote" and "32 \<le> byte c"
proof -
  have eq: "byte c = byte d \<Longrightarrow> c = d" for d by simp
  consider "c = dquote" | "c = backslash" | "c = CHR 0x08" | "c = CHR 0x0C" | "c = CHR 0x0A"
    | "c = CHR 0x0D" | "c = CHR 0x09"
    | (other) "c \<noteq> dquote" "c \<noteq> backslash" "byte c \<notin> {8, 12, 10, 13, 9}"
    using eq [of "CHR 0x08"] eq [of "CHR 0x0C"] eq [of "CHR 0x0A"] eq [of "CHR 0x0D"]
      eq [of "CHR 0x09"] by fastforce
  then show thesis
  proof cases
    case other
    then show thesis
      using hex plain
      by (cases "byte c < 32 \<or> c \<in> {CHR ''<'', CHR ''>'', CHR ''&''}") (simp_all add: quote_ascii_def)
  qed (use short in \<open>simp_all add: quote_ascii_def unescape_def\<close>)
qed

lemma unquote_quote_ascii:
  assumes "byte c < 128"
  shows "unquote (quote_ascii c @ r) = map_option ((#) c) (unquote r)"
  using assms
proof (cases rule: quote_ascii_cases)
  case (short e)
  then show ?thesis by (simp add: unquote_head_def)
next
  case hex
  have "byte c div 16 < 16" "byte c mod 16 < 16" using assms by auto
  moreover have "surrogate_pair (byte c) x = None" for x
    using assms by (auto simp: surrogate_pair_def split: option.splits)
  ultimately show ?thesis
    using assms hex by (simp add: unquote_head_def encode_rune_def hex_val_def [of "CHR ''0''"])
qed (use assms in \<open>simp add: unquote_head_def\<close>)

lemma char_of_byte: "char_of (byte c) = c"
  by simp

lemma char_of_bytes:
  "char_of (239 :: nat) = CHR 0xEF" "char_of (191 :: nat) = CHR 0xBF" "char_of (189 :: nat) = CHR 0xBD"
  "char_of (226 :: nat) = CHR 0xE2" "char_of (128 :: nat) = CHR 0x80" "char_of (168 :: nat) = CHR 0xA8"
  "char_of (169 :: nat) = CHR 0xA9"
  using char_of_byte [of "CHR 0xEF"] char_of_byte [of "CHR 0xBF"] char_of_byte [of "CHR 0xBD"]
    char_of_byte [of "CHR 0xE2"] char_of_byte [of "CHR 0x80"] char_of_byte [of "CHR 0xA8"]
    char_of_byte [of "CHR 0xA9"] by simp_all

lemma unquote_multi:
  assumes "0 < rune_len (c # cs)" and "128 \<le> byte c"
  shows "unquote (take (rune_len (c # cs)) (c # cs) @ r)
    = map_option ((@) (take (rune_len (c # cs)) (c # cs))) (unquote r)"
proof -
  let ?n = "rune_len (c # cs)"
  from assms obtain m where m: "?n = m + 2" by (metis rune_len_multiE)
  let ?t = "take (Suc m) cs"
  have t: "take ?n (c # cs) = c # ?t" and len: "length ?t = Suc m"
    using m rune_len_le [of "c # cs"] by simp_all
  have "rune_len (c # ?t @ r) = m + 2"
    using rune_len_take [OF assms(1), of r] m t by simp
  moreover have "c \<noteq> backslash" "c \<noteq> dquote" using assms(2) by auto
  ultimately have "unquote_head c (?t @ r) = Some (c # ?t, Suc m)"
    using assms(2) len by (simp add: unquote_head_def)
  then show ?thesis using t len by simp
qed

lemma unquote_quote_head:
  "unquote (fst (quote_head c cs) @ r) = map_option ((@) (valid_head c cs)) (unquote r)"
proof (cases "byte c < 128")
  case True
  then show ?thesis by (simp add: quote_head_def valid_head_def unquote_quote_ascii)
next
  case False
  have esc: "unquote_head backslash (''ufffd'' @ r) = Some (replacement, 5)"
    "unquote_head backslash (''u2028'' @ r) = Some ([CHR 0xE2, CHR 0x80, CHR 0xA8], 5)"
    "unquote_head backslash (''u2029'' @ r) = Some ([CHR 0xE2, CHR 0x80, CHR 0xA9], 5)"
    by (simp_all add: unquote_head_def hex_val_def surrogate_pair_def encode_rune_def replacement_def
        char_of_bytes split: option.splits)
  let ?n = "rune_len (c # cs)" and ?t = "take (rune_len (c # cs)) (c # cs)"
  consider "?n = 0" | "0 < ?n" "?t = [CHR 0xE2, CHR 0x80, CHR 0xA8]"
    | "0 < ?n" "?t = [CHR 0xE2, CHR 0x80, CHR 0xA9]"
    | (other) "0 < ?n" "?t \<noteq> [CHR 0xE2, CHR 0x80, CHR 0xA8]" "?t \<noteq> [CHR 0xE2, CHR 0x80, CHR 0xA9]"
    by blast
  then show ?thesis
  proof cases
    case other
    then show ?thesis
      using unquote_multi [of c cs r] False
      by (simp only: quote_head_def valid_head_def Let_def fst_conv if_False not_less) simp
  qed (use False esc in \<open>simp_all add: quote_head_def valid_head_def del: take_Suc_Cons\<close>)
qed

lemma quote_head_skip: "snd (quote_head c cs) = rune_len (c # cs) - 1"
  by (simp add: quote_head_def Let_def)

lemma unquote_quote: "unquote (quote s) = Some (to_valid s)"
proof (induction s rule: quote.induct)
  case (2 c cs)
  then show ?case by (simp add: unquote_quote_head quote_head_skip valid_head_def Let_def)
qed simp

lemma to_valid_id: "valid_utf8 s \<Longrightarrow> to_valid s = s"
proof (induction s rule: valid_utf8.induct)
  case (2 c cs)
  then show ?case
    by (cases "rune_len (c # cs)") (simp_all add: Let_def)
qed simp

corollary unquote_quote_valid: "valid_utf8 s \<Longrightarrow> unquote (quote s) = Some s"
  by (simp add: unquote_quote to_valid_id)

section \<open>What is decoded is valid UTF-8\<close>

lemma valid_utf8_append:
  assumes "rune_len s = length s" and "s \<noteq> []" and "valid_utf8 r"
  shows "valid_utf8 (s @ r)"
proof -
  obtain c cs where s: "s = c # cs" using assms(2) by (cases s) auto
  have "rune_len (s @ r) = length s"
    using rune_len_take [of c cs r] assms(1) s by simp
  then show ?thesis using assms(3) s by simp
qed

lemma byte_char_of: "n < 256 \<Longrightarrow> byte (char_of (n :: nat)) = n"
  by simp

lemma rune_len_replacement: "rune_len replacement = length replacement" "replacement \<noteq> []"
  by (simp_all add: replacement_def rune_len.simps tail_ok_def is_cont_def)

lemma rune_len_2:
  fixes a m :: nat
  assumes "2 \<le> a" and "a < 32" and "m < 64"
  shows "rune_len [char_of (0xC0 + a), char_of (0x80 + m)] = 2"
  using assms by (simp add: rune_len.simps tail_ok_def byte_char_of Let_def)

lemma rune_len_3:
  fixes a b m :: nat
  assumes "a < 16" and "b < 64" and "m < 64" and "a = 0 \<Longrightarrow> 32 \<le> b" and "a = 13 \<Longrightarrow> b \<le> 31"
  shows "rune_len [char_of (0xE0 + a), char_of (0x80 + b), char_of (0x80 + m)] = 3"
  using assms by (simp add: rune_len.simps tail_ok_def is_cont_def byte_char_of Let_def)

lemma rune_len_4:
  fixes a b d m :: nat
  assumes "a \<le> 4" and "b < 64" and "d < 64" and "m < 64" and "a = 0 \<Longrightarrow> 16 \<le> b" and "a = 4 \<Longrightarrow> b \<le> 15"
  shows "rune_len [char_of (0xF0 + a), char_of (0x80 + b), char_of (0x80 + d), char_of (0x80 + m)] = 4"
  using assms by (simp add: rune_len.simps tail_ok_def is_cont_def byte_char_of Let_def)

lemma rune_len_encode:
  assumes "r < 0x110000"
  shows "rune_len (encode_rune r) = length (encode_rune r) \<and> encode_rune r \<noteq> []"
proof -
  define a b d m where "a = r div 262144" and "b = r div 4096 mod 64" and "d = r div 64 mod 64"
    and "m = r mod 64"
  have m: "r div 64 * 64 + m = r" and d: "r div 4096 * 64 + d = r div 64" and b: "a * 64 + b = r div 4096"
    using div_mult_mod_eq [of "r div 64" 64] div_mult_mod_eq [of "r div 4096" 64]
    by (simp_all add: a_def b_def d_def m_def flip: div_mult2_eq)
  have small: "b < 64" "d < 64" "m < 64" by (simp_all add: b_def d_def m_def)
  consider (one) "r < 0x80" | (two) "0x80 \<le> r" "r < 0x800"
    | (sur) "0xD800 \<le> r" "r \<le> 0xDFFF"
    | (three) "0x800 \<le> r" "r < 0x10000" "\<not> (0xD800 \<le> r \<and> r \<le> 0xDFFF)"
    | (four) "0x10000 \<le> r" by linarith
  then show ?thesis
  proof cases
    case two
    then have "rune_len [char_of (0xC0 + r div 64), char_of (0x80 + m)] = 2"
      using m small by (intro rune_len_2) auto
    then show ?thesis using two by (simp add: encode_rune_def m_def)
  next
    case three
    then have "rune_len [char_of (0xE0 + r div 4096), char_of (0x80 + d), char_of (0x80 + m)] = 3"
      using m d small by (intro rune_len_3) auto
    then show ?thesis using three by (auto simp: encode_rune_def m_def d_def)
  next
    case four
    then have "rune_len [char_of (0xF0 + a), char_of (0x80 + b), char_of (0x80 + d), char_of (0x80 + m)] = 4"
      using m d b small assms by (intro rune_len_4) auto
    then show ?thesis using four by (simp add: encode_rune_def a_def b_def m_def d_def)
  qed (simp_all add: encode_rune_def rune_len_replacement)
qed

lemma hex_val_less: "hex_val c = Some n \<Longrightarrow> n < 16"
  by (auto simp: hex_val_def Let_def split: if_splits)

lemma getu4_less: "getu4 s = Some r \<Longrightarrow> r < 0x110000"
  by (cases s rule: getu4.cases)
    (auto split: if_splits option.splits dest!: hex_val_less)

lemma surrogate_pair_less: "surrogate_pair r x = Some r2 \<Longrightarrow> r2 < 0x110000"
  by (auto simp: surrogate_pair_def split: if_splits option.splits)

lemma unescape_ascii: "unescape d = Some e \<Longrightarrow> byte e < 128"
  by (auto simp: unescape_def split: if_splits)

lemma unquote_head_cases:
  assumes "unquote_head c cs = Some (out, k)"
  obtains (esc) d e where "unescape d = Some e" and "out = [e]"
  | (uni) r where "r < 0x110000" and "out = encode_rune r"
  | (bad) "out = replacement"
  | (rune) "0 < rune_len (c # cs)" and "out = take (rune_len (c # cs)) (c # cs)"
  using assms
  by (auto simp: unquote_head_def dest: surrogate_pair_less getu4_less
      split: if_splits list.splits option.splits)

lemma unquote_head_rune:
  assumes "unquote_head c cs = Some (out, k)"
  shows "rune_len out = length out \<and> out \<noteq> []"
  using assms
proof (cases rule: unquote_head_cases)
  case (esc d e)
  then show ?thesis using unescape_ascii by simp
next
  case rune
  then show ?thesis using rune_len_take [of c cs "[]"] rune_len_le [of "c # cs"] by auto
qed (simp_all add: rune_len_encode rune_len_replacement)

lemma unquote_valid: "unquote q = Some s \<Longrightarrow> valid_utf8 s"
proof (induction q arbitrary: s rule: unquote.induct)
  case (2 c cs)
  then obtain out k r where h: "unquote_head c cs = Some (out, k)" "unquote (drop k cs) = Some r" "s = out @ r"
    by (auto split: option.splits)
  with 2(1) [OF h(1) refl h(2)] unquote_head_rune [OF h(1)] show ?case
    by (simp add: valid_utf8_append)
qed simp

end
