(* ===== verification/Json.thy ===== *)
theory Json
  imports Json_Text
begin

text \<open>
  JSON texts as \<open>encoding/json\<close> accepts and writes them. The scanner works byte by byte, as Go's
  \<open>scanner\<close> does: \<open>lex_step\<close> is the automaton for literals, numbers and strings, \<open>parse_step\<close> the
  automaton for values with its stack of open arrays and objects, at most \<open>maxNestingDepth\<close> deep.
  Numbers and strings stay the raw text between their delimiters: the decoder of each type decides
  what it reads from them. Objects are association lists in the order of the text, duplicates kept.
\<close>

section \<open>Values and tokens\<close>

datatype json =
    JNull
  | JBool bool
  | JNum string
  | JStr string
  | JArr "json list"
  | JObj "(string \<times> json) list"

datatype token =
    TBeginObj | TEndObj | TBeginArr | TEndArr | TColon | TComma
  | TNull | TTrue | TFalse | TNum string | TStr string

section \<open>The scanner of tokens\<close>

text \<open>
  The state inside a token; strings and numbers carry what was read of them, the last byte first.
  \<open>InHex n\<close> waits for \<open>n + 1\<close> more hexadecimal digits, \<open>InLit s t\<close> for the bytes \<open>s\<close>.
\<close>

datatype lex_state =
    Outside
  | InStr string | InEsc string | InHex nat string
  | AfterMinus string | AfterZero string | InInt string
  | AfterDot string | InFrac string | AfterE string | AfterESign string | InExp string
  | InLit string token

definition is_space :: "char \<Rightarrow> bool" where
  "is_space c \<longleftrightarrow> c \<in> {CHR '' '', CHR 0x09, CHR 0x0A, CHR 0x0D}"

definition lex_outside :: "char \<Rightarrow> (token list \<times> lex_state) option" where
  "lex_outside c =
     (if is_space c then Some ([], Outside)
      else if c = CHR 0x7B then Some ([TBeginObj], Outside)
      else if c = CHR 0x7D then Some ([TEndObj], Outside)
      else if c = CHR 0x5B then Some ([TBeginArr], Outside)
      else if c = CHR 0x5D then Some ([TEndArr], Outside)
      else if c = CHR '':'' then Some ([TColon], Outside)
      else if c = CHR '','' then Some ([TComma], Outside)
      else if c = dquote then Some ([], InStr [])
      else if c = CHR ''-'' then Some ([], AfterMinus [c])
      else if c = CHR ''0'' then Some ([], AfterZero [c])
      else if is_digit c then Some ([], InInt [c])
      else if c = CHR ''n'' then Some ([], InLit ''ull'' TNull)
      else if c = CHR ''t'' then Some ([], InLit ''rue'' TTrue)
      else if c = CHR ''f'' then Some ([], InLit ''alse'' TFalse)
      else None)"

text \<open>A byte that ends a number is read again outside of it.\<close>

definition end_number :: "string \<Rightarrow> char \<Rightarrow> (token list \<times> lex_state) option" where
  "end_number acc c = map_option (\<lambda>(ts, m). (TNum (rev acc) # ts, m)) (lex_outside c)"

definition is_e :: "char \<Rightarrow> bool" where
  "is_e c \<longleftrightarrow> c = CHR ''e'' \<or> c = CHR ''E''"

fun lex_step :: "lex_state \<Rightarrow> char \<Rightarrow> (token list \<times> lex_state) option" where
  "lex_step Outside c = lex_outside c"
| "lex_step (InStr acc) c =
     (if c = dquote then Some ([TStr (rev acc)], Outside)
      else if c = backslash then Some ([], InEsc (c # acc))
      else if byte c < 32 then None else Some ([], InStr (c # acc)))"
| "lex_step (InEsc acc) c =
     (if c \<in> {CHR ''b'', CHR ''f'', CHR ''n'', CHR ''r'', CHR ''t'', backslash, CHR ''/'', dquote}
      then Some ([], InStr (c # acc))
      else if c = CHR ''u'' then Some ([], InHex 3 (c # acc)) else None)"
| "lex_step (InHex n acc) c =
     (if hex_val c = None then None
      else Some ([], case n of 0 \<Rightarrow> InStr (c # acc) | Suc k \<Rightarrow> InHex k (c # acc)))"
| "lex_step (AfterMinus acc) c =
     (if c = CHR ''0'' then Some ([], AfterZero (c # acc))
      else if is_digit c then Some ([], InInt (c # acc)) else None)"
| "lex_step (AfterZero acc) c =
     (if c = CHR ''.'' then Some ([], AfterDot (c # acc))
      else if is_e c then Some ([], AfterE (c # acc)) else end_number acc c)"
| "lex_step (InInt acc) c =
     (if is_digit c then Some ([], InInt (c # acc))
      else if c = CHR ''.'' then Some ([], AfterDot (c # acc))
      else if is_e c then Some ([], AfterE (c # acc)) else end_number acc c)"
| "lex_step (AfterDot acc) c = (if is_digit c then Some ([], InFrac (c # acc)) else None)"
| "lex_step (InFrac acc) c =
     (if is_digit c then Some ([], InFrac (c # acc))
      else if is_e c then Some ([], AfterE (c # acc)) else end_number acc c)"
| "lex_step (AfterE acc) c =
     (if c = CHR ''+'' \<or> c = CHR ''-'' then Some ([], AfterESign (c # acc))
      else if is_digit c then Some ([], InExp (c # acc)) else None)"
| "lex_step (AfterESign acc) c = (if is_digit c then Some ([], InExp (c # acc)) else None)"
| "lex_step (InExp acc) c =
     (if is_digit c then Some ([], InExp (c # acc)) else end_number acc c)"
| "lex_step (InLit s t) c =
     (case s of
        [] \<Rightarrow> None
      | x # s' \<Rightarrow> if c \<noteq> x then None
                  else if s' = [] then Some ([t], Outside) else Some ([], InLit s' t))"

text \<open>The end of the text ends a number, and is an error inside any other token.\<close>

fun lex_end :: "lex_state \<Rightarrow> token list option" where
  "lex_end Outside = Some []"
| "lex_end (AfterZero acc) = Some [TNum (rev acc)]"
| "lex_end (InInt acc) = Some [TNum (rev acc)]"
| "lex_end (InFrac acc) = Some [TNum (rev acc)]"
| "lex_end (InExp acc) = Some [TNum (rev acc)]"
| "lex_end _ = None"

fun lex :: "lex_state \<Rightarrow> string \<Rightarrow> token list option" where
  "lex m [] = lex_end m"
| "lex m (c # cs) =
     (case lex_step m c of
        None \<Rightarrow> None
      | Some (ts, m') \<Rightarrow> map_option ((@) ts) (lex m' cs))"

section \<open>The parser of values\<close>

text \<open>
  An open array holds its elements, an open object its members, both the last one first, and the
  key whose value is being read. \<open>After v\<close> is the state at the end of the value \<open>v\<close>.
\<close>

datatype frame = OpenArr "json list" | OpenObj "(string \<times> json) list" string

datatype parse_mode =
    BeginValue
  | BeginValueOrEmpty
  | BeginKey "(string \<times> json) list"
  | BeginKeyOrEmpty
  | AfterKey "(string \<times> json) list" string
  | After json

definition maxNestingDepth :: nat where
  "maxNestingDepth = 10000"

text \<open>
  The members of the object whose key is awaited are in the mode: its frame is pushed with the key.
  The depth counts it as open from its brace on.
\<close>

type_synonym parse_state = "parse_mode \<times> frame list"

definition open_ok :: "frame list \<Rightarrow> bool" where
  "open_ok st \<longleftrightarrow> length st < maxNestingDepth"

fun begin_value :: "token \<Rightarrow> frame list \<Rightarrow> parse_state option" where
  "begin_value TNull st = Some (After JNull, st)"
| "begin_value TTrue st = Some (After (JBool True), st)"
| "begin_value TFalse st = Some (After (JBool False), st)"
| "begin_value (TNum s) st = Some (After (JNum s), st)"
| "begin_value (TStr s) st = Some (After (JStr s), st)"
| "begin_value TBeginArr st = (if open_ok st then Some (BeginValueOrEmpty, OpenArr [] # st) else None)"
| "begin_value TBeginObj st = (if open_ok st then Some (BeginKeyOrEmpty, st) else None)"
| "begin_value _ st = None"

fun end_value :: "json \<Rightarrow> token \<Rightarrow> frame list \<Rightarrow> parse_state option" where
  "end_value v TComma (OpenArr vs # st) = Some (BeginValue, OpenArr (v # vs) # st)"
| "end_value v TEndArr (OpenArr vs # st) = Some (After (JArr (rev (v # vs))), st)"
| "end_value v TComma (OpenObj kvs k # st) = Some (BeginKey ((k, v) # kvs), st)"
| "end_value v TEndObj (OpenObj kvs k # st) = Some (After (JObj (rev ((k, v) # kvs))), st)"
| "end_value v _ _ = None"

fun parse_step :: "parse_mode \<Rightarrow> token \<Rightarrow> frame list \<Rightarrow> parse_state option" where
  "parse_step BeginValue t st = begin_value t st"
| "parse_step BeginValueOrEmpty t st =
     (if t = TEndArr then Some (After (JArr []), tl st) else begin_value t st)"
| "parse_step (BeginKey kvs) t st = (case t of TStr k \<Rightarrow> Some (AfterKey kvs k, st) | _ \<Rightarrow> None)"
| "parse_step BeginKeyOrEmpty t st =
     (case t of TStr k \<Rightarrow> Some (AfterKey [] k, st) | TEndObj \<Rightarrow> Some (After (JObj []), st) | _ \<Rightarrow> None)"
| "parse_step (AfterKey kvs k) t st =
     (if t = TColon then Some (BeginValue, OpenObj kvs k # st) else None)"
| "parse_step (After v) t st = end_value v t st"

fun parse_tokens :: "parse_mode \<Rightarrow> frame list \<Rightarrow> token list \<Rightarrow> json option" where
  "parse_tokens m st [] = (case (m, st) of (After v, []) \<Rightarrow> Some v | _ \<Rightarrow> None)"
| "parse_tokens m st (t # ts) =
     (case parse_step m t st of None \<Rightarrow> None | Some (m', st') \<Rightarrow> parse_tokens m' st' ts)"

definition parse_json :: "string \<Rightarrow> json option" where
  "parse_json s = Option.bind (lex Outside s) (parse_tokens BeginValue [])"

section \<open>The printer\<close>

fun join_tokens :: "token list list \<Rightarrow> token list" where
  "join_tokens [] = []"
| "join_tokens [ts] = ts"
| "join_tokens (ts # us # tss) = ts @ TComma # join_tokens (us # tss)"

fun tokens :: "json \<Rightarrow> token list" where
  "tokens JNull = [TNull]"
| "tokens (JBool b) = [if b then TTrue else TFalse]"
| "tokens (JNum s) = [TNum s]"
| "tokens (JStr s) = [TStr s]"
| "tokens (JArr vs) = TBeginArr # join_tokens (map tokens vs) @ [TEndArr]"
| "tokens (JObj kvs) =
     TBeginObj # join_tokens (map (\<lambda>(k, v). TStr k # TColon # tokens v) kvs) @ [TEndObj]"

fun token_text :: "token \<Rightarrow> string" where
  "token_text TBeginObj = [CHR 0x7B]"
| "token_text TEndObj = [CHR 0x7D]"
| "token_text TBeginArr = [CHR 0x5B]"
| "token_text TEndArr = [CHR 0x5D]"
| "token_text TColon = '':''"
| "token_text TComma = '',''"
| "token_text TNull = ''null''"
| "token_text TTrue = ''true''"
| "token_text TFalse = ''false''"
| "token_text (TNum s) = s"
| "token_text (TStr s) = dquote # s @ [dquote]"

definition print_json :: "json \<Rightarrow> string" where
  "print_json v = concat (map token_text (tokens v))"

end
