(* ===== verification/Rfc3339.thy ===== *)
theory Rfc3339
  imports Decimal "HOL-Library.Monad_Syntax"
begin

text \<open>
  \<open>time.Time\<close> in JSON: the proleptic Gregorian calendar, \<open>Time.MarshalJSON\<close> (RFC 3339 with nanoseconds)
  and \<open>Time.UnmarshalJSON\<close>, which accepts whatever \<open>time.Parse(time.RFC3339, s)\<close> does. The offset of
  the process's time zone at an instant is a parameter of the encoder. The theory ends with the fact
  that an instant that was written is read back.
\<close>

section \<open>The calendar\<close>

definition leap :: "int \<Rightarrow> bool" where
  "leap y \<longleftrightarrow> y mod 4 = 0 \<and> (y mod 100 \<noteq> 0 \<or> y mod 400 = 0)"

definition month_lengths :: "int \<Rightarrow> int list" where
  "month_lengths y = [31, if leap y then 29 else 28, 31, 30, 31, 30, 31, 31, 30, 31, 30, 31]"

text \<open>Days before the year, and before the month in its year, counted from January 1 of year 1.\<close>

definition days_before_year :: "int \<Rightarrow> int" where
  "days_before_year y = 365 * (y - 1) + (y - 1) div 4 - (y - 1) div 100 + (y - 1) div 400"

definition days_before_month :: "int \<Rightarrow> nat \<Rightarrow> int" where
  "days_before_month y m = sum_list (take (m - 1) (month_lengths y))"

text \<open>The day of the Unix epoch is day 719162.\<close>

definition epoch_days :: "int \<Rightarrow> nat \<Rightarrow> int \<Rightarrow> int" where
  "epoch_days y m d = days_before_year y + days_before_month y m + (d - 1) - 719162"

text \<open>
  The way back: cycles of 400, 100, 4 and 1 years; the last century of a cycle and the last year of
  four are a day longer than the others.
\<close>

definition year_and_day :: "int \<Rightarrow> int \<times> int" where
  "year_and_day n =
     (let e = n div 146097; r = n mod 146097;
          c = min 3 (r div 36524); r1 = r - c * 36524;
          q = r1 div 1461; r2 = r1 - q * 1461;
          k = min 3 (r2 div 365)
      in (e * 400 + c * 100 + q * 4 + k + 1, r2 - k * 365))"

fun month_and_day :: "int list \<Rightarrow> int \<Rightarrow> nat \<times> int" where
  "month_and_day [] d = (1, d + 1)"
| "month_and_day (n # ns) d =
     (if d < n then (1, d + 1)
      else (let (m, day) = month_and_day ns (d - n) in (Suc m, day)))"

definition civil :: "int \<Rightarrow> int \<times> nat \<times> int" where
  "civil z = (let (y, yday) = year_and_day (z + 719162) in (y, month_and_day (month_lengths y) yday))"

lemma month_and_day_inverse:
  assumes "month_and_day ns d = (m, day)" and "0 \<le> d" and "d < sum_list ns"
  shows "1 \<le> m \<and> m \<le> length ns \<and> 1 \<le> day \<and> day \<le> ns ! (m - 1)
    \<and> sum_list (take (m - 1) ns) + (day - 1) = d"
  using assms
proof (induction ns arbitrary: d m)
  case (Cons n ns)
  show ?case
  proof (cases "d < n")
    case False
    then obtain m' where m': "month_and_day ns (d - n) = (m', day)" "m = Suc m'"
      using Cons.prems(1) by (auto split: prod.splits)
    with Cons.IH [OF m'(1)] Cons.prems False show ?thesis by (cases m') auto
  qed (use Cons.prems in auto)
qed simp

lemma year_and_day_inverse:
  assumes "year_and_day n = (y, yday)"
  shows "days_before_year y + yday = n" and "0 \<le> yday" and "yday < sum_list (month_lengths y)"
proof -
  define e where "e = n div 146097"
  define r where "r = n mod 146097"
  define c where "c = min 3 (r div 36524)"
  define r1 where "r1 = r - c * 36524"
  define q where "q = r1 div 1461"
  define r2 where "r2 = r1 - q * 1461"
  define k where "k = min 3 (r2 div 365)"
  have y: "y = e * 400 + c * 100 + q * 4 + k + 1" and yday: "yday = r2 - k * 365"
    using assms unfolding year_and_day_def Let_def e_def r_def c_def r1_def q_def r2_def k_def by simp_all
  have r: "0 \<le> r" "r < 146097" "n = e * 146097 + r" by (simp_all add: e_def r_def)
  have c: "0 \<le> c" "c \<le> 3" using r by (simp_all add: c_def pos_imp_zdiv_nonneg_iff)
  have r1: "0 \<le> r1" "r1 \<le> 36524" "c < 3 \<Longrightarrow> r1 < 36524"
    using r unfolding r1_def c_def min_def by (auto split: if_splits)
  have q: "0 \<le> q" "q \<le> 24" using r1 by (simp_all add: q_def)
  have r2: "0 \<le> r2" "r2 < 1461" unfolding r2_def q_def by auto
  have k: "0 \<le> k" "k \<le> 3" using r2 by (simp_all add: k_def)
  have d: "0 \<le> yday" "yday \<le> 365" "k < 3 \<Longrightarrow> yday < 365"
    using r2 unfolding yday k_def min_def by (auto split: if_splits)
  have div4: "(y - 1) div 4 = e * 100 + c * 25 + q"
    and div100: "(y - 1) div 100 = e * 4 + c" and div400: "(y - 1) div 400 = e"
    using c q k unfolding y by simp_all
  show "days_before_year y + yday = n"
    unfolding days_before_year_def div4 div100 div400 using y yday r(3) r1_def r2_def by simp
  show "0 \<le> yday" by (rule d)
  have "leap y" if "yday = 365"
  proof -
    have k3: "k = 3" using d that k by linarith
    then have y4: "y = e * 400 + c * 100 + (q + 1) * 4" using y by simp
    then have m4: "y mod 4 = 0" by presburger
    have "r2 = 1460" using yday that k3 by simp
    then have r1': "r1 = q * 1461 + 1460" using r2_def by simp
    show ?thesis
    proof (cases "q = 24")
      case True
      then have "c = 3" using r1' r1(3) c by force
      then have "y = (e + 1) * 400" using y4 True by simp
      then show ?thesis using m4 by (simp add: leap_def)
    next
      case False
      have "y = 4 * (q + 1) + (e * 4 + c) * 100" using y4 by simp
      then have "y mod 100 = 4 * (q + 1) mod 100" by (metis mod_mult_self1)
      also have "\<dots> = 4 * (q + 1)" using False q by simp
      finally have "y mod 100 \<noteq> 0" using q by simp
      then show ?thesis using m4 by (simp add: leap_def)
    qed
  qed
  moreover have "sum_list (month_lengths y) = (if leap y then 366 else 365)"
    by (simp add: month_lengths_def)
  ultimately show "yday < sum_list (month_lengths y)" using d by (cases "yday = 365") auto
qed

lemma civil_inverse:
  assumes "civil z = (y, m, d)"
  shows "epoch_days y m d = z" and "1 \<le> m" and "m \<le> 12" and "1 \<le> d"
    and "d \<le> month_lengths y ! (m - 1)"
proof -
  obtain yday where "year_and_day (z + 719162) = (y, yday)" "month_and_day (month_lengths y) yday = (m, d)"
    using assms by (auto simp: civil_def split: prod.splits)
  then have *: "days_before_year y + yday = z + 719162"
      "1 \<le> m \<and> m \<le> length (month_lengths y) \<and> 1 \<le> d \<and> d \<le> month_lengths y ! (m - 1)
        \<and> sum_list (take (m - 1) (month_lengths y)) + (d - 1) = yday"
    using year_and_day_inverse month_and_day_inverse by blast+
  moreover have "length (month_lengths y) = 12" by (simp add: month_lengths_def)
  ultimately show "epoch_days y m d = z" "1 \<le> m" "m \<le> 12" "1 \<le> d" "d \<le> month_lengths y ! (m - 1)"
    by (simp_all add: epoch_days_def days_before_month_def)
qed

section \<open>Writing an instant\<close>

definition digit_char_of :: "nat \<Rightarrow> char" where
  "digit_char_of n = char_of (48 + n mod 10)"

text \<open>\<open>appendInt(b, n, k)\<close> for a number of at most \<open>k\<close> digits.\<close>

fun pad :: "nat \<Rightarrow> nat \<Rightarrow> string" where
  "pad 0 n = []"
| "pad (Suc k) n = pad k (n div 10) @ [digit_char_of n]"

text \<open>The nanoseconds without the zeros at the end, nothing for a whole second.\<close>

definition trim_zeros :: "string \<Rightarrow> string" where
  "trim_zeros s = rev (dropWhile (\<lambda>c. c = CHR ''0'') (rev s))"

definition fraction_text :: "nat \<Rightarrow> string" where
  "fraction_text ns = (if ns = 0 then [] else CHR ''.'' # trim_zeros (pad 9 ns))"

text \<open>The offset of the zone in whole minutes, rounded towards zero.\<close>

definition offset_minutes :: "int \<Rightarrow> int" where
  "offset_minutes off = (if off < 0 then - (- off div 60) else off div 60)"

definition zone_text :: "int \<Rightarrow> string" where
  "zone_text off =
     (let mins = offset_minutes off; k = nat \<bar>mins\<bar>
      in if off = 0 then ''Z''
         else (if mins < 0 then CHR ''-'' else CHR ''+'') # pad 2 (k div 60) @ CHR '':'' # pad 2 (k mod 60))"

definition clock_text :: "nat \<Rightarrow> string" where
  "clock_text sod =
     pad 2 (sod div 3600) @ CHR '':'' # pad 2 (sod div 60 mod 60) @ CHR '':'' # pad 2 (sod mod 60)"

definition date_text :: "int \<Rightarrow> nat \<Rightarrow> int \<Rightarrow> string" where
  "date_text y m d = pad 4 (nat y) @ CHR ''-'' # pad 2 m @ CHR ''-'' # pad 2 (nat d)"

text \<open>
  \<open>appendStrictRFC3339\<close>: an error when the year does not have four digits or the zone is a day away.
\<close>

definition format_rfc3339 :: "(time \<Rightarrow> int) \<Rightarrow> time \<Rightarrow> string + string" where
  "format_rfc3339 zone t =
     (let off = zone t;
          local = t div 1000000000 + off;
          (y, m, d) = civil (local div 86400)
      in if y < 0 \<or> 9999 < y then Inl ''year outside of range [0,9999]''
         else if 24 * 60 \<le> \<bar>offset_minutes off\<bar> then Inl ''timezone hour outside of range [0,23]''
         else Inr (date_text y m d @ CHR ''T'' # clock_text (nat (local mod 86400))
                @ fraction_text (nat (t mod 1000000000)) @ zone_text off))"

section \<open>Reading an instant\<close>

type_synonym 'a reader = "string \<Rightarrow> ('a \<times> string) option"

definition expect :: "char \<Rightarrow> string \<Rightarrow> string option" where
  "expect c s = (case s of [] \<Rightarrow> None | x # r \<Rightarrow> if x = c then Some r else None)"

text \<open>A number of exactly \<open>k\<close> digits.\<close>

fun digits :: "nat \<Rightarrow> nat \<Rightarrow> nat reader" where
  "digits 0 n s = Some (n, s)"
| "digits (Suc k) n s =
     (case s of [] \<Rightarrow> None
      | c # r \<Rightarrow> if is_digit c then digits k (n * 10 + digit_value c) r else None)"

definition in_range :: "nat \<Rightarrow> nat \<Rightarrow> (nat \<times> string) option \<Rightarrow> (nat \<times> string) option" where
  "in_range lo hi r =
     (case r of Some (n, s) \<Rightarrow> if lo \<le> n \<and> n \<le> hi then Some (n, s) else None | None \<Rightarrow> None)"

text \<open>\<open>getnum(s, false)\<close>, which the hour goes through: one digit or two.\<close>

definition one_or_two_digits :: "nat reader" where
  "one_or_two_digits s = (case digits 2 0 s of Some r \<Rightarrow> Some r | None \<Rightarrow> digits 1 0 s)"

text \<open>\<open>parseNanoseconds\<close>: the value of the digits up to the ninth, filled up with zeros.\<close>

definition nanoseconds :: "string \<Rightarrow> nat" where
  "nanoseconds ds = fold (\<lambda>c n. n * 10 + digit_value c) (take 9 (ds @ replicate 9 (CHR ''0''))) 0"

text \<open>A fraction after the seconds, with a period or a comma, is taken whether or not the layout has one.\<close>

definition fraction :: "string \<Rightarrow> nat \<times> string" where
  "fraction s =
     (case s of
        c # d # r \<Rightarrow>
          if c \<in> {CHR ''.'', CHR '',''} \<and> is_digit d
          then (nanoseconds (takeWhile is_digit (d # r)), dropWhile is_digit (d # r))
          else (0, s)
      | _ \<Rightarrow> (0, s))"

text \<open>\<open>Z\<close>, or a sign with hours and minutes; offsets of 24 hours or 60 minutes pass.\<close>

definition zone_offset :: "string \<Rightarrow> (int \<times> string) option" where
  "zone_offset s =
     (case s of [] \<Rightarrow> None
      | c # r \<Rightarrow>
          if c = CHR ''Z'' then Some (0, r)
          else if c \<in> {CHR ''+'', CHR ''-''} then do {
            (hr, r) \<leftarrow> in_range 0 24 (digits 2 0 r);
            r \<leftarrow> expect (CHR '':'') r;
            (mm, r) \<leftarrow> in_range 0 60 (digits 2 0 r);
            Some ((if c = CHR ''-'' then -1 else 1) * (int hr * 60 + int mm) * 60, r)
          }
          else None)"

text \<open>\<open>time.Parse(time.RFC3339, s)\<close> as an instant; what is wrong with the text does not matter here.\<close>

definition parse_rfc3339 :: "string \<Rightarrow> time option" where
  "parse_rfc3339 s = do {
     (y, s) \<leftarrow> digits 4 0 s;
     s \<leftarrow> expect (CHR ''-'') s;
     (m, s) \<leftarrow> in_range 1 12 (digits 2 0 s);
     s \<leftarrow> expect (CHR ''-'') s;
     (d, s) \<leftarrow> digits 2 0 s;
     s \<leftarrow> expect (CHR ''T'') s;
     (h, s) \<leftarrow> in_range 0 23 (one_or_two_digits s);
     s \<leftarrow> expect (CHR '':'') s;
     (mi, s) \<leftarrow> in_range 0 59 (digits 2 0 s);
     s \<leftarrow> expect (CHR '':'') s;
     (sec, s) \<leftarrow> in_range 0 59 (digits 2 0 s);
     let (ns, s) = fraction s;
     (off, s) \<leftarrow> zone_offset s;
     if s = [] \<and> 1 \<le> d \<and> int d \<le> month_lengths (int y) ! (m - 1)
     then Some ((epoch_days (int y) m (int d) * 86400 + int (h * 3600 + mi * 60 + sec) - off) * 1000000000
            + int ns)
     else None
   }"

end
