(* ===== verification/Wire.thy ===== *)
theory Wire
  imports RR_Client Json Rfc3339
begin

text \<open>
  The payloads on the wire: what \<open>json.Marshal\<close> and \<open>json.Unmarshal\<close> do at the types of
  \<open>internal/domain/model/model.go\<close>, driven by their struct tags and by \<open>OpaqueBlob\<close>'s own two methods.
  A decoder takes the JSON value and the variable it decodes into, whose old content it keeps where
  Go's decoder keeps it (a \<open>null\<close> for a plain field). \<open>go_json\<close> is the codec the adapters use; its only
  parameter is the offset of the local time zone.
\<close>

section \<open>Decoders\<close>

text \<open>\<open>None\<close> is a value of the wrong type; the rest of the text of the error is not kept.\<close>

type_synonym 'a decoder = "json \<Rightarrow> 'a \<Rightarrow> 'a option"

definition dec_string :: "string decoder" where
  "dec_string v cur = (case v of JStr q \<Rightarrow> unquote q | JNull \<Rightarrow> Some cur | _ \<Rightarrow> None)"

definition dec_int64 :: "i64 decoder" where
  "dec_int64 v cur =
     (case v of
        JNum s \<Rightarrow> (case parse_decimal s of Inl _ \<Rightarrow> None | Inr n \<Rightarrow> Some n)
      | JNull \<Rightarrow> Some cur
      | _ \<Rightarrow> None)"

definition dec_bool :: "bool decoder" where
  "dec_bool v cur = (case v of JBool b \<Rightarrow> Some b | JNull \<Rightarrow> Some cur | _ \<Rightarrow> None)"

text \<open>A pointer to a string: \<open>null\<close> makes it nil.\<close>

definition dec_string_ptr :: "string option decoder" where
  "dec_string_ptr v cur =
     (case v of
        JNull \<Rightarrow> Some None
      | _ \<Rightarrow> map_option Some (dec_string v (case cur of None \<Rightarrow> [] | Some s \<Rightarrow> s)))"

text \<open>
  \<open>Time.UnmarshalJSON\<close> gets the raw text of the value and does not undo escapes in it: a string with
  an escape is not a time.
\<close>

definition dec_time :: "time decoder" where
  "dec_time v cur = (case v of JStr q \<Rightarrow> parse_rfc3339 q | JNull \<Rightarrow> Some cur | _ \<Rightarrow> None)"

text \<open>Elements of a slice are decoded into zero values; \<open>null\<close> makes the slice nil.\<close>

fun dec_elements :: "'a decoder \<Rightarrow> 'a \<Rightarrow> json list \<Rightarrow> 'a list option" where
  "dec_elements dec zero [] = Some []"
| "dec_elements dec zero (v # vs) =
     (case (dec v zero, dec_elements dec zero vs) of
        (Some x, Some xs) \<Rightarrow> Some (x # xs)
      | _ \<Rightarrow> None)"

definition dec_slice :: "'a decoder \<Rightarrow> 'a \<Rightarrow> 'a list decoder" where
  "dec_slice dec zero v cur =
     (case v of JArr vs \<Rightarrow> dec_elements dec zero vs | JNull \<Rightarrow> Some [] | _ \<Rightarrow> None)"

section \<open>Structs\<close>

text \<open>
  Keys are compared exactly first and then without regard to case, where the Kelvin sign folds to
  \<open>K\<close> and the long s to \<open>S\<close>; no other rune outside ASCII folds to an ASCII letter.
\<close>

definition fold_char :: "char \<Rightarrow> char" where
  "fold_char c = (if 97 \<le> byte c \<and> byte c \<le> 122 then char_of (byte c - 32) else c)"

fun fold_name :: "string \<Rightarrow> string" where
  "fold_name [] = []"
| "fold_name (c # s) =
     (if take 3 (c # s) = [CHR 0xE2, CHR 0x84, CHR 0xAA] then CHR ''K'' # fold_name (drop 2 s)
      else if take 2 (c # s) = [CHR 0xC5, CHR 0xBF] then CHR ''S'' # fold_name (drop 1 s)
      else fold_char c # fold_name s)"

type_synonym 's fields = "(string \<times> 's decoder) list"

definition find_field :: "'s fields \<Rightarrow> string \<Rightarrow> 's decoder option" where
  "find_field fs key =
     (case map_of fs key of
        Some dec \<Rightarrow> Some dec
      | None \<Rightarrow> map_of (map (\<lambda>(name, dec). (fold_name name, dec)) fs) (fold_name key))"

text \<open>The members in the order of the text: an unknown key is skipped, the last duplicate wins.\<close>

fun dec_members :: "'s fields \<Rightarrow> (string \<times> json) list \<Rightarrow> 's \<Rightarrow> 's option" where
  "dec_members fs [] s = Some s"
| "dec_members fs ((k, v) # kvs) s =
     (case unquote k of
        None \<Rightarrow> None
      | Some key \<Rightarrow>
          (case find_field fs key of
             None \<Rightarrow> dec_members fs kvs s
           | Some dec \<Rightarrow> Option.bind (dec v s) (dec_members fs kvs)))"

definition dec_struct :: "'s fields \<Rightarrow> 's decoder" where
  "dec_struct fs v s =
     (case v of JObj kvs \<Rightarrow> dec_members fs kvs s | JNull \<Rightarrow> Some s | _ \<Rightarrow> None)"

text \<open>The decoder of one field: how the field is read and set, and the decoder of its type.\<close>

definition field :: "('s \<Rightarrow> 'a) \<Rightarrow> (('a \<Rightarrow> 'a) \<Rightarrow> 's \<Rightarrow> 's) \<Rightarrow> 'a decoder \<Rightarrow> 's decoder" where
  "field get upd dec v s = map_option (\<lambda>x. upd (\<lambda>_. x) s) (dec v (get s))"

text \<open>\<open>json.Unmarshal(data, &x)\<close>: the text is checked as a whole before anything is decoded.\<close>

definition err_syntax :: string where "err_syntax = ''invalid JSON''"
definition err_mismatch :: string where "err_mismatch = ''cannot unmarshal''"

definition Unmarshal :: "'a decoder \<Rightarrow> string \<Rightarrow> 'a \<Rightarrow> string + 'a" where
  "Unmarshal dec data x =
     (case parse_json data of
        None \<Rightarrow> Inl err_syntax
      | Some v \<Rightarrow> (case dec v x of None \<Rightarrow> Inl err_mismatch | Some y \<Rightarrow> Inr y))"

section \<open>Opaque blobs\<close>

text \<open>
  The two methods of \<open>OpaqueBlob\<close>. As a field it is decoded by its method, which gets the text of the
  value, here without the blanks between its tokens.
\<close>

definition OpaqueBlob_UnmarshalJSON :: "string \<Rightarrow> opaque_blob \<Rightarrow> string + opaque_blob" where
  "OpaqueBlob_UnmarshalJSON data ob =
     (case Unmarshal dec_string data [] of
        Inl err \<Rightarrow> Inl err
      | Inr s \<Rightarrow> Inr (ob\<lparr>blob_Value := s\<rparr>))"

definition OpaqueBlob_MarshalJSON :: "opaque_blob \<Rightarrow> string + string" where
  "OpaqueBlob_MarshalJSON ob = Inr (print_json (JStr (quote (blob_Value ob))))"

definition dec_blob :: "opaque_blob decoder" where
  "dec_blob v cur =
     (case OpaqueBlob_UnmarshalJSON (print_json v) cur of Inl _ \<Rightarrow> None | Inr ob \<Rightarrow> Some ob)"

section \<open>The types that are decoded\<close>

definition zero_envelope :: telemetry_envelope where
  "zero_envelope = \<lparr>env_GatewayID = [], env_SensorID = [], env_SensorType = [],
     env_Timestamp = zero_time, env_KeyVersion = 0, env_EncryptedData = \<lparr>blob_Value = []\<rparr>,
     env_IV = \<lparr>blob_Value = []\<rparr>, env_AuthTag = \<lparr>blob_Value = []\<rparr>\<rparr>"

definition envelope_fields :: "telemetry_envelope fields" where
  "envelope_fields =
     [(''gatewayId'', field env_GatewayID env_GatewayID_update dec_string),
      (''sensorId'', field env_SensorID env_SensorID_update dec_string),
      (''sensorType'', field env_SensorType env_SensorType_update dec_string),
      (''timestamp'', field env_Timestamp env_Timestamp_update dec_time),
      (''keyVersion'', field env_KeyVersion env_KeyVersion_update dec_int64),
      (''encryptedData'', field env_EncryptedData env_EncryptedData_update dec_blob),
      (''iv'', field env_IV env_IV_update dec_blob),
      (''authTag'', field env_AuthTag env_AuthTag_update dec_blob)]"

definition alert_config_fields :: "alert_config fields" where
  "alert_config_fields =
     [(''tenant_id'', field cfg_TenantID cfg_TenantID_update dec_string),
      (''gateway_id'', field cfg_GatewayID cfg_GatewayID_update dec_string_ptr),
      (''timeout_ms'', field cfg_TimeoutMs cfg_TimeoutMs_update dec_int64)]"

definition zero_alert_config :: alert_config where
  "zero_alert_config = \<lparr>cfg_TenantID = [], cfg_GatewayID = None, cfg_TimeoutMs = 0\<rparr>"

definition update_response_fields :: "gateway_status_update_response fields" where
  "update_response_fields =
     [(''success'', field resp_Success resp_Success_update dec_bool),
      (''error'', field resp_Error resp_Error_update dec_string)]"

definition lifecycle_response_fields :: "gateway_lifecycle_response fields" where
  "lifecycle_response_fields =
     [(''gateway_id'', field lresp_GatewayID lresp_GatewayID_update dec_string),
      (''state'', field lresp_State lresp_State_update dec_string)]"

section \<open>The types that are encoded\<close>

definition json_string :: "string \<Rightarrow> json" where
  "json_string s = JStr (quote s)"

definition json_int64 :: "i64 \<Rightarrow> json" where
  "json_int64 n = JNum (show_int (sint n))"

text \<open>A struct is written field by field; the first field that fails is the error.\<close>

fun json_members :: "(string \<times> (string + json)) list \<Rightarrow> string + (string \<times> json) list" where
  "json_members [] = Inr []"
| "json_members ((k, r) # kvs) =
     (case r of
        Inl e \<Rightarrow> Inl e
      | Inr v \<Rightarrow> map_sum id ((#) (k, v)) (json_members kvs))"

definition Marshal_struct :: "(string \<times> (string + json)) list \<Rightarrow> string + string" where
  "Marshal_struct kvs = map_sum id (print_json \<circ> JObj) (json_members kvs)"

definition json_time :: "(time \<Rightarrow> int) \<Rightarrow> time \<Rightarrow> string + json" where
  "json_time zone t = map_sum id JStr (format_rfc3339 zone t)"

fun status_text :: "gateway_status \<Rightarrow> string" where
  "status_text Offline = ''offline''"
| "status_text Online = ''online''"

definition Marshal_status_update :: "(time \<Rightarrow> int) \<Rightarrow> gateway_status_update \<Rightarrow> string + string" where
  "Marshal_status_update zone u = Marshal_struct
     [(''gateway_id'', Inr (json_string (upd_GatewayID u))),
      (''status'', Inr (json_string (status_text (upd_Status u)))),
      (''last_seen_at'', json_time zone (upd_LastSeenAt u))]"

definition Marshal_lifecycle_request :: "gateway_lifecycle_request \<Rightarrow> string + string" where
  "Marshal_lifecycle_request r = Marshal_struct
     [(''gateway_id'', Inr (json_string (lreq_GatewayID r))),
      (''tenant_id'', Inr (json_string (lreq_TenantID r)))]"

definition Marshal_alert :: "(time \<Rightarrow> int) \<Rightarrow> alert_payload \<Rightarrow> string + string" where
  "Marshal_alert zone a = Marshal_struct
     [(''gatewayId'', Inr (json_string (al_GatewayID a))),
      (''lastSeen'', json_time zone (al_LastSeen a)),
      (''timeoutMs'', Inr (json_int64 (al_TimeoutMs a))),
      (''timestamp'', json_time zone (al_Timestamp a))]"

text \<open>
  \<open>json.Marshal\<close> at \<open>TelemetryEnvelope\<close> is what a gateway sends; the service itself only decodes it. A
  field with a method is written by it, and its text is checked and compacted into that of the struct.
\<close>

definition blob_json :: "opaque_blob \<Rightarrow> string + json" where
  "blob_json ob =
     (case OpaqueBlob_MarshalJSON ob of
        Inl err \<Rightarrow> Inl err
      | Inr data \<Rightarrow> (case parse_json data of None \<Rightarrow> Inl err_syntax | Some v \<Rightarrow> Inr v))"

definition Marshal_envelope :: "(time \<Rightarrow> int) \<Rightarrow> telemetry_envelope \<Rightarrow> string + string" where
  "Marshal_envelope zone e = Marshal_struct
     [(''gatewayId'', Inr (json_string (env_GatewayID e))),
      (''sensorId'', Inr (json_string (env_SensorID e))),
      (''sensorType'', Inr (json_string (env_SensorType e))),
      (''timestamp'', json_time zone (env_Timestamp e)),
      (''keyVersion'', Inr (json_int64 (env_KeyVersion e))),
      (''encryptedData'', blob_json (env_EncryptedData e)),
      (''iv'', blob_json (env_IV e)),
      (''authTag'', blob_json (env_AuthTag e))]"

text \<open>The calls of \<open>json.Unmarshal\<close> decode into variables that hold the zero value.\<close>

definition Unmarshal_envelope :: "string \<Rightarrow> string + telemetry_envelope" where
  "Unmarshal_envelope data = Unmarshal (dec_struct envelope_fields) data zero_envelope"

definition Unmarshal_alert_configs :: "string \<Rightarrow> string + alert_config list" where
  "Unmarshal_alert_configs data =
     Unmarshal (dec_slice (dec_struct alert_config_fields) zero_alert_config) data []"

definition Unmarshal_update_response :: "string \<Rightarrow> string + gateway_status_update_response" where
  "Unmarshal_update_response data =
     Unmarshal (dec_struct update_response_fields) data \<lparr>resp_Success = False, resp_Error = []\<rparr>"

definition Unmarshal_lifecycle_response :: "string \<Rightarrow> string + gateway_lifecycle_response" where
  "Unmarshal_lifecycle_response data =
     Unmarshal (dec_struct lifecycle_response_fields) data \<lparr>lresp_GatewayID = [], lresp_State = []\<rparr>"

definition go_json :: "(time \<Rightarrow> int) \<Rightarrow> json_codec" where
  "go_json zone = \<lparr>
     enc_status_update = Marshal_status_update zone,
     enc_lifecycle_request = Marshal_lifecycle_request,
     enc_alert = Marshal_alert zone,
     dec_alert_configs = Unmarshal_alert_configs,
     dec_update_response = Unmarshal_update_response,
     dec_lifecycle_response = Unmarshal_lifecycle_response,
     dec_envelope = Unmarshal_envelope\<rparr>"

end
