(* ===== verification/Json_Lemmas.thy ===== *)
theory Json_Lemmas
  imports Json
begin

text \<open>
  What is printed is read back: the scanner finds the tokens of a printed value again, and the parser
  the value, as long as its strings and numbers are well formed and it is not nested too deeply.
\<close>

section \<open>Running the scanner over a part of the text\<close>

fun lex_run :: "lex_state \<Rightarrow> string \<Rightarrow> (token list \<times> lex_state) option" where
  "lex_run m [] = Some ([], m)"
| "lex_run m (c # cs) =
     (case lex_step m c of
        None \<Rightarrow> None
      | Some (ts, m') \<Rightarrow> map_option (apfst ((@) ts)) (lex_run m' cs))"

lemma lex_append:
  "lex_run m s = Some (ts, m') \<Longrightarrow> lex m (s @ r) = map_option ((@) ts) (lex m' r)"
proof (induction s arbitrary: m ts)
  case (Cons c cs)
  then obtain us m1 vs where "lex_step m c = Some (us, m1)" "lex_run m1 cs = Some (vs, m')" "ts = us @ vs"
    by (auto split: option.splits)
  then show ?case using Cons.IH [of m1 vs] by (simp add: option.map_comp comp_def)
qed (simp add: option.map_ident)

lemma lex_run_append:
  "lex_run m s = Some (ts, m') \<Longrightarrow> lex_run m (s @ r) = map_option (apfst ((@) ts)) (lex_run m' r)"
proof (induction s arbitrary: m ts)
  case Nil
  then show ?case by (cases "lex_run m' r") auto
next
  case (Cons c cs)
  then obtain us m1 vs where "lex_step m c = Some (us, m1)" "lex_run m1 cs = Some (vs, m')" "ts = us @ vs"
    by (auto split: option.splits)
  then show ?case
    using Cons.IH [of m1 vs] by (cases "lex_run m' r") auto
qed

section \<open>Strings and numbers\<close>

text \<open>Raw text that the scanner accepts between the quotation marks, and as a number.\<close>

definition str_ok :: "string \<Rightarrow> bool" where
  "str_ok q \<longleftrightarrow> lex_run (InStr []) q = Some ([], InStr (rev q))"

definition num_ok :: "string \<Rightarrow> bool" where
  "num_ok s \<longleftrightarrow>
     (case lex_run Outside s of
        Some (ts, m) \<Rightarrow> ts = [] \<and> lex_end m = Some [TNum s]
      | None \<Rightarrow> False)"

lemma hex_val_hex_char_ok: "n < 16 \<Longrightarrow> hex_val (hex_char n) \<noteq> None"
  by simp

lemma lex_run_plain:
  "list_all (\<lambda>d. 0x80 \<le> byte d) s \<Longrightarrow> lex_run (InStr acc) s = Some ([], InStr (rev s @ acc))"
proof (induction s arbitrary: acc)
  case (Cons d ds)
  then have "d \<noteq> dquote" "d \<noteq> backslash" "\<not> byte d < 32" by auto
  with Cons show ?case by simp
qed simp

lemma lex_run_quote_ascii:
  assumes "byte c < 128"
  shows "lex_run (InStr acc) (quote_ascii c) = Some ([], InStr (rev (quote_ascii c) @ acc))"
  using assms
proof (cases rule: quote_ascii_cases)
  case (short e)
  then have "e \<in> {CHR ''b'', CHR ''f'', CHR ''n'', CHR ''r'', CHR ''t'', backslash, CHR ''/'', dquote}
      \<or> e = CHR 0x27"
    by (auto simp: unescape_def split: if_splits)
  moreover have "e \<noteq> CHR 0x27"
  proof
    assume "e = CHR 0x27"
    with short have "c = CHR 0x27" by (simp add: unescape_def)
    with short show False by (simp add: quote_ascii_def)
  qed
  ultimately show ?thesis using short(1) by simp
next
  case hex
  have "byte c div 16 < 16" "byte c mod 16 < 16" using assms by auto
  then show ?thesis
    using hex by (simp add: hex_val_def [of "CHR ''0''"] numeral_3_eq_3)
qed (use assms in simp)

lemma lex_run_quote_head:
  "lex_run (InStr acc) (fst (quote_head c cs)) = Some ([], InStr (rev (fst (quote_head c cs)) @ acc))"
proof (cases "byte c < 128")
  case True
  then show ?thesis by (simp add: quote_head_def lex_run_quote_ascii)
next
  case False
  have esc: "lex_run (InStr acc) (backslash # ''ufffd'') = Some ([], InStr (rev (backslash # ''ufffd'') @ acc))"
    "lex_run (InStr acc) (backslash # ''u2028'') = Some ([], InStr (rev (backslash # ''u2028'') @ acc))"
    "lex_run (InStr acc) (backslash # ''u2029'') = Some ([], InStr (rev (backslash # ''u2029'') @ acc))"
    by (simp_all add: hex_val_def numeral_3_eq_3)
  have rune: "lex_run (InStr acc) (take (rune_len (c # cs)) (c # cs))
      = Some ([], InStr (rev (take (rune_len (c # cs)) (c # cs)) @ acc))" if "0 < rune_len (c # cs)"
    using that False by (intro lex_run_plain rune_bytes) simp_all
  show ?thesis
    unfolding quote_head_def Let_def using False esc rune
    by (simp only: if_False fst_conv if_distrib [of fst] split: if_split) simp
qed

lemma str_ok_quote [simp]: "str_ok (quote s)"
proof -
  have "lex_run (InStr acc) (quote s) = Some ([], InStr (rev (quote s) @ acc))" for acc
  proof (induction s arbitrary: acc rule: quote.induct)
    case (2 c cs)
    then show ?case by (simp add: lex_run_append [OF lex_run_quote_head])
  qed simp
  then show ?thesis by (simp add: str_ok_def)
qed

lemma str_ok_plain:
  assumes "list_all (\<lambda>d. 32 \<le> byte d \<and> d \<noteq> dquote \<and> d \<noteq> backslash) s"
  shows "str_ok s"
proof -
  have "lex_run (InStr acc) s = Some ([], InStr (rev s @ acc))" for acc
    using assms by (induction s arbitrary: acc) simp_all
  then show ?thesis by (simp add: str_ok_def)
qed

lemma lex_run_digits:
  "list_all is_digit s \<Longrightarrow> lex_run (InInt acc) s = Some ([], InInt (rev s @ acc))"
  by (induction s arbitrary: acc) simp_all

lemma show_nat_digits: "list_all is_digit (show_nat n)"
proof (induction n rule: show_nat.induct)
  case (1 n)
  then show ?case by (simp add: show_nat.simps [of n] digit_char)
qed

lemma show_nat_zero: "hd (show_nat n) = CHR ''0'' \<Longrightarrow> n = 0"
proof (induction n rule: show_nat.induct)
  case (1 n)
  have "char_of (48 + n) = CHR ''0'' \<Longrightarrow> n = 0" if "n < 10"
    using digit_char [OF that] by (auto simp: digit_value_def)
  with 1 show ?case by (auto simp: show_nat.simps [of n] split: if_splits)
qed

lemma show_nat_0: "show_nat 0 = ''0''"
  using char_of_byte [of "CHR ''0''"] by (simp add: show_nat.simps [of 0])

lemma lex_outside_digit:
  assumes "is_digit d" and "d \<noteq> CHR ''0''"
  shows "lex_outside d = Some ([], InInt [d])"
proof -
  have "d \<notin> {CHR '' '', CHR 0x09, CHR 0x0A, CHR 0x0D, CHR 0x7B, CHR 0x7D, CHR 0x5B, CHR 0x5D,
      CHR '':'', CHR '','', dquote, CHR ''-''}"
    using assms(1) by (auto simp: is_digit_def)
  with assms show ?thesis by (simp add: lex_outside_def is_space_def)
qed

text \<open>The scanner's states after the digits of a number that was printed in decimal.\<close>

lemma lex_run_show_nat:
  assumes "m \<in> {Outside, AfterMinus acc}" and "m = Outside \<Longrightarrow> acc = []"
  shows "lex_run m (show_nat n) =
    Some ([], if n = 0 then AfterZero (CHR ''0'' # acc) else InInt (rev (show_nat n) @ acc))"
proof (cases "n = 0")
  case True
  then show ?thesis
    using assms by (auto simp: show_nat_0 lex_outside_def is_space_def)
next
  case False
  obtain d ds where s: "show_nat n = d # ds" by (cases "show_nat n") simp_all
  then have d: "is_digit d" and ds: "list_all is_digit ds" using show_nat_digits [of n] by simp_all
  have nz: "d \<noteq> CHR ''0''" using show_nat_zero [of n] False s by auto
  have "lex_step m d = Some ([], InInt (d # acc))"
    using assms d nz lex_outside_digit [of d] by auto
  then show ?thesis using False s ds by (simp add: lex_run_digits)
qed

lemma num_ok_show_int [simp]: "num_ok (show_int i)"
proof (cases "i < 0")
  case True
  have "lex_run Outside (CHR ''-'' # show_nat n) =
      map_option (apfst ((@) [])) (lex_run (AfterMinus ''-'') (show_nat n))" for n
    by (simp add: lex_outside_def is_space_def)
  then show ?thesis
    using True lex_run_show_nat [of "AfterMinus ''-''" "''-''"]
    by (simp add: num_ok_def show_int_def show_nat_0)
next
  case False
  then show ?thesis
    using lex_run_show_nat [of Outside "[]"]
    by (simp add: num_ok_def show_int_def show_nat_0)
qed

section \<open>Well-formed values\<close>

fun json_ok :: "json \<Rightarrow> bool" where
  "json_ok (JNum s) = num_ok s"
| "json_ok (JStr s) = str_ok s"
| "json_ok (JArr vs) = list_all json_ok vs"
| "json_ok (JObj kvs) = list_all (\<lambda>(k, v). str_ok k \<and> json_ok v) kvs"
| "json_ok _ = True"

fun depth :: "json \<Rightarrow> nat" where
  "depth (JArr vs) = Suc (Max (insert 0 (set (map depth vs))))"
| "depth (JObj kvs) = Suc (Max (insert 0 (set (map (\<lambda>(k, v). depth v) kvs))))"
| "depth _ = 0"

fun token_ok :: "token \<Rightarrow> bool" where
  "token_ok (TNum s) = num_ok s"
| "token_ok (TStr s) = str_ok s"
| "token_ok _ = True"

text \<open>In a list of tokens that can be printed without blanks, a number is followed by punctuation.\<close>

fun spaced :: "token list \<Rightarrow> bool" where
  "spaced [] = True"
| "spaced (t # ts) =
     (((\<exists>s. t = TNum s) \<longrightarrow> ts = [] \<or> hd ts \<in> {TComma, TEndArr, TEndObj}) \<and> spaced ts)"

definition tokens_text :: "token list \<Rightarrow> string" where
  "tokens_text ts = concat (map token_text ts)"

lemma lex_run_token:
  assumes "token_ok t" and "\<forall>s. t \<noteq> TNum s"
  shows "lex_run Outside (token_text t) = Some ([t], Outside)"
proof (cases t)
  case (TStr s)
  with assms have "lex_run (InStr []) s = Some ([], InStr (rev s))" by (simp add: str_ok_def)
  then show ?thesis
    using TStr by (simp add: lex_run_append lex_outside_def is_space_def)
qed (use assms in \<open>simp_all add: lex_outside_def is_space_def is_digit_def\<close>)

lemma punctuation:
  assumes "c \<in> {CHR '','', CHR 0x5D, CHR 0x7D}"
  shows "\<not> is_digit c" and "\<not> is_e c" and "c \<noteq> CHR ''.''"
    and "end_number acc c = map_option (\<lambda>(ts, m). (TNum (rev acc) # ts, m)) (lex_outside c)"
    and "\<exists>t. lex_outside c = Some ([t], Outside)"
  using assms
  by (elim insertE emptyE; simp add: is_digit_def is_e_def end_number_def lex_outside_def is_space_def)+

lemma lex_number_end:
  assumes "lex_end m = Some [TNum s]" and "c \<in> {CHR '','', CHR 0x5D, CHR 0x7D}"
  shows "lex m (c # r) = map_option ((#) (TNum s)) (lex Outside (c # r))"
proof -
  obtain t where t: "lex_outside c = Some ([t], Outside)" using punctuation(5) [OF assms(2)] by blast
  note c = punctuation(1-4) [OF assms(2)]
  show ?thesis using assms(1) t c by (cases m; cases "lex Outside r") simp_all
qed

lemma lex_tokens_text:
  "list_all token_ok ts \<Longrightarrow> spaced ts \<Longrightarrow> lex Outside (tokens_text ts) = Some ts"
proof (induction ts)
  case (Cons t ts)
  then have ih: "lex Outside (tokens_text ts) = Some ts" by simp
  show ?case
  proof (cases "\<exists>s. t = TNum s")
    case False
    then show ?thesis
      using lex_append [OF lex_run_token [of t], of "tokens_text ts"] Cons.prems ih
      by (simp add: tokens_text_def)
  next
    case True
    then obtain s where t: "t = TNum s" by blast
    with Cons.prems obtain m where m: "lex_run Outside s = Some ([], m)" "lex_end m = Some [TNum s]"
      by (auto simp: num_ok_def split: option.splits)
    have run: "lex Outside (tokens_text (t # ts)) = lex m (tokens_text ts)"
      using lex_append [OF m(1), of "tokens_text ts"] t
      by (simp add: tokens_text_def option.map_ident)
    show ?thesis
    proof (cases ts)
      case Nil
      then show ?thesis using run m(2) t by (simp add: tokens_text_def)
    next
      case (Cons u us)
      then have "u \<in> {TComma, TEndArr, TEndObj}" using Cons.prems t by simp
      then obtain c where "tokens_text ts = c # tokens_text us" "c \<in> {CHR '','', CHR 0x5D, CHR 0x7D}"
        using Cons by (auto simp: tokens_text_def)
      then show ?thesis using run ih lex_number_end [OF m(2)] t by simp
    qed
  qed
qed (simp add: tokens_text_def)

section \<open>The parser on the tokens of a value\<close>

lemma tokens_hd: "\<exists>t ts. tokens v = t # ts \<and> t \<noteq> TEndArr"
  by (cases v) auto

text \<open>Where a value is expected, its tokens lead to its end.\<close>

definition reads :: "json \<Rightarrow> frame list \<Rightarrow> bool" where
  "reads v st \<longleftrightarrow>
     (\<forall>ts. parse_tokens BeginValue st (tokens v @ ts) = parse_tokens (After v) st ts)"

lemma readsD: "reads v st \<Longrightarrow>
    parse_tokens BeginValue st (tokens v @ ts) = parse_tokens (After v) st ts"
  by (simp add: reads_def)

lemma begin_or_empty:
  "parse_tokens BeginValueOrEmpty st (tokens v @ ts) = parse_tokens BeginValue st (tokens v @ ts)"
  using tokens_hd [of v] by auto

lemma parse_elements:
  assumes "\<And>v acc. v \<in> set (u # us) \<Longrightarrow> reads v (OpenArr acc # st)"
  shows "parse_tokens BeginValue (OpenArr acc # st) (join_tokens (map tokens (u # us)) @ TEndArr # ts)
    = parse_tokens (After (JArr (rev acc @ u # us))) st ts"
  using assms
proof (induction us arbitrary: u acc)
  case Nil
  then show ?case by (simp add: readsD)
next
  case (Cons v vs)
  have "reads u (OpenArr acc # st)" by (rule Cons.prems) simp
  moreover have "parse_tokens BeginValue (OpenArr (u # acc) # st)
      (join_tokens (map tokens (v # vs)) @ TEndArr # ts)
    = parse_tokens (After (JArr (rev (u # acc) @ v # vs))) st ts"
    by (rule Cons.IH) (rule Cons.prems, simp)
  ultimately show ?case by (simp add: readsD)
qed

lemma parse_members:
  assumes "\<And>v acc k'. v \<in> snd ` set (p # ps) \<Longrightarrow> reads v (OpenObj acc k' # st)"
    and "m = BeginKey acc \<or> m = BeginKeyOrEmpty \<and> acc = []"
  shows "parse_tokens m st
      (join_tokens (map (\<lambda>(k, v). TStr k # TColon # tokens v) (p # ps)) @ TEndObj # ts)
    = parse_tokens (After (JObj (rev acc @ p # ps))) st ts"
  using assms
proof (induction ps arbitrary: p acc m)
  case Nil
  obtain k v where p: "p = (k, v)" by (cases p)
  have "reads v (OpenObj acc k # st)" by (rule Nil.prems(1)) (simp add: p)
  then show ?case using Nil.prems(2) by (auto simp: p readsD)
next
  case (Cons q qs)
  obtain k v where p: "p = (k, v)" by (cases p)
  have "reads v (OpenObj acc k # st)" by (rule Cons.prems(1)) (simp add: p)
  moreover have "parse_tokens (BeginKey ((k, v) # acc)) st
      (join_tokens (map (\<lambda>(k, v). TStr k # TColon # tokens v) (q # qs)) @ TEndObj # ts)
    = parse_tokens (After (JObj (rev ((k, v) # acc) @ q # qs))) st ts"
    by (rule Cons.IH) (rule Cons.prems, simp, simp)
  ultimately show ?case using Cons.prems(2) by (auto simp: p readsD)
qed

lemma depth_member:
  "v \<in> set vs \<Longrightarrow> depth v < depth (JArr vs)" "(k, v) \<in> set kvs \<Longrightarrow> depth v < depth (JObj kvs)"
  by (force simp: less_Suc_eq_le intro!: Max_ge)+

lemma reads_value: "length st + depth v \<le> maxNestingDepth \<Longrightarrow> reads v st"
proof (induction v arbitrary: st rule: tokens.induct)
  case (5 vs)
  then have room: "open_ok st" by (simp add: open_ok_def)
  have each: "reads v (OpenArr acc # st)" if "v \<in> set vs" for v acc
    using 5 that depth_member(1) [OF that] by simp
  show ?case
  proof (cases vs)
    case Nil
    then show ?thesis using room by (simp add: reads_def)
  next
    case (Cons u us)
    show ?thesis
      unfolding reads_def
    proof
      fix ts
      obtain t tss where t: "join_tokens (map tokens vs) = t # tss" "t \<noteq> TEndArr"
        using tokens_hd [of u] Cons by (cases us) auto
      have "parse_tokens BeginValue st (tokens (JArr vs) @ ts)
          = parse_tokens BeginValue (OpenArr [] # st) (join_tokens (map tokens vs) @ TEndArr # ts)"
        using room t by simp
      also have "\<dots> = parse_tokens (After (JArr vs)) st ts"
        using parse_elements [of u us st "[]" ts] each Cons by simp
      finally show "parse_tokens BeginValue st (tokens (JArr vs) @ ts)
          = parse_tokens (After (JArr vs)) st ts" .
    qed
  qed
next
  case (6 kvs)
  then have room: "open_ok st" by (simp add: open_ok_def)
  have each: "reads v (OpenObj acc k' # st)" if "v \<in> snd ` set kvs" for v acc k'
  proof -
    from that obtain k where "(k, v) \<in> set kvs" by auto
    then show ?thesis using 6 depth_member(2) [of k v kvs] by simp
  qed
  show ?case
  proof (cases kvs)
    case Nil
    then show ?thesis using room by (simp add: reads_def)
  next
    case (Cons p ps)
    then show ?thesis
      using parse_members [of p ps st BeginKeyOrEmpty "[]"] each room
      by (simp add: reads_def)
  qed
qed (simp_all add: reads_def)

section \<open>What is printed is read back\<close>

abbreviation closed :: "token list \<Rightarrow> bool" where
  "closed ts \<equiv> spaced ts \<and> (ts = [] \<or> hd ts \<in> {TComma, TEndArr, TEndObj})"

lemma spaced_join:
  assumes "\<And>us ts. us \<in> set uss \<Longrightarrow> closed ts \<Longrightarrow> spaced (us @ ts)" and "closed ts"
  shows "spaced (join_tokens uss @ ts)"
  using assms
proof (induction uss rule: join_tokens.induct)
  case (3 us vs uss)
  then have "spaced (join_tokens (vs # uss) @ ts)" by simp
  then show ?case using 3(2) [of us] by simp
qed simp_all

lemma spaced_tokens: "closed ts \<Longrightarrow> spaced (tokens v @ ts)"
proof (induction v arbitrary: ts rule: tokens.induct)
  case (5 vs)
  have "spaced (join_tokens (map tokens vs) @ TEndArr # ts)"
    using 5 by (intro spaced_join) auto
  then show ?case by simp
next
  case (6 kvs)
  have "spaced (join_tokens (map (\<lambda>(k, v). TStr k # TColon # tokens v) kvs) @ TEndObj # ts)"
  proof (rule spaced_join)
    fix us ts'
    assume "us \<in> set (map (\<lambda>(k, v). TStr k # TColon # tokens v) kvs)" and ts: "closed ts'"
    then obtain k v where "(k, v) \<in> set kvs" "us = TStr k # TColon # tokens v" by auto
    then show "spaced (us @ ts')" using 6(1) [of "(k, v)" k v ts'] ts by simp
  qed (use 6(2) in simp)
  then show ?case by simp
qed auto

lemma list_all_join:
  "(\<And>us. us \<in> set uss \<Longrightarrow> list_all P us) \<Longrightarrow> P TComma \<Longrightarrow> list_all P (join_tokens uss)"
  by (induction uss rule: join_tokens.induct) auto

lemma tokens_ok: "json_ok v \<Longrightarrow> list_all token_ok (tokens v)"
proof (induction v rule: tokens.induct)
  case (5 vs)
  then have "list_all token_ok (join_tokens (map tokens vs))"
    by (intro list_all_join) (auto simp: list_all_iff)
  then show ?case by simp
next
  case (6 kvs)
  then have "list_all token_ok (join_tokens (map (\<lambda>(k, v). TStr k # TColon # tokens v) kvs))"
    by (intro list_all_join) (fastforce simp: list_all_iff)+
  then show ?case by simp
qed auto

theorem parse_print:
  assumes "json_ok v" and "depth v \<le> maxNestingDepth"
  shows "parse_json (print_json v) = Some v"
proof -
  have "lex Outside (print_json v) = Some (tokens v)"
    using lex_tokens_text [OF tokens_ok [OF assms(1)]] spaced_tokens [of "[]" v]
    by (simp add: print_json_def tokens_text_def)
  then show ?thesis
    using readsD [OF reads_value [of "[]" v], of "[]"] assms(2) by (simp add: parse_json_def)
qed

section \<open>Every string the scanner accepts can be decoded\<close>

text \<open>What the scanner holds of a token is what it has read of it.\<close>

fun held :: "lex_state \<Rightarrow> bool" where
  "held (InStr acc) \<longleftrightarrow> lex_run (InStr []) (rev acc) = Some ([], InStr acc)"
| "held (InEsc acc) \<longleftrightarrow> lex_run (InStr []) (rev acc) = Some ([], InEsc acc)"
| "held (InHex n acc) \<longleftrightarrow> lex_run (InStr []) (rev acc) = Some ([], InHex n acc)"
| "held (AfterMinus acc) \<longleftrightarrow> lex_run Outside (rev acc) = Some ([], AfterMinus acc)"
| "held (AfterZero acc) \<longleftrightarrow> lex_run Outside (rev acc) = Some ([], AfterZero acc)"
| "held (InInt acc) \<longleftrightarrow> lex_run Outside (rev acc) = Some ([], InInt acc)"
| "held (AfterDot acc) \<longleftrightarrow> lex_run Outside (rev acc) = Some ([], AfterDot acc)"
| "held (InFrac acc) \<longleftrightarrow> lex_run Outside (rev acc) = Some ([], InFrac acc)"
| "held (AfterE acc) \<longleftrightarrow> lex_run Outside (rev acc) = Some ([], AfterE acc)"
| "held (AfterESign acc) \<longleftrightarrow> lex_run Outside (rev acc) = Some ([], AfterESign acc)"
| "held (InExp acc) \<longleftrightarrow> lex_run Outside (rev acc) = Some ([], InExp acc)"
| "held (InLit s t) \<longleftrightarrow> token_ok t"
| "held Outside \<longleftrightarrow> True"

lemma held_outside: "lex_outside c = Some (ts, m) \<Longrightarrow> held m \<and> list_all token_ok ts"
  by (auto simp: lex_outside_def split: if_splits)

lemma held_number:
  "end_number acc c = Some (ts, m) \<Longrightarrow> num_ok (rev acc) \<Longrightarrow> held m \<and> list_all token_ok ts"
  using held_outside by (fastforce simp: end_number_def)

lemma held_step:
  assumes "lex_step m c = Some (ts, m')" and "held m"
  shows "held m' \<and> list_all token_ok ts"
  using assms
  by (cases m)
    (auto simp: lex_run_append str_ok_def num_ok_def split: if_splits nat.splits list.splits
      dest: held_outside held_number)

lemma lexed_tokens_ok: "lex m s = Some ts \<Longrightarrow> held m \<Longrightarrow> list_all token_ok ts"
proof (induction s arbitrary: m ts)
  case Nil
  then show ?case by (cases m) (auto simp: num_ok_def)
next
  case (Cons c cs)
  then obtain us m1 vs where st: "lex_step m c = Some (us, m1)" and vs: "lex m1 cs = Some vs" "ts = us @ vs"
    by (auto split: option.splits)
  from held_step [OF st Cons.prems(2)] vs Cons.IH [of m1 vs]
  show ?case by auto
qed

text \<open>The decoder follows the scanner from item to item of the string.\<close>

definition rest_ok :: "string \<Rightarrow> bool" where
  "rest_ok s \<longleftrightarrow> (\<exists>acc acc'. lex_run (InStr acc) s = Some ([], InStr acc'))"

lemma rest_ok_plain:
  "rest_ok (c # cs) \<Longrightarrow> c \<noteq> backslash \<Longrightarrow> c \<noteq> dquote \<and> 32 \<le> byte c \<and> rest_ok cs"
  by (auto simp: rest_ok_def split: if_splits option.splits)

lemma rest_ok_drop: "rest_ok (s @ r) \<Longrightarrow> list_all (\<lambda>d. 0x80 \<le> byte d) s \<Longrightarrow> rest_ok r"
proof (induction s)
  case (Cons d ds)
  then have "d \<noteq> backslash" by auto
  with Cons show ?case using rest_ok_plain [of d "ds @ r"] by simp
qed simp

lemma lex_run_escape:
  "lex_run (InStr acc) (backslash # s) = lex_run (InEsc (backslash # acc)) s"
  by (cases "lex_run (InEsc (backslash # acc)) s") auto

lemma rest_ok_escape:
  assumes "rest_ok (backslash # d # ds)" and "d \<noteq> CHR ''u''"
  shows "unescape d \<noteq> None \<and> rest_ok ds"
proof -
  let ?short = "{CHR ''b'', CHR ''f'', CHR ''n'', CHR ''r'', CHR ''t'', backslash, CHR ''/'', dquote}"
  obtain acc acc' where run: "lex_run (InEsc acc) (d # ds) = Some ([], InStr acc')"
    using assms(1) unfolding rest_ok_def lex_run_escape by blast
  then have "d \<in> ?short" using assms(2) by (simp split: if_splits)
  moreover from this have "unescape d \<noteq> None"
    by (elim insertE emptyE) (simp_all add: unescape_def)
  moreover have "rest_ok ds"
    using run \<open>d \<in> ?short\<close>
    by (simp only: lex_run.simps lex_step.simps if_True) (auto simp: rest_ok_def split: option.splits)
  ultimately show ?thesis by blast
qed

lemma lex_run_hex:
  assumes "lex_run (InHex n acc) s = Some ([], InStr acc')"
  obtains x a r where "s = x # r" and "hex_val x = Some a"
    and "lex_run (case n of 0 \<Rightarrow> InStr (x # acc) | Suc k \<Rightarrow> InHex k (x # acc)) r = Some ([], InStr acc')"
  using assms by (cases s) (auto split: if_splits option.splits)

lemma rest_ok_unicode:
  assumes "rest_ok (backslash # CHR ''u'' # ds)"
  shows "getu4 (backslash # CHR ''u'' # ds) \<noteq> None \<and> rest_ok (drop 4 ds)"
proof -
  obtain acc acc' where "lex_run (InHex 3 acc) ds = Some ([], InStr acc')"
    using assms by (auto simp: rest_ok_def split: option.splits)
  then obtain x1 a1 r1 where 1: "ds = x1 # r1" "hex_val x1 = Some a1"
      "lex_run (InHex 2 (x1 # acc)) r1 = Some ([], InStr acc')"
    by (elim lex_run_hex) (simp add: eval_nat_numeral)
  from 1(3) obtain x2 a2 r2 where 2: "r1 = x2 # r2" "hex_val x2 = Some a2"
      "lex_run (InHex 1 (x2 # x1 # acc)) r2 = Some ([], InStr acc')"
    by (elim lex_run_hex) (simp add: eval_nat_numeral)
  from 2(3) obtain x3 a3 r3 where 3: "r2 = x3 # r3" "hex_val x3 = Some a3"
      "lex_run (InHex 0 (x3 # x2 # x1 # acc)) r3 = Some ([], InStr acc')"
    by (elim lex_run_hex) (simp add: eval_nat_numeral)
  from 3(3) obtain x4 a4 r4 where 4: "r3 = x4 # r4" "hex_val x4 = Some a4"
      "lex_run (InStr (x4 # x3 # x2 # x1 # acc)) r4 = Some ([], InStr acc')"
    by (elim lex_run_hex) simp
  show ?thesis using 1 2 3 4 by (auto simp: rest_ok_def eval_nat_numeral)
qed

text \<open>An escape that is followed by another one is read with it when they are a surrogate pair.\<close>

lemma rest_ok_pair:
  assumes "rest_ok s" and "getu4 s \<noteq> None"
  shows "rest_ok (drop 6 s)"
proof -
  obtain ds where "s = backslash # CHR ''u'' # ds"
    using assms(2) by (cases s rule: getu4.cases) (auto split: if_splits)
  with rest_ok_unicode [of ds] assms(1) show ?thesis by (simp add: eval_nat_numeral)
qed

lemma unquote_head_ok:
  assumes "rest_ok (c # cs)"
  obtains out k where "unquote_head c cs = Some (out, k)" and "rest_ok (drop k cs)"
proof (cases "c = backslash")
  case True
  from assms True obtain d ds where cs: "cs = d # ds"
    by (cases cs) (auto simp: rest_ok_def)
  show thesis
  proof (cases "d = CHR ''u''")
    case False
    then obtain e where "unescape d = Some e" "rest_ok ds"
      using rest_ok_escape [of d ds] assms True cs by auto
    then show thesis using that True False cs by (simp add: unquote_head_def)
  next
    case u: True
    obtain r where r: "getu4 (c # cs) = Some r" and rest: "rest_ok (drop 5 cs)"
      using rest_ok_unicode [of ds] assms True cs u by (auto simp: eval_nat_numeral)
    show thesis
    proof (cases "surrogate_pair r (getu4 (drop 5 cs))")
      case None
      then show thesis using that [OF _ rest] True cs u r by (simp add: unquote_head_def)
    next
      case (Some r2)
      then have "getu4 (drop 5 cs) \<noteq> None" by (auto simp: surrogate_pair_def split: option.splits)
      then have "rest_ok (drop 11 cs)" using rest_ok_pair [OF rest] by simp
      then show thesis using that True cs u r Some by (simp add: unquote_head_def)
    qed
  qed
next
  case False
  note plain = rest_ok_plain [OF assms False]
  show thesis
  proof (cases "rune_len (c # cs) = 0 \<or> byte c < 128")
    case True
    then show thesis using that plain False by (auto simp: unquote_head_def)
  next
    case multi: False
    let ?n = "rune_len (c # cs)"
    have all: "list_all (\<lambda>d. 0x80 \<le> byte d) (take ?n (c # cs))"
      using multi by (intro rune_bytes) auto
    have "rest_ok (drop ?n (c # cs))"
      by (rule rest_ok_drop [OF _ all]) (use assms in simp)
    then have "rest_ok (drop (?n - 1) cs)" using multi by (simp add: drop_Cons')
    then show thesis using that plain False multi by (simp add: unquote_head_def)
  qed
qed

lemma unquote_rest_ok: "rest_ok s \<Longrightarrow> unquote s \<noteq> None"
proof (induction s rule: unquote.induct)
  case (2 c cs)
  from unquote_head_ok [OF 2(2)] obtain out k
    where h: "unquote_head c cs = Some (out, k)" "rest_ok (drop k cs)" by blast
  then have "unquote (drop k cs) \<noteq> None" using 2(1) by simp
  with h(1) show ?case by simp
qed simp

theorem unquote_defined: "str_ok q \<Longrightarrow> unquote q \<noteq> None"
  by (rule unquote_rest_ok) (auto simp: str_ok_def rest_ok_def)

section \<open>Every value that is parsed is well formed\<close>

text \<open>A value at a depth of the stack, and the states the parser goes through.\<close>

definition item_ok :: "nat \<Rightarrow> json \<Rightarrow> bool" where
  "item_ok n v \<longleftrightarrow> json_ok v \<and> n + depth v \<le> maxNestingDepth"

abbreviation members_ok :: "nat \<Rightarrow> (string \<times> json) list \<Rightarrow> bool" where
  "members_ok n \<equiv> list_all (\<lambda>(k, v). str_ok k \<and> item_ok n v)"

fun frames_ok :: "frame list \<Rightarrow> bool" where
  "frames_ok [] \<longleftrightarrow> True"
| "frames_ok (OpenArr vs # st) \<longleftrightarrow>
     frames_ok st \<and> open_ok st \<and> list_all (item_ok (Suc (length st))) vs"
| "frames_ok (OpenObj kvs k # st) \<longleftrightarrow>
     frames_ok st \<and> open_ok st \<and> str_ok k \<and> members_ok (Suc (length st)) kvs"

fun mode_ok :: "parse_mode \<Rightarrow> frame list \<Rightarrow> bool" where
  "mode_ok BeginValue st \<longleftrightarrow> True"
| "mode_ok BeginValueOrEmpty st \<longleftrightarrow> (\<exists>st'. st = OpenArr [] # st')"
| "mode_ok (BeginKey kvs) st \<longleftrightarrow> open_ok st \<and> members_ok (Suc (length st)) kvs"
| "mode_ok BeginKeyOrEmpty st \<longleftrightarrow> open_ok st"
| "mode_ok (AfterKey kvs k) st \<longleftrightarrow> open_ok st \<and> str_ok k \<and> members_ok (Suc (length st)) kvs"
| "mode_ok (After v) st \<longleftrightarrow> item_ok (length st) v"

lemma item_ok_arr:
  assumes "open_ok st" and "list_all (item_ok (Suc (length st))) vs"
  shows "item_ok (length st) (JArr vs)"
proof -
  have "Max (insert 0 (set (map depth vs))) \<le> maxNestingDepth - Suc (length st)"
    using assms by (intro Max.boundedI) (auto simp: item_ok_def list_all_iff)
  then have "length st + depth (JArr vs) \<le> maxNestingDepth" using assms(1) unfolding depth.simps open_ok_def by linarith
  then show ?thesis using assms(2) by (auto simp: item_ok_def list_all_iff)
qed

lemma item_ok_obj:
  assumes "open_ok st" and "members_ok (Suc (length st)) kvs"
  shows "item_ok (length st) (JObj kvs)"
proof -
  have "Max (insert 0 (set (map (\<lambda>(k, v). depth v) kvs))) \<le> maxNestingDepth - Suc (length st)"
    using assms by (intro Max.boundedI) (auto simp: item_ok_def list_all_iff)
  then have "length st + depth (JObj kvs) \<le> maxNestingDepth" using assms(1) unfolding depth.simps open_ok_def by linarith
  then show ?thesis using assms(2) by (auto simp: item_ok_def list_all_iff)
qed

lemma begin_value_ok:
  assumes "begin_value t st = Some (m, st')" and "frames_ok st" and "token_ok t"
    and "length st \<le> maxNestingDepth"
  shows "mode_ok m st' \<and> frames_ok st' \<and> length st' \<le> maxNestingDepth"
  using assms by (cases t) (auto simp: item_ok_def open_ok_def split: if_splits)

lemma end_value_ok:
  assumes "end_value v t st = Some (m, st')" and "frames_ok st" and "item_ok (length st) v"
    and "length st \<le> maxNestingDepth"
  shows "mode_ok m st' \<and> frames_ok st' \<and> length st' \<le> maxNestingDepth"
proof (cases st)
  case (Cons f st1)
  note assms = assms [unfolded Cons]
  show ?thesis
  proof (cases f)
    case (OpenArr vs)
    then have "item_ok (length st1) (JArr (rev (v # vs)))"
      using assms by (intro item_ok_arr) auto
    then show ?thesis using assms OpenArr by (cases t) auto
  next
    case (OpenObj kvs k)
    then have "item_ok (length st1) (JObj (rev ((k, v) # kvs)))"
      using assms by (intro item_ok_obj) auto
    then show ?thesis using assms OpenObj by (cases t) auto
  qed
qed (use assms in simp)

lemma parse_step_ok:
  assumes "parse_step m t st = Some (m', st')" and "mode_ok m st" and "frames_ok st" and "token_ok t"
    and "length st \<le> maxNestingDepth"
  shows "mode_ok m' st' \<and> frames_ok st' \<and> length st' \<le> maxNestingDepth"
proof (cases m)
  case BeginValueOrEmpty
  then show ?thesis
    using assms begin_value_ok [of t st m' st'] item_ok_arr [of "tl st" "[]"] by (auto split: if_splits)
next
  case BeginKeyOrEmpty
  then show ?thesis using assms item_ok_obj [of st "[]"] by (auto split: token.splits)
qed (use assms begin_value_ok [of t st m' st'] end_value_ok [of _ t st m' st'] in
    \<open>auto simp: open_ok_def split: token.splits if_splits\<close>)

lemma parse_tokens_ok:
  assumes "parse_tokens m st ts = Some v" and "list_all token_ok ts" and "mode_ok m st"
    and "frames_ok st" and "length st \<le> maxNestingDepth"
  shows "json_ok v \<and> depth v \<le> maxNestingDepth"
  using assms
proof (induction ts arbitrary: m st)
  case Nil
  then show ?case by (cases m; cases st) (auto simp: item_ok_def)
next
  case (Cons t ts)
  then obtain m1 st1 where st: "parse_step m t st = Some (m1, st1)" "parse_tokens m1 st1 ts = Some v"
    by (auto split: option.splits)
  from parse_step_ok [OF st(1)] Cons.prems Cons.IH [OF st(2)] show ?case by simp
qed

theorem parsed_ok: "parse_json data = Some v \<Longrightarrow> json_ok v \<and> depth v \<le> maxNestingDepth"
  using lexed_tokens_ok [of Outside data] parse_tokens_ok [of BeginValue "[]" _ v]
  by (auto simp: parse_json_def bind_eq_Some_conv)

end
