(* ===== verification/Rfc3339_Lemmas.thy ===== *)
theory Rfc3339_Lemmas
  imports Rfc3339
begin

text \<open>
  An instant that was written in RFC 3339 is read back. The only thing the text loses is a part of a
  minute in the offset of the zone, by which the instant then moves.
\<close>

section \<open>Numbers of a fixed width\<close>

lemma digit_char_of [simp]: "is_digit (digit_char_of n)" "digit_value (digit_char_of n) = n mod 10"
  using digit_char [of "n mod 10"] by (simp_all add: digit_char_of_def)

lemma length_pad [simp]: "length (pad k n) = k"
  by (induction k arbitrary: n) simp_all

lemma pad_digits: "list_all is_digit (pad k n)"
  by (induction k arbitrary: n) simp_all

lemma digits_add: "digits k a s = Some (b, t) \<Longrightarrow> digits (k + j) a s = digits j b t"
  by (induction k arbitrary: a s) (auto split: list.splits if_splits)

lemma digits_pad: "digits k a (pad k n @ r) = Some (a * 10 ^ k + n mod 10 ^ k, r)"
proof (induction k arbitrary: n r)
  case (Suc k)
  have "n mod 10 ^ Suc k = 10 * (n div 10 mod 10 ^ k) + n mod 10"
    by (simp add: mod_mult2_eq)
  moreover have "digits (k + 1) a (pad k (n div 10) @ digit_char_of n # r)
      = digits 1 (a * 10 ^ k + n div 10 mod 10 ^ k) (digit_char_of n # r)"
    by (rule digits_add) (rule Suc.IH)
  ultimately show ?case by (simp add: algebra_simps)
qed (simp add: mod_less)

lemma digits_pad_small: "n < 10 ^ k \<Longrightarrow> digits k 0 (pad k n @ r) = Some (n, r)"
  by (simp add: digits_pad)

lemma expect_hd [simp]: "expect c (c # r) = Some r"
  by (simp add: expect_def)

section \<open>The fraction of the seconds\<close>

lemma trim_zeros_replicate: "\<exists>j. s = trim_zeros s @ replicate j (CHR ''0'') \<and> j \<le> length s"
proof -
  let ?z = "\<lambda>c. c = CHR ''0''"
  have "takeWhile ?z (rev s) = replicate (length (takeWhile ?z (rev s))) (CHR ''0'')"
    by (rule replicate_length_same [symmetric]) (blast dest: set_takeWhileD)
  moreover have "s = rev (takeWhile ?z (rev s) @ dropWhile ?z (rev s))" by simp
  ultimately have "s = trim_zeros s @ replicate (length (takeWhile ?z (rev s))) (CHR ''0'')"
    unfolding trim_zeros_def by (metis rev_append rev_replicate)
  moreover have "length (takeWhile ?z (rev s)) \<le> length s"
    using length_takeWhile_le [of ?z "rev s"] by simp
  ultimately show ?thesis by blast
qed

lemma fold_pad: "fold (\<lambda>c n. n * 10 + digit_value c) (pad k n) a = a * 10 ^ k + n mod 10 ^ k"
proof (induction k arbitrary: n)
  case (Suc k)
  have "n mod 10 ^ Suc k = 10 * (n div 10 mod 10 ^ k) + n mod 10"
    by (simp add: mod_mult2_eq)
  with Suc show ?case by (simp add: algebra_simps)
qed (simp add: mod_less)

lemma nanoseconds_trim:
  assumes "n < 1000000000"
  shows "nanoseconds (trim_zeros (pad 9 n)) = n"
proof -
  obtain j where j: "pad 9 n = trim_zeros (pad 9 n) @ replicate j (CHR ''0'')" "j \<le> 9"
    using trim_zeros_replicate [of "pad 9 n"] by auto
  then have len: "length (trim_zeros (pad 9 n)) + j = 9"
    by (metis length_append length_pad length_replicate)
  have "replicate 9 (CHR ''0'') = replicate j (CHR ''0'') @ replicate (9 - j) (CHR ''0'')"
    using j(2) by (simp flip: replicate_add)
  then have "trim_zeros (pad 9 n) @ replicate 9 (CHR ''0'') = pad 9 n @ replicate (9 - j) (CHR ''0'')"
    using j(1) by (metis append.assoc)
  then have "take 9 (trim_zeros (pad 9 n) @ replicate 9 (CHR ''0'')) = pad 9 n" by simp
  then show ?thesis using assms by (simp add: nanoseconds_def fold_pad)
qed

lemma trim_zeros_Nil:
  assumes "trim_zeros (pad k n) = []"
  shows "n mod 10 ^ k = 0"
proof -
  obtain j where "pad k n = replicate j (CHR ''0'')" using trim_zeros_replicate [of "pad k n"] assms by auto
  moreover have "fold (\<lambda>c n. n * 10 + digit_value c) (replicate j (CHR ''0'')) 0 = 0"
    by (induction j) (simp_all add: digit_value_def)
  ultimately show ?thesis using fold_pad [of k n 0] by simp
qed

lemma trim_zeros_digits: "list_all is_digit s \<Longrightarrow> list_all is_digit (trim_zeros s)"
  by (auto simp: trim_zeros_def list_all_iff dest: set_dropWhileD)

lemma fraction_text_inverse:
  assumes "n < 1000000000" and "r \<noteq> []" and "\<not> is_digit (hd r)" and "hd r \<notin> {CHR ''.'', CHR '',''}"
  shows "fraction (fraction_text n @ r) = (n, r)"
proof (cases "n = 0")
  case True
  then show ?thesis
    using assms(2,4) by (cases r; cases "tl r") (auto simp: fraction_text_def fraction_def)
next
  case False
  define ds where "ds = trim_zeros (pad 9 n)"
  have all: "list_all is_digit ds" unfolding ds_def by (rule trim_zeros_digits) (rule pad_digits)
  have "ds \<noteq> []" using trim_zeros_Nil [of 9 n] False assms(1) by (auto simp: ds_def)
  then obtain d ds' where ds: "ds = d # ds'" by (cases ds) auto
  have "takeWhile is_digit (ds @ r) = ds" "dropWhile is_digit (ds @ r) = r"
    using all assms(2,3) by (cases r; auto simp: list_all_iff takeWhile_append dropWhile_append)+
  then show ?thesis
    using False all ds nanoseconds_trim [OF assms(1)]
    by (simp add: fraction_text_def fraction_def ds_def [symmetric])
qed

section \<open>The zone\<close>

lemma zone_text_inverse:
  assumes "\<bar>offset_minutes off\<bar> < 24 * 60"
  shows "zone_offset (zone_text off) = Some (offset_minutes off * 60, [])"
proof (cases "off = 0")
  case True
  then show ?thesis by (simp add: zone_text_def zone_offset_def offset_minutes_def)
next
  case False
  define h where "h = nat \<bar>offset_minutes off\<bar> div 60"
  define m where "m = nat \<bar>offset_minutes off\<bar> mod 60"
  have hm: "h \<le> 23" "m \<le> 59" using assms unfolding h_def m_def by auto
  have "h * 60 + m = nat \<bar>offset_minutes off\<bar>" unfolding h_def m_def by (rule div_mult_mod_eq)
  then have sum: "int h * 60 + int m = \<bar>offset_minutes off\<bar>" by linarith
  define sign where "sign = (if offset_minutes off < 0 then CHR ''-'' else CHR ''+'')"
  have zt: "zone_text off = sign # pad 2 h @ CHR '':'' # pad 2 m"
    using False unfolding zone_text_def Let_def h_def m_def sign_def by simp
  have "in_range 0 24 (digits 2 0 (pad 2 h @ s)) = Some (h, s)"
    "in_range 0 60 (digits 2 0 (pad 2 m)) = Some (m, [])" for s
    using digits_pad_small [of h 2 s] digits_pad_small [of m 2 "[]"] hm
    by (simp_all add: in_range_def del: pad.simps digits.simps)
  moreover have "sign \<noteq> CHR ''Z''" "sign \<in> {CHR ''+'', CHR ''-''}" by (simp_all add: sign_def)
  ultimately have "zone_offset (zone_text off)
      = Some ((if sign = CHR ''-'' then -1 else 1) * (int h * 60 + int m) * 60, [])"
    unfolding zt zone_offset_def by simp
  then show ?thesis unfolding sum by (simp add: sign_def)
qed

lemma zone_text_hd:
  "zone_text off \<noteq> []" "\<not> is_digit (hd (zone_text off))" "hd (zone_text off) \<notin> {CHR ''.'', CHR '',''}"
  by (simp_all add: zone_text_def is_digit_def Let_def)

section \<open>The whole text\<close>

lemma one_or_two_pad: "n < 100 \<Longrightarrow> one_or_two_digits (pad 2 n @ r) = Some (n, r)"
  by (simp add: one_or_two_digits_def digits_pad_small del: pad.simps digits.simps)

lemma clock_parts:
  fixes s :: nat
  assumes "s < 86400"
  shows "s div 3600 \<le> 23" and "s div 60 mod 60 \<le> 59" and "s mod 60 \<le> 59"
    and "s div 3600 * 3600 + s div 60 mod 60 * 60 + s mod 60 = s"
proof -
  show "s div 3600 * 3600 + s div 60 mod 60 * 60 + s mod 60 = s"
  proof -
    have "s div 3600 = s div 60 div 60" by (simp flip: div_mult2_eq)
    moreover have "s div 60 div 60 * 60 + s div 60 mod 60 = s div 60" "s div 60 * 60 + s mod 60 = s"
      by (rule div_mult_mod_eq)+
    ultimately show ?thesis by linarith
  qed
qed (use assms in auto)

lemma parse_text:
  assumes y: "0 \<le> y" "y \<le> 9999" and m: "1 \<le> m" "m \<le> 12"
    and d: "1 \<le> d" "d \<le> month_lengths y ! (m - 1)" and s: "s < 86400" and ns: "ns < 1000000000"
    and off: "\<bar>offset_minutes off\<bar> < 24 * 60"
  shows "parse_rfc3339 (date_text y m d @ CHR ''T'' # clock_text s @ fraction_text ns @ zone_text off)
    = Some ((epoch_days y m d * 86400 + int s - offset_minutes off * 60) * 1000000000 + int ns)"
proof -
  have "month_lengths y ! (m - 1) \<le> 31"
    using m by (auto simp: month_lengths_def nth_Cons split: nat.splits)
  then have d31: "nat d < 100" "Suc 0 \<le> nat d" using d by simp_all
  note clk = clock_parts [OF s]
  have two: "n < 100 \<Longrightarrow> digits 2 0 (pad 2 n @ r) = Some (n, r)" for n r
    by (rule digits_pad_small) simp
  have four: "digits 4 0 (pad 4 (nat y) @ r) = Some (nat y, r)" for r
    using y by (intro digits_pad_small) simp
  have range: "lo \<le> n \<Longrightarrow> n \<le> hi \<Longrightarrow> in_range lo hi (Some (n, r)) = Some (n, r)" for lo hi n r
    by (simp add: in_range_def)
  have frac: "fraction (fraction_text ns @ zone_text off) = (ns, zone_text off)"
    by (rule fraction_text_inverse [OF ns zone_text_hd])
  have sum: "int (s div 3600 * 3600 + s div 60 mod 60 * 60 + s mod 60) = int s"
    using clk(4) by simp
  show ?thesis
    unfolding parse_rfc3339_def date_text_def clock_text_def append_assoc append_Cons
    using y m d d31 clk(1-3) four two one_or_two_pad range frac zone_text_inverse [OF off] sum
    by (simp del: pad.simps digits.simps of_nat_add of_nat_mult)
qed

theorem format_parse:
  assumes "format_rfc3339 zone t = Inr s"
  shows "parse_rfc3339 s = Some (t + (zone t - offset_minutes (zone t) * 60) * 1000000000)"
proof -
  let ?off = "zone t" and ?local = "t div 1000000000 + zone t"
  obtain y m d where civ: "civil (?local div 86400) = (y, m, d)" by (metis prod_cases3)
  have ok: "0 \<le> y" "y \<le> 9999" "\<bar>offset_minutes ?off\<bar> < 24 * 60"
    and s: "s = date_text y m d @ CHR ''T'' # clock_text (nat (?local mod 86400))
        @ fraction_text (nat (t mod 1000000000)) @ zone_text ?off"
    using assms civ by (auto simp: format_rfc3339_def Let_def split: if_splits)
  have "parse_rfc3339 s = Some ((epoch_days y m d * 86400 + int (nat (?local mod 86400))
      - offset_minutes ?off * 60) * 1000000000 + int (nat (t mod 1000000000)))"
    unfolding s by (rule parse_text) (use ok civil_inverse [OF civ] in simp_all)
  also have "\<dots> = Some (t + (?off - offset_minutes ?off * 60) * 1000000000)"
    using civil_inverse(1) [OF civ] by (simp add: algebra_simps)
  finally show ?thesis .
qed

lemma offset_minutes_exact: "z mod 60 = 0 \<Longrightarrow> offset_minutes z * 60 = z"
  by (auto simp: offset_minutes_def zmod_zminus1_eq_if)

lemma format_parse_exact:
  "format_rfc3339 zone t = Inr s \<Longrightarrow> zone t mod 60 = 0 \<Longrightarrow> parse_rfc3339 s = Some t"
  using format_parse [of zone t s] offset_minutes_exact [of "zone t"] by simp

text \<open>The text holds no byte that JSON would have to escape.\<close>

definition plain_text :: "string \<Rightarrow> bool" where
  "plain_text s \<longleftrightarrow> list_all (\<lambda>c. is_digit c \<or> c \<in> set ''-:TZ.+'') s"

lemma plain_text_append [simp]:
  "plain_text (s @ r) \<longleftrightarrow> plain_text s \<and> plain_text r" "plain_text []"
  "plain_text (c # r) \<longleftrightarrow> (is_digit c \<or> c \<in> set ''-:TZ.+'') \<and> plain_text r"
  by (simp_all add: plain_text_def)

lemma plain_digits: "list_all is_digit s \<Longrightarrow> plain_text s"
  by (auto simp: plain_text_def list_all_iff)

lemma plain_format: "format_rfc3339 zone t = Inr s \<Longrightarrow> plain_text s"
  using plain_digits [OF pad_digits] plain_digits [OF trim_zeros_digits [OF pad_digits]]
  by (auto simp: format_rfc3339_def date_text_def clock_text_def fraction_text_def zone_text_def Let_def
      simp del: pad.simps split: if_splits prod.splits)

section \<open>Which instants can be written\<close>

lemma div_pred:
  fixes y k :: int
  assumes "0 < k"
  shows "y div k = (y - 1) div k + (if y mod k = 0 then 1 else 0)"
proof -
  have y: "y = k * (y div k) + y mod k" and r: "0 \<le> y mod k" "y mod k < k" using assms by simp_all
  show ?thesis
  proof (cases "y mod k = 0")
    case True
    then have "y - 1 = k * (y div k - 1) + (k - 1)" using y by (simp add: algebra_simps)
    then have "(y - 1) div k = y div k - 1" by (rule int_div_pos_eq) (use assms in simp_all)
    then show ?thesis using True by simp
  next
    case False
    have "y - 1 = k * (y div k) + (y mod k - 1)" using y by linarith
    then have "(y - 1) div k = y div k" by (rule int_div_pos_eq) (use False r in simp_all)
    then show ?thesis using False by simp
  qed
qed

lemma leap_divides: "y mod 400 = 0 \<Longrightarrow> y mod 100 = 0" "y mod 100 = 0 \<Longrightarrow> y mod 4 = 0" for y :: int
  using dvd_trans [of 100 400 y] dvd_trans [of 4 100 y] by (simp_all add: dvd_eq_mod_eq_0)

lemma days_next_year: "days_before_year (y + 1) = days_before_year y + sum_list (month_lengths y)"
proof -
  have regroup: "365 * y + (a + p) - (b + q) + (c + r)
      = 365 * (y - 1) + a - b + c + (365 + p - q + r)" for a b c p q r :: int
    by simp
  have "days_before_year (y + 1) = 365 * y + y div 4 - y div 100 + y div 400"
    by (simp add: days_before_year_def)
  also have "\<dots> = days_before_year y + (365 + (if y mod 4 = 0 then 1 else 0)
      - (if y mod 100 = 0 then 1 else 0) + (if y mod 400 = 0 then 1 else 0))"
    unfolding days_before_year_def div_pred [of 4 y, simplified] div_pred [of 100 y, simplified]
      div_pred [of 400 y, simplified] by (rule regroup)
  also have "365 + (if y mod 4 = 0 then 1 else 0) - (if y mod 100 = 0 then 1 else 0)
      + (if y mod 400 = 0 then 1 else 0) = sum_list (month_lengths y)"
  proof -
    have count: "(365 + (if P then 1 else 0) - (if Q then 1 else 0) + (if R then 1 else 0) :: int)
        = (if P \<and> (\<not> Q \<or> R) then 366 else 365)" if "R \<Longrightarrow> Q" "Q \<Longrightarrow> P" for P Q R
      using that by auto
    have "sum_list (month_lengths y) = (if leap y then 366 else 365)" by (simp add: month_lengths_def)
    then show ?thesis unfolding leap_def by (simp only: count [OF leap_divides])
  qed
  finally show ?thesis .
qed

lemma days_before_year_bounds:
  "10000 \<le> y \<Longrightarrow> 3652059 \<le> days_before_year y" "y \<le> 1 \<Longrightarrow> days_before_year y \<le> 0"
proof -
  define n where "n = y - 1"
  have "4 * (n div 4) + n mod 4 = n" "100 * (n div 100) + n mod 100 = n" "400 * (n div 400) + n mod 400 = n"
    "0 \<le> n mod 4" "n mod 4 < 4" "0 \<le> n mod 100" "n mod 100 < 100" "0 \<le> n mod 400" "n mod 400 < 400"
    by simp_all
  moreover have "days_before_year y = 365 * n + n div 4 - n div 100 + n div 400"
    by (simp add: days_before_year_def n_def)
  ultimately show "10000 \<le> y \<Longrightarrow> 3652059 \<le> days_before_year y"
    and "y \<le> 1 \<Longrightarrow> days_before_year y \<le> 0" using n_def by linarith+
qed

lemma civil_year:
  assumes "civil z = (y, m, d)" and "-719162 \<le> z" and "z < 2932897"
  shows "1 \<le> y \<and> y \<le> 9999"
proof -
  obtain yday where yday: "year_and_day (z + 719162) = (y, yday)"
    using assms(1) by (auto simp: civil_def split: prod.splits)
  note inv = year_and_day_inverse [OF yday]
  have "y \<le> 9999"
  proof (rule ccontr)
    assume "\<not> y \<le> 9999"
    then have "3652059 \<le> days_before_year y" by (intro days_before_year_bounds) simp
    then show False using inv(1,2) assms(3) by linarith
  qed
  moreover have "1 \<le> y"
  proof (rule ccontr)
    assume "\<not> 1 \<le> y"
    then have "days_before_year (y + 1) \<le> 0" by (intro days_before_year_bounds) simp
    then show False using inv days_next_year [of y] assms(2) by linarith
  qed
  ultimately show ?thesis by blast
qed

text \<open>An instant of the years 1 to 9999 in its zone, whose offset is less than a day.\<close>

definition writable :: "(time \<Rightarrow> int) \<Rightarrow> time \<Rightarrow> bool" where
  "writable zone t \<longleftrightarrow>
     - 62135596800 \<le> t div 1000000000 + zone t \<and> t div 1000000000 + zone t < 253402300800
     \<and> \<bar>zone t\<bar> < 86400"

lemma format_writable:
  assumes "writable zone t"
  shows "\<exists>s. format_rfc3339 zone t = Inr s"
proof -
  let ?local = "t div 1000000000 + zone t"
  obtain y m d where civ: "civil (?local div 86400) = (y, m, d)" by (metis prod_cases3)
  have "1 \<le> y \<and> y \<le> 9999"
    by (rule civil_year [OF civ]) (use assms in \<open>auto simp: writable_def\<close>)
  moreover have "\<bar>offset_minutes (zone t)\<bar> < 24 * 60"
    using assms by (auto simp: writable_def offset_minutes_def)
  ultimately show ?thesis using civ by (simp add: format_rfc3339_def Let_def)
qed

end
