(* ===== verification/Wire_Lemmas.thy ===== *)
theory Wire_Lemmas
  imports Wire Json_Lemmas Rfc3339_Lemmas
begin

text \<open>
  The coders of the single values against each other, and the contract that a payload type keeps when
  its decoder reads what its encoder wrote (the locale \<open>wire_format\<close>), discharged here for every type
  of the model that is encoded.
\<close>

section \<open>Values\<close>

lemma json_ok_values [simp]: "json_ok (json_string s)" "json_ok (json_int64 n)"
  "depth (json_string s) = 0" "depth (json_int64 n) = 0"
  by (simp_all add: json_string_def json_int64_def)

lemma plain_str_ok:
  assumes "plain_text s"
  shows "str_ok s"
proof (rule str_ok_plain)
  have "32 \<le> byte c \<and> c \<noteq> dquote \<and> c \<noteq> backslash" if "is_digit c \<or> c \<in> set ''-:TZ.+''" for c
    using that by (auto simp: is_digit_def)
  then show "list_all (\<lambda>c. 32 \<le> byte c \<and> c \<noteq> dquote \<and> c \<noteq> backslash) s"
    using assms by (auto simp: plain_text_def list_all_iff)
qed

lemma json_timeE:
  assumes "json_time zone t = Inr v"
  obtains s where "v = JStr s" and "format_rfc3339 zone t = Inr s" and "json_ok v" and "depth v = 0"
  using assms plain_str_ok [OF plain_format]
  by (cases "format_rfc3339 zone t") (auto simp: json_time_def)

lemma dec_json_string [simp]: "dec_string (json_string s) cur = Some (to_valid s)"
  by (simp add: dec_string_def json_string_def unquote_quote)

lemma dec_json_int64 [simp]: "dec_int64 (json_int64 n) cur = Some n"
  by (simp add: dec_int64_def json_int64_def parse_show_int)

lemma dec_json_time:
  "json_time zone t = Inr v \<Longrightarrow> zone t mod 60 = 0 \<Longrightarrow> dec_time v cur = Some t"
  by (elim json_timeE) (simp add: dec_time_def format_parse_exact)

lemma Unmarshal_print:
  "json_ok v \<Longrightarrow> depth v \<le> maxNestingDepth \<Longrightarrow>
    Unmarshal dec (print_json v) x = (case dec v x of None \<Rightarrow> Inl err_mismatch | Some y \<Rightarrow> Inr y)"
  by (simp add: Unmarshal_def parse_print)

lemma dec_blob_string [simp]: "dec_blob (json_string s) cur = Some \<lparr>blob_Value = to_valid s\<rparr>"
  by (simp add: dec_blob_def OpaqueBlob_UnmarshalJSON_def Unmarshal_print)

lemma dec_blob_null [simp]: "dec_blob JNull cur = Some \<lparr>blob_Value = []\<rparr>"
  by (simp add: dec_blob_def OpaqueBlob_UnmarshalJSON_def Unmarshal_print dec_string_def)

section \<open>Structs\<close>

lemma json_members_Inr:
  "json_members kvs = Inr ms \<longleftrightarrow> list_all2 (\<lambda>(k, r) (k', v). k = k' \<and> r = Inr v) kvs ms"
proof (induction kvs arbitrary: ms)
  case (Cons kr kvs)
  show ?case
    by (cases kr; cases "snd kr"; cases "json_members kvs"; cases ms) (auto simp: Cons.IH [symmetric])
qed auto

lemma Marshal_structE:
  assumes "Marshal_struct kvs = Inr data"
  obtains ms where "json_members kvs = Inr ms" and "data = print_json (JObj ms)"
  using assms by (cases "json_members kvs") (auto simp: Marshal_struct_def)

text \<open>Names of fields are plain ASCII, which stands for itself.\<close>

definition plain_ascii :: "string \<Rightarrow> bool" where
  "plain_ascii s \<longleftrightarrow> list_all (\<lambda>c. 32 \<le> byte c \<and> byte c < 128 \<and> c \<noteq> dquote \<and> c \<noteq> backslash) s"

lemma plain_ascii_ok: "plain_ascii s \<Longrightarrow> str_ok s"
  by (rule str_ok_plain) (auto simp: plain_ascii_def list_all_iff)

lemma unquote_plain: "plain_ascii s \<Longrightarrow> unquote s = Some s"
  by (induction s) (simp_all add: plain_ascii_def unquote_head_def)

lemma to_valid_plain: "plain_ascii s \<Longrightarrow> to_valid s = s"
  by (induction s) (simp_all add: plain_ascii_def)

text \<open>What the decoder of a struct makes of members whose values are flat.\<close>

lemma depth_flat:
  "list_all (\<lambda>(k, v). depth v = 0) ms \<Longrightarrow> depth (JObj ms) \<le> maxNestingDepth"
proof -
  assume "list_all (\<lambda>(k, v). depth v = 0) ms"
  then have "Max (insert 0 (set (map (\<lambda>(k, v). depth v) ms))) \<le> 0"
    by (intro Max.boundedI) (auto simp: list_all_iff)
  then show ?thesis by (simp add: maxNestingDepth_def)
qed

lemma Unmarshal_flat:
  assumes "list_all (\<lambda>(k, v). str_ok k \<and> json_ok v \<and> depth v = 0) ms"
  shows "Unmarshal (dec_struct fs) (print_json (JObj ms)) x =
    (case dec_members fs ms x of None \<Rightarrow> Inl err_mismatch | Some y \<Rightarrow> Inr y)"
proof -
  have "json_ok (JObj ms)" using assms by (auto simp: list_all_iff)
  moreover have "depth (JObj ms) \<le> maxNestingDepth"
    by (rule depth_flat) (use assms in \<open>auto simp: list_all_iff\<close>)
  ultimately show ?thesis by (simp add: Unmarshal_print dec_struct_def)
qed

text \<open>One member: its name as it stands selects the field.\<close>

lemma dec_members_known:
  "plain_ascii k \<Longrightarrow> map_of fs k = Some dec \<Longrightarrow>
    dec_members fs ((k, v) # kvs) s = Option.bind (dec v s) (dec_members fs kvs)"
  by (simp add: unquote_plain find_field_def)

declare dec_members.simps(2) [simp del]

section \<open>The contract of a payload type\<close>

text \<open>
  What was encoded is decoded as the same fields: \<open>view\<close> says what a reader of the payload's fields gets
  of a value, \<open>sendable\<close> for which values.
\<close>

locale wire_format =
  fixes enc :: "'a \<Rightarrow> string + string"
    and dec :: "string \<Rightarrow> string + 'b"
    and view :: "'a \<Rightarrow> 'b"
    and sendable :: "'a \<Rightarrow> bool"
  assumes reads_back: "sendable x \<Longrightarrow> enc x = Inr data \<Longrightarrow> dec data = Inr (view x)"
begin

text \<open>Two values with the same text cannot be told apart by their fields.\<close>

lemma same_text: "sendable x \<Longrightarrow> sendable y \<Longrightarrow> enc x = Inr data \<Longrightarrow> enc y = Inr data \<Longrightarrow> view x = view y"
  using reads_back [of x data] reads_back [of y data] by simp

text \<open>A text that does not decode was written by no sender.\<close>

lemma no_error: "sendable x \<Longrightarrow> enc x = Inr data \<Longrightarrow> \<not> isl (dec data)"
  by (simp add: reads_back)

end

section \<open>The types that are encoded\<close>

abbreviation whole_minutes :: "(time \<Rightarrow> int) \<Rightarrow> time \<Rightarrow> bool" where
  "whole_minutes zone t \<equiv> zone t mod 60 = 0"

lemmas struct_eval =
  Unmarshal_flat dec_members_known plain_ascii_ok plain_ascii_def field_def

text \<open>The readers of the payloads: the fields under the names of the contract.\<close>

definition read_status_update :: "string \<Rightarrow> string + string \<times> string \<times> time" where
  "read_status_update data = Unmarshal (dec_struct
     [(''gateway_id'', field fst apfst dec_string),
      (''status'', field (fst \<circ> snd) (apsnd \<circ> apfst) dec_string),
      (''last_seen_at'', field (snd \<circ> snd) (apsnd \<circ> apsnd) dec_time)]) data ([], [], zero_time)"

definition read_lifecycle_request :: "string \<Rightarrow> string + gateway_lifecycle_request" where
  "read_lifecycle_request data = Unmarshal (dec_struct
     [(''gateway_id'', field lreq_GatewayID lreq_GatewayID_update dec_string),
      (''tenant_id'', field lreq_TenantID lreq_TenantID_update dec_string)])
     data \<lparr>lreq_GatewayID = [], lreq_TenantID = []\<rparr>"

definition read_alert :: "string \<Rightarrow> string + alert_payload" where
  "read_alert data = Unmarshal (dec_struct
     [(''gatewayId'', field al_GatewayID al_GatewayID_update dec_string),
      (''lastSeen'', field al_LastSeen al_LastSeen_update dec_time),
      (''timeoutMs'', field al_TimeoutMs al_TimeoutMs_update dec_int64),
      (''timestamp'', field al_Timestamp al_Timestamp_update dec_time)])
     data \<lparr>al_GatewayID = [], al_LastSeen = zero_time, al_TimeoutMs = 0, al_Timestamp = zero_time\<rparr>"

lemma status_text_plain: "plain_ascii (status_text st)"
  by (cases st) (simp_all add: plain_ascii_def)

interpretation status_wire: wire_format "Marshal_status_update zone" read_status_update
    "\<lambda>u. (to_valid (upd_GatewayID u), status_text (upd_Status u), upd_LastSeenAt u)"
    "\<lambda>u. whole_minutes zone (upd_LastSeenAt u)" for zone
proof
  fix u :: gateway_status_update and data
  assume minutes: "whole_minutes zone (upd_LastSeenAt u)" and "Marshal_status_update zone u = Inr data"
  then obtain v where v: "json_time zone (upd_LastSeenAt u) = Inr v"
    and data: "data = print_json (JObj [(''gateway_id'', json_string (upd_GatewayID u)),
        (''status'', json_string (status_text (upd_Status u))), (''last_seen_at'', v)])"
    by (cases "json_time zone (upd_LastSeenAt u)") (auto simp: Marshal_status_update_def Marshal_struct_def)
  from v show "read_status_update data = Inr (to_valid (upd_GatewayID u), status_text (upd_Status u), upd_LastSeenAt u)"
    by (elim json_timeE)
      (use v minutes in \<open>simp add: data read_status_update_def struct_eval dec_json_time
        to_valid_plain [OF status_text_plain]\<close>)
qed

interpretation lifecycle_wire: wire_format Marshal_lifecycle_request read_lifecycle_request
    "\<lambda>r. \<lparr>lreq_GatewayID = to_valid (lreq_GatewayID r), lreq_TenantID = to_valid (lreq_TenantID r)\<rparr>"
    "\<lambda>r. True"
proof
  fix r :: gateway_lifecycle_request and data
  assume "Marshal_lifecycle_request r = Inr data"
  then have "data = print_json (JObj [(''gateway_id'', json_string (lreq_GatewayID r)),
      (''tenant_id'', json_string (lreq_TenantID r))])"
    by (simp add: Marshal_lifecycle_request_def Marshal_struct_def)
  then show "read_lifecycle_request data =
      Inr \<lparr>lreq_GatewayID = to_valid (lreq_GatewayID r), lreq_TenantID = to_valid (lreq_TenantID r)\<rparr>"
    by (simp add: read_lifecycle_request_def struct_eval)
qed

interpretation alert_wire: wire_format "Marshal_alert zone" read_alert
    "\<lambda>a. a\<lparr>al_GatewayID := to_valid (al_GatewayID a)\<rparr>"
    "\<lambda>a. whole_minutes zone (al_LastSeen a) \<and> whole_minutes zone (al_Timestamp a)" for zone
proof
  fix a :: alert_payload and data
  assume minutes: "whole_minutes zone (al_LastSeen a) \<and> whole_minutes zone (al_Timestamp a)"
    and "Marshal_alert zone a = Inr data"
  then obtain v w where v: "json_time zone (al_LastSeen a) = Inr v"
    and w: "json_time zone (al_Timestamp a) = Inr w"
    and data: "data = print_json (JObj [(''gatewayId'', json_string (al_GatewayID a)), (''lastSeen'', v),
        (''timeoutMs'', json_int64 (al_TimeoutMs a)), (''timestamp'', w)])"
    by (cases "json_time zone (al_LastSeen a)"; cases "json_time zone (al_Timestamp a)")
      (auto simp: Marshal_alert_def Marshal_struct_def)
  have "json_ok v" "depth v = 0" "json_ok w" "depth w = 0" using v w by (auto elim: json_timeE)
  then show "read_alert data = Inr (a\<lparr>al_GatewayID := to_valid (al_GatewayID a)\<rparr>)"
    using minutes dec_json_time [OF v] dec_json_time [OF w]
    by (simp add: data read_alert_def struct_eval)
qed

text \<open>The text of a blob is compacted into the text of its struct unchanged.\<close>

lemma blob_json_eq: "blob_json ob = Inr (json_string (blob_Value ob))"
  by (simp add: blob_json_def OpaqueBlob_MarshalJSON_def parse_print flip: json_string_def)

definition valid_blob :: "opaque_blob \<Rightarrow> opaque_blob" where
  "valid_blob ob = \<lparr>blob_Value = to_valid (blob_Value ob)\<rparr>"

text \<open>The envelope with its strings made valid UTF-8.\<close>

definition valid_envelope :: "telemetry_envelope \<Rightarrow> telemetry_envelope" where
  "valid_envelope e = e\<lparr>env_GatewayID := to_valid (env_GatewayID e),
     env_SensorID := to_valid (env_SensorID e), env_SensorType := to_valid (env_SensorType e),
     env_EncryptedData := valid_blob (env_EncryptedData e), env_IV := valid_blob (env_IV e),
     env_AuthTag := valid_blob (env_AuthTag e)\<rparr>"

interpretation envelope_wire: wire_format "Marshal_envelope zone" Unmarshal_envelope valid_envelope
    "\<lambda>e. whole_minutes zone (env_Timestamp e)" for zone
proof
  fix e :: telemetry_envelope and data
  assume minutes: "whole_minutes zone (env_Timestamp e)" and "Marshal_envelope zone e = Inr data"
  then obtain v where v: "json_time zone (env_Timestamp e) = Inr v"
    and data: "data = print_json (JObj [(''gatewayId'', json_string (env_GatewayID e)),
        (''sensorId'', json_string (env_SensorID e)), (''sensorType'', json_string (env_SensorType e)),
        (''timestamp'', v), (''keyVersion'', json_int64 (env_KeyVersion e)),
        (''encryptedData'', json_string (blob_Value (env_EncryptedData e))),
        (''iv'', json_string (blob_Value (env_IV e))),
        (''authTag'', json_string (blob_Value (env_AuthTag e)))])"
    by (cases "json_time zone (env_Timestamp e)")
      (auto simp: Marshal_envelope_def Marshal_struct_def blob_json_eq)
  have "json_ok v" "depth v = 0" using v by (auto elim: json_timeE)
  then show "Unmarshal_envelope data = Inr (valid_envelope e)"
    using dec_json_time [OF v minutes]
    by (simp add: data Unmarshal_envelope_def envelope_fields_def struct_eval zero_envelope_def
        valid_envelope_def valid_blob_def)
qed

section \<open>Decoding members one after the other\<close>

text \<open>What every field decoder keeps, the decoder of the struct keeps.\<close>

lemma find_field_set: "find_field fs key = Some dec \<Longrightarrow> \<exists>name. (name, dec) \<in> set fs"
  by (fastforce simp: find_field_def split: option.splits dest: map_of_SomeD)

lemma dec_members_invariant:
  assumes "\<And>name dec v s s'. (name, dec) \<in> set fs \<Longrightarrow> P s \<Longrightarrow> dec v s = Some s' \<Longrightarrow> P s'"
    and "P s" and "dec_members fs kvs s = Some s'"
  shows "P s'"
  using assms(2,3)
proof (induction kvs arbitrary: s)
  case (Cons kv kvs)
  obtain k v where kv: "kv = (k, v)" by (cases kv)
  show ?case
  proof (cases "find_field fs (the (unquote k))")
    case None
    then show ?thesis
      using Cons kv by (auto simp: dec_members.simps(2) split: option.splits)
  next
    case (Some dec)
    then obtain s1 where "dec v s = Some s1" "dec_members fs kvs s1 = Some s'"
      using Cons.prems(2) kv by (auto simp: dec_members.simps(2) bind_eq_Some_conv split: option.splits)
    moreover obtain name where "(name, dec) \<in> set fs" using find_field_set [OF Some] by blast
    ultimately show ?thesis using Cons.IH [of s1] assms(1) [of name dec s v s1] Cons.prems(1) by blast
  qed
qed simp

text \<open>
  A decoder whose verdict on a value does not depend on the variable accepts it or not; a struct is
  decoded if and only if every member that belongs to a field is accepted.
\<close>

definition accepts :: "'a decoder \<Rightarrow> json \<Rightarrow> bool" where
  "accepts dec v \<longleftrightarrow> (\<forall>s. dec v s \<noteq> None)"

definition decided :: "'a decoder \<Rightarrow> bool" where
  "decided dec \<longleftrightarrow> (\<forall>v. accepts dec v \<or> (\<forall>s. dec v s = None))"

definition members_accepted :: "'s fields \<Rightarrow> (string \<times> json) list \<Rightarrow> bool" where
  "members_accepted fs kvs \<longleftrightarrow>
     (\<forall>(k, v) \<in> set kvs. \<forall>dec. find_field fs (the (unquote k)) = Some dec \<longrightarrow> accepts dec v)"

lemma dec_members_accepts:
  assumes "\<forall>(name, dec) \<in> set fs. decided dec" and "\<forall>(k, v) \<in> set kvs. unquote k \<noteq> None"
  shows "dec_members fs kvs s \<noteq> None \<longleftrightarrow> members_accepted fs kvs"
  using assms(2)
proof (induction kvs arbitrary: s)
  case (Cons kv kvs)
  obtain k v key where kv: "kv = (k, v)" and key: "unquote k = Some key" using Cons.prems by (cases kv) auto
  have ih: "dec_members fs kvs s1 \<noteq> None \<longleftrightarrow> members_accepted fs kvs" for s1
    by (rule Cons.IH) (use Cons.prems in simp)
  show ?case
  proof (cases "find_field fs key")
    case None
    then have "dec_members fs (kv # kvs) s = dec_members fs kvs s"
      "members_accepted fs (kv # kvs) \<longleftrightarrow> members_accepted fs kvs"
      by (simp_all add: kv key dec_members.simps(2) members_accepted_def)
    then show ?thesis using ih by metis
  next
    case (Some dec)
    have step: "dec_members fs (kv # kvs) s = Option.bind (dec v s) (dec_members fs kvs)"
      by (simp add: kv key Some dec_members.simps(2))
    have acc: "members_accepted fs (kv # kvs) \<longleftrightarrow> accepts dec v \<and> members_accepted fs kvs"
      by (simp add: members_accepted_def kv key Some)
    from Some have "decided dec" using assms(1) find_field_set [OF Some] by blast
    then consider s1 where "accepts dec v" "dec v s = Some s1" | "\<not> accepts dec v" "dec v s = None"
      unfolding decided_def accepts_def by (metis option.exhaust)
    then show ?thesis
    proof cases
      case 1
      then show ?thesis unfolding step acc 1(2) bind.bind_lunit using ih [of s1] by blast
    next
      case 2
      then show ?thesis unfolding step acc by simp
    qed
  qed
qed (simp add: members_accepted_def)

lemma field_accepts:
  assumes "\<And>v a b. dec v a = None \<longleftrightarrow> dec v b = None"
  shows "accepts (field get upd dec) v \<longleftrightarrow> dec v x \<noteq> None"
proof -
  have "dec v y = None \<longleftrightarrow> dec v x = None" for y by (rule assms)
  then show ?thesis unfolding accepts_def field_def option.map_disc_iff by metis
qed

lemma field_decided:
  assumes "\<And>v a b. dec v a = None \<longleftrightarrow> dec v b = None"
  shows "decided (field get upd dec)"
proof -
  have "dec v y = None \<longleftrightarrow> dec v x = None" for v x y by (rule assms)
  then show ?thesis unfolding decided_def accepts_def field_def option.map_disc_iff by metis
qed

lemma None_uniform:
  "dec_string v a = None \<longleftrightarrow> dec_string v b = None" "dec_int64 v n = None \<longleftrightarrow> dec_int64 v m = None"
  "dec_time v t = None \<longleftrightarrow> dec_time v u = None" "dec_blob v x = None \<longleftrightarrow> dec_blob v y = None"
  by (simp_all add: dec_string_def dec_int64_def dec_time_def dec_blob_def OpaqueBlob_UnmarshalJSON_def
      split: json.splits sum.splits)

text \<open>A value that was parsed holds strings that can be decoded, and blobs are strings.\<close>

lemma dec_string_parsed:
  "json_ok v \<Longrightarrow> dec_string v cur \<noteq> None \<longleftrightarrow> v = JNull \<or> (\<exists>q. v = JStr q)"
  by (cases v) (auto simp: dec_string_def dest: unquote_defined)

lemma dec_blob_parsed:
  assumes "json_ok v" and "depth v \<le> maxNestingDepth"
  shows "dec_blob v cur = map_option (\<lambda>s. \<lparr>blob_Value = s\<rparr>) (dec_string v [])"
  using assms
  by (cases "dec_string v []") (simp_all add: dec_blob_def OpaqueBlob_UnmarshalJSON_def Unmarshal_print)

lemma depth_parsed_member:
  "json_ok (JObj kvs) \<Longrightarrow> (k, v) \<in> set kvs \<Longrightarrow> str_ok k \<and> json_ok v"
  by (auto simp: list_all_iff)

end
