(* ===== verification/Wire_Props.thy ===== *)
theory Wire_Props
  imports Wire_Lemmas Telemetry_Props Alert_Cache_Lemmas
begin

text \<open>
  Properties of the payloads: which telemetry texts are accepted and what is in them then, round trips
  of everything that is encoded, the range of instants that can be encoded at all, what the decoders
  make of empty texts, and what a decodable row that the database refuses does to its batch.
\<close>

section \<open>Which envelopes are accepted\<close>

text \<open>The types that the fields of an envelope ask of a member; other members may be anything.\<close>

definition well_typed_member :: "string \<Rightarrow> json \<Rightarrow> bool" where
  "well_typed_member key v \<longleftrightarrow>
     (if fold_name key \<in> {''GATEWAYID'', ''SENSORID'', ''SENSORTYPE'', ''ENCRYPTEDDATA'', ''IV'', ''AUTHTAG''}
      then v = JNull \<or> (\<exists>q. v = JStr q)
      else if fold_name key = ''TIMESTAMP''
      then v = JNull \<or> (\<exists>q t. v = JStr q \<and> parse_rfc3339 q = Some t)
      else if fold_name key = ''KEYVERSION''
      then v = JNull \<or> (\<exists>s n. v = JNum s \<and> parse_decimal s = Inr n)
      else True)"

lemma fold_field_names:
  "fold_name ''gatewayId'' = ''GATEWAYID''" "fold_name ''sensorId'' = ''SENSORID''"
  "fold_name ''sensorType'' = ''SENSORTYPE''" "fold_name ''timestamp'' = ''TIMESTAMP''"
  "fold_name ''keyVersion'' = ''KEYVERSION''" "fold_name ''encryptedData'' = ''ENCRYPTEDDATA''"
  "fold_name ''iv'' = ''IV''" "fold_name ''authTag'' = ''AUTHTAG''"
  by (simp_all add: fold_char_def char_of_def bit_0)

text \<open>The names stay apart under folding, so the folded key alone decides.\<close>

lemma find_envelope_field:
  "find_field envelope_fields key =
     map_of (map (\<lambda>(name, dec). (fold_name name, dec)) envelope_fields) (fold_name key)"
proof (cases "map_of envelope_fields key")
  case (Some dec)
  then have "key \<in> {''gatewayId'', ''sensorId'', ''sensorType'', ''timestamp'', ''keyVersion'',
      ''encryptedData'', ''iv'', ''authTag''}"
    by (auto simp: envelope_fields_def split: if_splits)
  then show ?thesis
    using Some by (elim insertE emptyE)
      (simp_all add: find_field_def envelope_fields_def fold_field_names del: fold_name.simps)
qed (simp add: find_field_def)

lemmas envelope_field_decided =
  field_decided [of dec_string, OF None_uniform(1)] field_decided [of dec_int64, OF None_uniform(2)]
  field_decided [of dec_time, OF None_uniform(3)] field_decided [of dec_blob, OF None_uniform(4)]

lemmas envelope_field_accepts =
  field_accepts [of dec_string, OF None_uniform(1), where x = "[]"]
  field_accepts [of dec_int64, OF None_uniform(2), where x = 0]
  field_accepts [of dec_time, OF None_uniform(3), where x = 0]
  field_accepts [of dec_blob, OF None_uniform(4), where x = "\<lparr>blob_Value = []\<rparr>"]

lemma envelope_decided: "\<forall>(name, dec) \<in> set envelope_fields. decided dec"
  by (simp add: envelope_fields_def envelope_field_decided)

lemma member_accepted:
  assumes "json_ok v" and "depth v \<le> maxNestingDepth"
  shows "(\<forall>dec. find_field envelope_fields key = Some dec \<longrightarrow> accepts dec v) \<longleftrightarrow> well_typed_member key v"
proof -
  have str: "dec_string v [] \<noteq> None \<longleftrightarrow> v = JNull \<or> (\<exists>q. v = JStr q)"
    by (rule dec_string_parsed [OF assms(1)])
  have blob: "dec_blob v \<lparr>blob_Value = []\<rparr> \<noteq> None \<longleftrightarrow> v = JNull \<or> (\<exists>q. v = JStr q)"
    unfolding dec_blob_parsed [OF assms] option.map_disc_iff by (rule str)
  have time: "dec_time v 0 \<noteq> None \<longleftrightarrow> v = JNull \<or> (\<exists>q t. v = JStr q \<and> parse_rfc3339 q = Some t)"
    by (cases v) (auto simp: dec_time_def)
  have int: "dec_int64 v 0 \<noteq> None \<longleftrightarrow> v = JNull \<or> (\<exists>s n. v = JNum s \<and> parse_decimal s = Inr n)"
    by (cases v) (auto simp: dec_int64_def split: sum.splits)
  show ?thesis
    unfolding find_envelope_field well_typed_member_def
    by (simp add: envelope_fields_def fold_field_names envelope_field_accepts str blob time int
        del: fold_name.simps not_None_eq)
qed

lemma parsed_members:
  assumes "parse_json data = Some (JObj kvs)"
  shows "\<forall>(k, v) \<in> set kvs. unquote k \<noteq> None \<and> json_ok v \<and> depth v \<le> maxNestingDepth"
proof -
  have ok: "json_ok (JObj kvs)" "depth (JObj kvs) \<le> maxNestingDepth" using parsed_ok [OF assms] by blast+
  have "unquote k \<noteq> None \<and> json_ok v \<and> depth v \<le> maxNestingDepth" if "(k, v) \<in> set kvs" for k v
    using depth_parsed_member [OF ok(1) that] depth_member(2) [OF that] ok(2) unquote_defined [of k]
    by linarith
  then show ?thesis by blast
qed

text \<open>
  C13. A telemetry text is decoded without an error if and only if it is JSON, and is \<open>null\<close> or an object in
  which every member whose key folds to the name of a field has a value of that field's type: strings
  for the identifiers and the opaque blobs, an RFC 3339 string for the timestamp, an integer literal of
  64 bits for the key version, or \<open>null\<close> for any of them. No field has to be there.
\<close>

theorem envelope_accepted_iff:
  "\<not> isl (Unmarshal_envelope data) \<longleftrightarrow>
     (\<exists>v. parse_json data = Some v
        \<and> (v = JNull \<or> (\<exists>kvs. v = JObj kvs \<and> (\<forall>(k, w) \<in> set kvs. well_typed_member (the (unquote k)) w))))"
proof (cases "parse_json data")
  case (Some v)
  have U: "\<not> isl (Unmarshal_envelope data) \<longleftrightarrow> dec_struct envelope_fields v zero_envelope \<noteq> None"
    by (simp add: Unmarshal_envelope_def Unmarshal_def Some split: option.splits)
  show ?thesis
  proof (cases "\<exists>kvs. v = JObj kvs")
    case True
    then obtain kvs where v: "v = JObj kvs" by blast
    note ok = parsed_members [OF Some [unfolded v]]
    have "dec_struct envelope_fields v zero_envelope \<noteq> None \<longleftrightarrow> members_accepted envelope_fields kvs"
      unfolding v dec_struct_def json.case
      by (rule dec_members_accepts [OF envelope_decided]) (use ok in blast)
    also have "\<dots> \<longleftrightarrow> (\<forall>(k, w) \<in> set kvs. well_typed_member (the (unquote k)) w)"
      unfolding members_accepted_def using ok member_accepted by fast
    finally show ?thesis using U Some v by simp
  next
    case False
    then have "dec_struct envelope_fields v zero_envelope \<noteq> None \<longleftrightarrow> v = JNull"
      by (cases v) (simp_all add: dec_struct_def)
    then show ?thesis using U Some False by auto
  qed
qed (simp add: Unmarshal_envelope_def Unmarshal_def)

section \<open>What is in an envelope that was accepted\<close>

definition utf8_envelope :: "telemetry_envelope \<Rightarrow> bool" where
  "utf8_envelope e \<longleftrightarrow> list_all valid_utf8 [env_GatewayID e, env_SensorID e, env_SensorType e,
     blob_Value (env_EncryptedData e), blob_Value (env_IV e), blob_Value (env_AuthTag e)]"

lemma dec_string_utf8: "dec_string v cur = Some s \<Longrightarrow> valid_utf8 cur \<Longrightarrow> valid_utf8 s"
  by (auto simp: dec_string_def unquote_valid split: json.splits)

lemma dec_blob_utf8:
  assumes "dec_blob v cur = Some ob"
  shows "valid_utf8 (blob_Value ob)"
proof -
  obtain w s where "dec_string w [] = Some s" "blob_Value ob = s"
    using assms
    by (auto simp: dec_blob_def OpaqueBlob_UnmarshalJSON_def Unmarshal_def split: sum.splits option.splits)
  then show ?thesis using dec_string_utf8 [of w "[]" s] by simp
qed

text \<open>
  C22. Every string of an envelope that was decoded is valid UTF-8, whatever bytes came over the wire: the
  identifiers that become keys of the tracker and every column that goes to the database.
\<close>

theorem decoded_envelope_utf8:
  assumes "Unmarshal_envelope data = Inr e"
  shows "utf8_envelope e"
proof -
  obtain v where v: "dec_struct envelope_fields v zero_envelope = Some e"
    using assms by (auto simp: Unmarshal_envelope_def Unmarshal_def split: option.splits)
  have zero: "utf8_envelope zero_envelope" by (simp add: utf8_envelope_def zero_envelope_def)
  have each: "utf8_envelope s'" if "(name, dec) \<in> set envelope_fields" "utf8_envelope s" "dec w s = Some s'"
    for name dec w s s'
    using that
    by (auto simp: envelope_fields_def field_def utf8_envelope_def)
      (metis dec_string_utf8 dec_blob_utf8)+
  show ?thesis
  proof (cases "\<exists>kvs. v = JObj kvs")
    case True
    then obtain kvs where run: "dec_members envelope_fields kvs zero_envelope = Some e"
      using v by (auto simp: dec_struct_def)
    show ?thesis by (rule dec_members_invariant [where P = utf8_envelope, OF _ zero run]) (rule each)
  next
    case False
    then show ?thesis using v zero by (cases v) (auto simp: dec_struct_def)
  qed
qed

section \<open>Round trips\<close>

text \<open>
  C21. An envelope that a gateway writes with the struct's tags is decoded as the same envelope, with its
  strings made valid UTF-8, when the offset of its zone is a whole number of minutes.
\<close>

theorem envelope_round_trip:
  assumes "Marshal_envelope zone e = Inr data" and "zone (env_Timestamp e) mod 60 = 0"
  shows "Unmarshal_envelope data = Inr (valid_envelope e)"
  by (rule envelope_wire.reads_back [where x = e, OF assms(2,1)])

text \<open>
  An opaque blob that is marshalled is unmarshalled as the same blob, up to bytes that are not UTF-8;
  what the variable held before is gone.
\<close>

theorem blob_round_trip:
  "\<exists>data. OpaqueBlob_MarshalJSON ob = Inr data
     \<and> OpaqueBlob_UnmarshalJSON data old = Inr \<lparr>blob_Value = to_valid (blob_Value ob)\<rparr>"
  by (simp add: OpaqueBlob_MarshalJSON_def OpaqueBlob_UnmarshalJSON_def Unmarshal_print dec_string_def
      unquote_quote)

text \<open>
  The requests of the service: what is written is read back under the names of the contract, the alert
  with the timeout that fired and both instants, the status update with its status.
\<close>

theorem alert_round_trip:
  assumes "Marshal_alert zone a = Inr data"
    and "zone (al_LastSeen a) mod 60 = 0" and "zone (al_Timestamp a) mod 60 = 0"
  shows "read_alert data = Inr (a\<lparr>al_GatewayID := to_valid (al_GatewayID a)\<rparr>)"
  using alert_wire.reads_back [of zone a data] assms by simp

theorem status_update_round_trip:
  assumes "Marshal_status_update zone u = Inr data" and "zone (upd_LastSeenAt u) mod 60 = 0"
  shows "read_status_update data
    = Inr (to_valid (upd_GatewayID u), status_text (upd_Status u), upd_LastSeenAt u)"
  by (rule status_wire.reads_back [where x = u, OF assms(2,1)])

section \<open>What can be encoded\<close>

lemma json_time_writable: "writable zone t \<Longrightarrow> \<exists>v. json_time zone t = Inr v"
  using format_writable [of zone t] by (auto simp: json_time_def)

text \<open>
  Every alert and every status update whose instants lie in the years 1 to 9999 of their zone is
  encoded: marshalling never fails on what the clock and the tracker produce.
\<close>

theorem requests_are_encoded:
  assumes "writable zone (al_LastSeen a)" and "writable zone (al_Timestamp a)"
    and "writable zone (upd_LastSeenAt u)"
  shows "\<exists>da du. enc_alert (go_json zone) a = Inr da \<and> enc_status_update (go_json zone) u = Inr du"
proof -
  obtain v w x where "json_time zone (al_LastSeen a) = Inr v" "json_time zone (al_Timestamp a) = Inr w"
      "json_time zone (upd_LastSeenAt u) = Inr x"
    using assms json_time_writable by meson
  then show ?thesis
    by (simp add: go_json_def Marshal_alert_def Marshal_status_update_def Marshal_struct_def)
qed

section \<open>Empty texts\<close>

lemma parse_empty:
  "parse_json ''null'' = Some JNull" "parse_json ''{}'' = Some (JObj [])" "parse_json [] = None"
  by (simp_all add: parse_json_def lex_outside_def is_space_def is_digit_def open_ok_def
      maxNestingDepth_def)

lemma decode_empty:
  assumes "data \<in> {''null'', ''{}''}"
  shows "Unmarshal (dec_struct fs) data x = Inr x"
  using assms by (auto simp: Unmarshal_def parse_empty dec_struct_def)


text \<open>
  The replies of the management API: an empty reply is no confirmation of a status update and no
  lifecycle state, but \<open>null\<close> is an empty list of alert configurations.
\<close>

theorem empty_replies:
  assumes "\<And>subject body. requestWithRetry c subject body x = Ret (Inr reply, x1)"
    and "reply = ''null'' \<or> reply = ''{}''" and "Marshal_status_update zone u = Inr body"
  shows "UpdateGatewayStatus (go_json zone) c u x =
      Ret (Some (Errorf ''gateway status update rejected by management-api: %s'' [FS []]), x1)
    \<and> RR_GetGatewayLifecycle (go_json zone) c t g x =
      Ret ((LifecycleUnknown, Some (Errorf ''gateway lifecycle response missing gateway_id'' [])), x1)
    \<and> FetchAlertConfigs (go_json zone) c x =
      Ret (if reply = ''null'' then Inr []
           else Inl (Wrapf ''unmarshal alert configs: %w'' [] (External err_mismatch)), x1)"
proof -
  have reply: "reply \<in> {''null'', ''{}''}" using assms(2) by blast
  have "Unmarshal_update_response reply = Inr \<lparr>resp_Success = False, resp_Error = []\<rparr>"
    "Unmarshal_lifecycle_response reply = Inr \<lparr>lresp_GatewayID = [], lresp_State = []\<rparr>"
    using decode_empty [OF reply] by (simp_all add: Unmarshal_update_response_def Unmarshal_lifecycle_response_def)
  moreover have "Unmarshal_alert_configs reply = (if reply = ''null'' then Inr [] else Inl err_mismatch)"
    using assms(2) by (auto simp: Unmarshal_alert_configs_def Unmarshal_def parse_empty dec_slice_def)
  moreover obtain lbody where "Marshal_lifecycle_request \<lparr>lreq_GatewayID = g, lreq_TenantID = t\<rparr> = Inr lbody"
    by (simp add: Marshal_lifecycle_request_def Marshal_struct_def)
  ultimately show ?thesis
    using assms(1,3)
    by (simp add: UpdateGatewayStatus_def RR_GetGatewayLifecycle_def FetchAlertConfigs_def go_json_def
        validateGatewayLifecycleResponse_def)
qed

text \<open>
  A refresh that is answered with \<open>null\<close> counts as a success and drops every configured timeout: all
  gateways of all tenants are watched with the default from then on.
\<close>

theorem null_reply_clears_cache:
  assumes "cache_rrClient c = FetchAlertConfigs (go_json zone) rr"
    and "requestWithRetry rr subjectAlertConfigsList [] (ext w) = Ret (Inr ''null'', x1)"
  shows "\<exists>c' w'. refresh c w = Ret (None, c', w')
    \<and> (\<forall>t g. cache_TimeoutFor c' t g = defaultTimeoutMs c)"
proof -
  have "dec_alert_configs (go_json zone) ''null'' = Inr []"
    by (simp add: go_json_def Unmarshal_alert_configs_def Unmarshal_def parse_empty dec_slice_def)
  then have "cache_rrClient c (ext w) = Ret (Inr [], x1)"
    using assms by (simp add: FetchAlertConfigs_def)
  then show ?thesis
    by (cases "cache_now c x1")
      (simp add: refresh_def Let_def cache_TimeoutFor_def snapshot_timeout_def build_snapshot_def)
qed

section \<open>A row that the table cannot hold\<close>

text \<open>
  The columns of the telemetry table (\<open>migrations/001_create_telemetry_hypertable.sql\<close>): PostgreSQL's
  \<open>INTEGER\<close> has 32 bits and its \<open>TEXT\<close> holds no zero byte.
\<close>

definition fits_columns :: "telemetry_row \<Rightarrow> bool" where
  "fits_columns row \<longleftrightarrow>
     - (2 ^ 31) \<le> sint (row_KeyVersion row) \<and> sint (row_KeyVersion row) < 2 ^ 31
     \<and> list_all (\<lambda>s. CHR 0x00 \<notin> set s) [row_TenantID row, row_GatewayID row, row_SensorID row,
         row_SensorType row, blob_Value (row_EncryptedData row), blob_Value (row_IV row),
         blob_Value (row_AuthTag row)]"

lemma timed_write_refused:
  assumes "timed_write c rows w = (e, w')" and "rows \<noteq> []" and "\<And>x. fst (tc_writer c rows x) \<noteq> None"
  shows "e \<noteq> None"
  using assms by (auto simp: timed_write_def outside_def split: prod.splits) (metis fst_conv)


section \<open>Witnesses\<close>

text \<open>A process in UTC+1, the text of an envelope with the largest key version, and one that is refused.\<close>

definition demo_zone :: "time \<Rightarrow> int" where
  "demo_zone t = 3600"

definition demo_sent :: "i64 \<Rightarrow> telemetry_envelope" where
  "demo_sent version = \<lparr>env_GatewayID = ''gw-1'', env_SensorID = ''s'', env_SensorType = SensorTypeHumidity,
     env_Timestamp = 1709209845500000000, env_KeyVersion = version,
     env_EncryptedData = \<lparr>blob_Value = ''AAAA''\<rparr>, env_IV = \<lparr>blob_Value = ''BB==''\<rparr>,
     env_AuthTag = \<lparr>blob_Value = ''CCCC''\<rparr>\<rparr>"

definition demo_text :: "i64 \<Rightarrow> string" where
  "demo_text version = projr (Marshal_envelope demo_zone (demo_sent version))"

lemma demo_writable: "writable demo_zone 1709209845500000000"
  by (simp add: writable_def demo_zone_def)

lemma demo_text: "Marshal_envelope demo_zone (demo_sent version) = Inr (demo_text version)"
proof -
  obtain v where "json_time demo_zone (env_Timestamp (demo_sent version)) = Inr v"
    using json_time_writable [OF demo_writable] by (auto simp: demo_sent_def)
  then show ?thesis
    by (simp add: demo_text_def Marshal_envelope_def Marshal_struct_def blob_json_eq)
qed

lemma demo_valid: "valid_envelope (demo_sent version) = demo_sent version"
  by (simp add: valid_envelope_def valid_blob_def demo_sent_def SensorTypeHumidity_def)

lemma demo_decoded: "Unmarshal_envelope (demo_text version) = Inr (demo_sent version)"
  using envelope_wire.reads_back [OF _ demo_text [of version]] by (simp add: demo_valid demo_zone_def)

lemma envelope_accepted_iff_witness:
  "isl (Unmarshal_envelope (print_json (JObj [(quote ''iv'', json_int64 7)])))
    \<and> \<not> isl (Unmarshal_envelope (print_json (JObj [(quote ''keyversion'', json_int64 7)])))"
proof -
  have parsed: "parse_json (print_json (JObj [(quote k, json_int64 7)])) = Some (JObj [(quote k, json_int64 7)])"
    for k by (rule parse_print) (simp_all add: json_int64_def num_ok_show_int maxNestingDepth_def)
  have names: "unquote (quote ''iv'') = Some ''iv''" "unquote (quote ''keyversion'') = Some ''keyversion''"
    by (simp_all only: unquote_quote) simp_all
  have folded: "fold_name ''keyversion'' = ''KEYVERSION''"
    by (simp_all add: fold_char_def char_of_def bit_0)
  have number: "\<exists>n. parse_decimal (show_int (sint (7 :: i64))) = Inr n"
    using parse_show_int [of 7] by simp
  have "\<not> well_typed_member ''iv'' (json_int64 7)" "well_typed_member ''keyversion'' (json_int64 7)"
    unfolding well_typed_member_def fold_field_names folded using number by (simp_all add: json_int64_def)
  then show ?thesis
    using envelope_accepted_iff [of "print_json (JObj [(quote ''iv'', json_int64 7)])"]
      envelope_accepted_iff [of "print_json (JObj [(quote ''keyversion'', json_int64 7)])"]
    by (simp add: parsed names del: quote.simps)
qed

lemma envelope_round_trip_witness: "Unmarshal_envelope (demo_text 7) = Inr (demo_sent 7)"
  using envelope_round_trip [OF demo_text [of 7]] by (simp add: demo_valid demo_zone_def)

lemma decoded_envelope_utf8_witness: "utf8_envelope (demo_sent 7)"
  by (rule decoded_envelope_utf8 [OF demo_decoded])

definition demo_alert :: alert_payload where
  "demo_alert = \<lparr>al_GatewayID = ''gw-1'', al_LastSeen = 1709209845500000000, al_TimeoutMs = 60000,
     al_Timestamp = 1709209845500000000\<rparr>"

definition demo_update :: gateway_status_update where
  "demo_update = \<lparr>upd_GatewayID = ''gw-1'', upd_Status = Offline, upd_LastSeenAt = 1709209845500000000\<rparr>"

lemma demo_requests: "\<exists>da. Marshal_alert demo_zone demo_alert = Inr da"
  "\<exists>du. Marshal_status_update demo_zone demo_update = Inr du"
  using json_time_writable [OF demo_writable]
  by (auto simp: Marshal_alert_def Marshal_status_update_def Marshal_struct_def demo_alert_def demo_update_def)

lemma alert_round_trip_witness:
  "\<exists>data. Marshal_alert demo_zone demo_alert = Inr data \<and> read_alert data = Inr demo_alert"
proof -
  obtain data where "Marshal_alert demo_zone demo_alert = Inr data" using demo_requests(1) by blast
  with alert_round_trip [OF this] show ?thesis by (simp add: demo_zone_def demo_alert_def)
qed

lemma status_update_round_trip_witness:
  "\<exists>data. Marshal_status_update demo_zone demo_update = Inr data
     \<and> read_status_update data = Inr (''gw-1'', ''offline'', 1709209845500000000)"
proof -
  obtain data where "Marshal_status_update demo_zone demo_update = Inr data" using demo_requests(2) by blast
  with status_update_round_trip [OF this] show ?thesis by (simp add: demo_zone_def demo_update_def)
qed

lemma requests_are_encoded_witness:
  "\<exists>da du. enc_alert (go_json demo_zone) demo_alert = Inr da
     \<and> enc_status_update (go_json demo_zone) demo_update = Inr du"
  by (rule requests_are_encoded) (simp_all add: demo_alert_def demo_update_def demo_writable)

definition demo_empty :: nats_msg where
  "demo_empty = \<lparr>msg_Subject = ''telemetry.data.t.g'', msg_Data = ''{}'', msg_Reply = ''1''\<rparr>"


definition demo_reply_client :: "string \<Rightarrow> unit rr_client" where
  "demo_reply_client reply = NewNATSRRClient (\<lambda>d s b x. (Inr reply, x)) (\<lambda>d. Pair None) second"

lemma demo_reply: "requestWithRetry (demo_reply_client reply) subject body x = Ret (Inr reply, x)"
  by (simp add: demo_reply_client_def NewNATSRRClient_def requestWithRetry_def retry_loop.simps)

lemma empty_replies_witness:
  "FetchAlertConfigs (go_json demo_zone) (demo_reply_client ''null'') () = Ret (Inr [], ())"
proof -
  obtain body where "Marshal_status_update demo_zone demo_update = Inr body" using demo_requests(2) by blast
  from empty_replies [OF demo_reply _ this, of "''null''"] show ?thesis by simp
qed

definition demo_null_cache :: "unit alert_config_cache" where
  "demo_null_cache = (NewAlertConfigCache (FetchAlertConfigs (go_json demo_zone) (demo_reply_client ''null''))
     (Pair 42) (\<lambda>d. Pair None) 60000 second 3 1000 30000)
     \<lparr>snapshot_ptr := build_snapshot [\<lparr>cfg_TenantID = ''t'', cfg_GatewayID = None, cfg_TimeoutMs = 5000\<rparr>] 0\<rparr>"

lemma null_reply_clears_cache_witness:
  "cache_TimeoutFor demo_null_cache ''t'' ''g'' = 5000
   \<and> (\<exists>c' w'. refresh demo_null_cache \<lparr>mtr = zero_metrics, ext = ()\<rparr> = Ret (None, c', w')
        \<and> cache_TimeoutFor c' ''t'' ''g'' = 60000)"
proof
  show "cache_TimeoutFor demo_null_cache ''t'' ''g'' = 5000"
    by (simp add: demo_null_cache_def cache_TimeoutFor_def snapshot_timeout_def build_snapshot_def
        store_config_def)
  have "cache_rrClient demo_null_cache = FetchAlertConfigs (go_json demo_zone) (demo_reply_client ''null'')"
    "defaultTimeoutMs demo_null_cache = 60000"
    by (simp_all add: demo_null_cache_def NewAlertConfigCache_def)
  from null_reply_clears_cache [OF this(1) demo_reply] this(2)
  show "\<exists>c' w'. refresh demo_null_cache \<lparr>mtr = zero_metrics, ext = ()\<rparr> = Ret (None, c', w')
      \<and> cache_TimeoutFor c' ''t'' ''g'' = 60000" by metis
qed

text \<open>A database that refuses what does not fit, and a batch of a good message and a refused one.\<close>

definition demo_strict :: "(tracker \<times> demo_log) telemetry_consumer" where
  "demo_strict = demo_consumer\<lparr>tc_writer := (\<lambda>rows (t, as, st).
     if list_all fits_columns rows then (None, t, as, st @ rows) else (Some (External ''22003''), t, as, st))\<rparr>"

definition demo_message :: "i64 \<Rightarrow> nats_msg" where
  "demo_message version = \<lparr>msg_Subject = ''telemetry.data.t.gw-1'', msg_Data = demo_text version, msg_Reply = ''1''\<rparr>"

definition demo_pending :: "i64 \<Rightarrow> pending_msg" where
  "demo_pending version = \<lparr>pm_msg = demo_message version, pm_row = buildRow ''t'' (demo_sent version), pm_err = None\<rparr>"

lemma demo_strict_observed:
  "observed_consumer demo_strict (\<lambda>w w'. False) (\<lambda>x. fst (snd x)) (\<lambda>x. snd (snd x))"
  using demo_consumer_observed by (auto simp: observed_consumer_def demo_strict_def)

lemma demo_strict_message:
  "\<exists>w. on_message (go_json zone) demo_strict (demo_message version) demo_world0 = Ret (demo_pending version, w)"
  by (simp add: on_message_def processMessage_def go_json_def demo_message_def demo_decoded demo_pending_def
      extractTenantID_def demo_strict_def demo_consumer_eval)


end
