(* ===== verification/Tracker_Concurrent.thy ===== *)
theory Tracker_Concurrent
  imports Tracker_Props
begin

text \<open>
  The tracker under concurrency: NATS callbacks, the ticker goroutine and the dispatch worker run at
  the same time, and \<open>Tick\<close> holds the lock only for its snapshot and for each marking. A step is one
  action on the shared state: a critical section, a channel operation or a turn of the worker. The
  part of \<open>Tick\<close> between two such actions (the queries and the publication) reads only the tick's own
  copy of the entry, so it is one step of its own.

  Three history variables record what has happened: \<open>hist\<close> (newest first) when a gateway came
  online, was alerted or forgotten; \<open>offered\<close> (newest first) the status of every update that was
  offered to the dispatch channel, kept with the full key of its gateway; \<open>accepted\<close> and \<open>delivered\<close>
  the jobs that went into the channel and the jobs performed, oldest first.
\<close>

section \<open>States and steps\<close>

datatype tick_pc =
    Tick_idle
  | Tick_loop time "heartbeat_entry list"
  | Tick_dispatch time heartbeat_entry "heartbeat_entry list"
  | Tick_mark time heartbeat_entry "heartbeat_entry list"

datatype happening = Came_online | Alerted | Forgotten

record 'x csys =
  ctr :: tracker
  cw :: "'x world"
  pc :: tick_pc
  hist :: "(gateway_key \<times> happening) list"
  offered :: "(gateway_key \<times> gateway_status) list"
  accepted :: "status_update_job list"
  delivered :: "status_update_job list"

definition note_offer ::
    "gateway_key \<Rightarrow> status_update_job \<Rightarrow> 'x csys \<Rightarrow> 'x csys" where
  "note_offer k j s =
     s\<lparr>offered := (k, upd_Status (job_update j)) # offered s,
       accepted := (if can_accept (ctr s) then accepted s @ [j] else accepted s)\<rparr>"

inductive cstep :: "'x driven_ports \<Rightarrow> 'x csys \<Rightarrow> 'x csys \<Rightarrow> bool" for P where
  c_refresh: "k = GatewayKey tenantID gatewayID \<Longrightarrow> fleet_of (ctr s) k = Some Online
     \<Longrightarrow> telemetry_locked now tenantID gatewayID (ctr s, cw s) = Ret (t', w')
     \<Longrightarrow> cstep P s (s\<lparr>ctr := t', cw := w'\<rparr>)"
| c_online: "k = GatewayKey tenantID gatewayID \<Longrightarrow> fleet_of (ctr s) k \<noteq> Some Online
     \<Longrightarrow> telemetry_locked now tenantID gatewayID (ctr s, cw s) = Ret (t', w')
     \<Longrightarrow> cstep P s ((note_offer k (online_job gatewayID now) s)
           \<lparr>ctr := t', cw := w', hist := (k, Came_online) # hist s\<rparr>)"
| c_decommission: "HandleDecommission tenantID gatewayID (ctr s, cw s) = (t', w')
     \<Longrightarrow> cstep P s (s\<lparr>ctr := t', cw := w',
           hist := (GatewayKey tenantID gatewayID, Forgotten) # hist s\<rparr>)"
| c_tick_begin: "pc s = Tick_idle
     \<Longrightarrow> \<not> now0 < startTime (ctr s) + sint (gracePeriod (ctr s))
     \<Longrightarrow> iteration_order order (ctr s)
     \<Longrightarrow> cstep P s (s\<lparr>pc := Tick_loop now (snapshot order (ctr s))\<rparr>)"
| c_tick_skip: "pc s = Tick_loop now (e # es) \<Longrightarrow> tick_verdict P now e (cw s) = (v, w')
     \<Longrightarrow> v \<noteq> Fired \<Longrightarrow> cstep P s (s\<lparr>cw := w', pc := Tick_loop now es\<rparr>)"
| c_tick_publish: "pc s = Tick_loop now (e # es) \<Longrightarrow> tick_verdict P now e (cw s) = (Fired, w')
     \<Longrightarrow> cstep P s (s\<lparr>cw := w', pc := Tick_dispatch now e es,
           hist := (entry_key e, Alerted) # hist s\<rparr>)"
| c_tick_dispatch: "pc s = Tick_dispatch now e es
     \<Longrightarrow> dispatchStatusUpdate (offline_update e) (ctr s, cw s) = Ret (t', w')
     \<Longrightarrow> cstep P s ((note_offer (entry_key e) \<lparr>job_update = offline_update e\<rparr> s)
           \<lparr>ctr := t', cw := w', pc := Tick_mark now e es\<rparr>)"
| c_tick_mark: "pc s = Tick_mark now e es
     \<Longrightarrow> cstep P s (s\<lparr>ctr := mark_offline (entry_key e) (ctr s), pc := Tick_loop now es\<rparr>)"
| c_tick_end: "pc s = Tick_loop now [] \<Longrightarrow> cstep P s (s\<lparr>pc := Tick_idle\<rparr>)"
| c_receive: "worker (ctr s) = Ready \<Longrightarrow> cstep P s (s\<lparr>ctr := worker_receive (ctr s)\<rparr>)"
| c_perform: "worker (ctr s) = Got j \<Longrightarrow> worker_perform P j (ctr s, cw s) = (t', w')
     \<Longrightarrow> cstep P s (s\<lparr>ctr := t', cw := w', delivered := delivered s @ [j]\<rparr>)"
| c_close: "\<not> dispatchClosed (ctr s) \<Longrightarrow> cstep P s (s\<lparr>ctr := close_channel (ctr s)\<rparr>)"
| c_environment: "cstep P s (s\<lparr>cw := w'\<rparr>)"

text \<open>
  The environment may change the world at any time (the clock moves on, other components act). A
  send on the closed channel panics and ends the process, so it has no successor state.
\<close>

inductive creachable :: "'x driven_ports \<Rightarrow> 'x csys \<Rightarrow> bool" for P where
  creach_new: "NewHeartbeatTracker P n grace w = Ret (t, w')
     \<Longrightarrow> creachable P \<lparr>ctr = t, cw = w', pc = Tick_idle, hist = [], offered = [],
           accepted = [], delivered = []\<rparr>"
| creach_step: "creachable P s \<Longrightarrow> cstep P s s' \<Longrightarrow> creachable P s'"

lemma creachable_steps: "(cstep P)\<^sup>*\<^sup>* s s' \<Longrightarrow> creachable P s \<Longrightarrow> creachable P s'"
  by (induction rule: rtranclp_induct) (auto intro: creach_step)

section \<open>What the steps do to the fleet\<close>

lemma fleet_telemetry [tracker_frame]:
  "telemetry_locked now tenantID gatewayID (t, w) = Ret (t', w') \<Longrightarrow>
     fleet_of t' = (fleet_of t)(GatewayKey tenantID gatewayID \<mapsto> Online)"
  by (subst fleet_of_upd [OF telemetry_locked_beats]) (auto split: option.splits)

lemma fleet_decommission [tracker_frame]:
  "HandleDecommission tenantID gatewayID (t, w) = (t', w') \<Longrightarrow>
     fleet_of t' = (fleet_of t)(GatewayKey tenantID gatewayID := None)"
  using HandleDecommission_beats [of tenantID gatewayID "(t, w)"]
  by (simp add: fleet_of_def fun_eq_iff)

lemma fleet_mark [tracker_frame]:
  "fleet_of (mark_offline k t) = (fleet_of t)(k := map_option (\<lambda>_. Offline) (fleet_of t k))"
  by (auto simp: fleet_of_def fun_eq_iff option.map_comp comp_def)

lemma fleet_same_beats: "beats t' = beats t \<Longrightarrow> fleet_of t' = fleet_of t"
  by (simp add: fleet_of_def)

lemma fleet_dispatch [tracker_frame]:
  "dispatchStatusUpdate u (t, w) = Ret (t', w') \<Longrightarrow> fleet_of t' = fleet_of t"
  by (intro fleet_same_beats dispatch_frame(1))

lemma fleet_worker [tracker_frame]:
  "fleet_of (worker_receive t) = fleet_of t" "fleet_of (close_channel t) = fleet_of t"
  "worker_perform P j (t, w) = (t', w') \<Longrightarrow> fleet_of t' = fleet_of t"
  by (auto simp: close_channel_def worker_perform_eq intro!: fleet_same_beats)

lemma fleet_snapshot:
  assumes "tracker_inv t" and "iteration_order order t" and "e \<in> set (snapshot order t)"
  shows "fleet_of t (entry_key e) = Some (knownStatus e)"
proof -
  obtain k where k: "beats t k = Some e"
    using assms(3) by (auto simp: set_snapshot [OF assms(2)] ran_def)
  with tracker_invD(2) [OF assms(1) k] show ?thesis by (simp add: fleet_of_def)
qed

section \<open>The tick's own list\<close>

fun todo :: "tick_pc \<Rightarrow> heartbeat_entry list" where
  "todo Tick_idle = []"
| "todo (Tick_loop now es) = es"
| "todo (Tick_dispatch now e es) = es"
| "todo (Tick_mark now e es) = es"

text \<open>The gateway whose alert is out and whose marking is still to come.\<close>

fun in_flight :: "tick_pc \<Rightarrow> gateway_key option" where
  "in_flight (Tick_dispatch now e es) = Some (entry_key e)"
| "in_flight (Tick_mark now e es) = Some (entry_key e)"
| "in_flight _ = None"

definition waiting :: "tick_pc \<Rightarrow> gateway_key set" where
  "waiting p = {entry_key e |e. e \<in> set (todo p) \<and> knownStatus e = Online}"

definition tick_distinct :: "tick_pc \<Rightarrow> bool" where
  "tick_distinct p \<longleftrightarrow>
     distinct (map entry_key (todo p)) \<and> (\<forall>k. in_flight p = Some k \<longrightarrow> k \<notin> entry_key ` set (todo p))"

lemma waiting_simps [simp]:
  "waiting Tick_idle = {}"
  "waiting (Tick_loop now []) = {}"
  "waiting (Tick_loop now (e # es)) =
     (if knownStatus e = Online then {entry_key e} else {}) \<union> waiting (Tick_loop now es)"
  "waiting (Tick_dispatch now e es) = waiting (Tick_loop now es)"
  "waiting (Tick_mark now e es) = waiting (Tick_loop now es)"
  by (auto simp: waiting_def)

lemma waiting_sub: "waiting p \<subseteq> entry_key ` set (todo p)"
  by (auto simp: waiting_def)

lemma tick_distinct_simps [simp]:
  "tick_distinct Tick_idle"
  "tick_distinct (Tick_loop now es) \<longleftrightarrow> distinct (map entry_key es)"
  "tick_distinct (Tick_dispatch now e es) \<longleftrightarrow> distinct (map entry_key (e # es))"
  "tick_distinct (Tick_mark now e es) \<longleftrightarrow> distinct (map entry_key (e # es))"
  by (auto simp: tick_distinct_def)

section \<open>Basic invariant: well-formed trackers, distinct snapshots, first in first out\<close>

definition cinv :: "'x csys \<Rightarrow> bool" where
  "cinv s \<longleftrightarrow> tracker_inv (ctr s) \<and> tick_distinct (pc s)
     \<and> delivered s @ pending_jobs (ctr s) = accepted s"

lemma dispatch_pending:
  assumes "tracker_inv t" and "dispatchStatusUpdate u (t, w) = Ret (t', w')"
  shows "pending_jobs t' = pending_jobs t @ (if can_accept t then [\<lparr>job_update = u\<rparr>] else [])"
  using dispatch_accounts [OF assms] by (auto split: if_splits)

lemma telemetry_pending:
  assumes "tracker_inv t" and "telemetry_locked now tenantID gatewayID (t, w) = Ret (t', w')"
  shows "pending_jobs t' = pending_jobs t @
    (if fleet_of t (GatewayKey tenantID gatewayID) \<noteq> Some Online \<and> can_accept t
     then [online_job gatewayID now] else [])"
  using telemetry_accounts [OF assms] by (auto split: if_splits)

lemma worker_receive_pending:
  "worker t = Ready \<Longrightarrow> pending_jobs (worker_receive t) = pending_jobs t"
  by (simp add: worker_receive_def pending_jobs_def split: list.splits)

lemma close_channel_inv: "tracker_inv t \<Longrightarrow> tracker_inv (close_channel t)"
  by (auto simp: tracker_inv_def close_channel_def split: if_splits)

lemma close_channel_pending: "pending_jobs (close_channel t) = pending_jobs t"
  by (simp add: close_channel_def pending_jobs_def split: worker_state.splits)

lemma mark_offline_pending [simp]: "pending_jobs (mark_offline k t) = pending_jobs t"
  by (simp add: pending_jobs_def)

lemma note_offer_simps [simp]:
  "ctr (note_offer k j s) = ctr s" "cw (note_offer k j s) = cw s" "pc (note_offer k j s) = pc s"
  "hist (note_offer k j s) = hist s" "delivered (note_offer k j s) = delivered s"
  "offered (note_offer k j s) = (k, upd_Status (job_update j)) # offered s"
  "accepted (note_offer k j s) = (if can_accept (ctr s) then accepted s @ [j] else accepted s)"
  by (simp_all add: note_offer_def)

lemma cstep_cinv: "cstep P s s' \<Longrightarrow> cinv s \<Longrightarrow> cinv s'"
proof (induction rule: cstep.induct)
  case (c_refresh k tenantID gatewayID s now t' w')
  then show ?case
    by (auto simp: cinv_def telemetry_pending telemetry_locked_inv)
next
  case (c_online k tenantID gatewayID s now t' w')
  then show ?case
    by (auto simp: cinv_def telemetry_pending telemetry_locked_inv)
next
  case (c_decommission tenantID gatewayID s t' w')
  then have "tracker_inv t'" and "pending_jobs t' = pending_jobs (ctr s)"
    using HandleDecommission_inv [of "(ctr s, cw s)" tenantID gatewayID]
    by (auto simp: cinv_def HandleDecommission_def Let_def)
  with c_decommission show ?case by (simp add: cinv_def)
next
  case (c_tick_begin s now0 order now)
  then show ?case by (simp add: cinv_def snapshot_keys iteration_order_def)
next
  case (c_tick_dispatch s now e es t' w')
  then show ?case by (auto simp: cinv_def dispatch_pending dispatch_inv)
next
  case (c_perform s j t' w')
  then have "t' = ctr s\<lparr>worker := Ready\<rparr>" by (simp add: worker_perform_eq)
  with c_perform show ?case by (auto simp: cinv_def pending_jobs_def tracker_inv_def)
qed (auto simp: cinv_def mark_offline_inv worker_receive_inv worker_receive_pending
       close_channel_inv close_channel_pending)

lemma new_tracker_fields:
  "NewHeartbeatTracker P n grace w = Ret (t, w') \<Longrightarrow> pending_jobs t = []"
  by (auto simp: NewHeartbeatTracker_def Let_def pending_jobs_def split: prod.splits if_splits)

lemma creachable_cinv: "creachable P s \<Longrightarrow> cinv s"
proof (induction rule: creachable.induct)
  case (creach_new n grace w t w')
  then show ?case by (auto simp: cinv_def dest: new_tracker_inv new_tracker_fields)
next
  case (creach_step s s')
  then show ?case using cstep_cinv by blast
qed

section \<open>Alerts alternate with recoveries\<close>

text \<open>The last thing that happened to a gateway, other than being forgotten.\<close>

fun last_of :: "gateway_key \<Rightarrow> (gateway_key \<times> happening) list \<Rightarrow> happening option" where
  "last_of k [] = None"
| "last_of k ((k', h) # hs) = (if k' = k \<and> h \<noteq> Forgotten then Some h else last_of k hs)"

text \<open>Each alert is preceded by a coming online with no alert in between.\<close>

fun alerts_ok :: "(gateway_key \<times> happening) list \<Rightarrow> bool" where
  "alerts_ok [] \<longleftrightarrow> True"
| "alerts_ok ((k, h) # hs) \<longleftrightarrow> (h = Alerted \<longrightarrow> last_of k hs = Some Came_online) \<and> alerts_ok hs"

text \<open>The gateways that may still be alerted on the strength of their last coming online.\<close>

definition armed :: "'x csys \<Rightarrow> gateway_key set" where
  "armed s = {k. fleet_of (ctr s) k = Some Online \<and> in_flight (pc s) \<noteq> Some k} \<union> waiting (pc s)"

definition alert_inv :: "'x csys \<Rightarrow> bool" where
  "alert_inv s \<longleftrightarrow> alerts_ok (hist s) \<and> (\<forall>k \<in> armed s. last_of k (hist s) = Some Came_online)
     \<and> (\<forall>k. fleet_of (ctr s) k = Some Offline \<or> in_flight (pc s) = Some k
            \<longrightarrow> (k, Alerted) \<in> set (hist s))"

lemma cstep_alert_inv: "cstep P s s' \<Longrightarrow> cinv s \<Longrightarrow> alert_inv s \<Longrightarrow> alert_inv s'"
proof (induction rule: cstep.induct)
  case (c_tick_begin s now0 order now)
  have "waiting (Tick_loop now (snapshot order (ctr s))) \<subseteq> {k. fleet_of (ctr s) k = Some Online}"
    using c_tick_begin fleet_snapshot [of "ctr s" order]
    by (auto simp: waiting_def cinv_def)
  with c_tick_begin show ?case by (auto simp: alert_inv_def armed_def)
next
  case (c_tick_publish s now e es w')
  then have on: "knownStatus e = Online"
    using tick_verdict_Fired [of P now e "cw s"] by simp
  have fresh: "entry_key e \<notin> waiting (Tick_loop now es)"
    using c_tick_publish waiting_sub [of "Tick_loop now es"] by (auto simp: cinv_def)
  from c_tick_publish on fresh show ?case by (auto simp: alert_inv_def armed_def)
next
  case (c_tick_mark s now e es)
  then show ?case
    by (auto simp: alert_inv_def armed_def fleet_mark split: if_splits)
next
  case (c_tick_dispatch s now e es t' w')
  then show ?case by (auto simp: alert_inv_def armed_def fleet_dispatch)
qed (auto simp: alert_inv_def armed_def fleet_telemetry fleet_decommission fleet_worker
       split: if_splits)

lemma creachable_alert_inv: "creachable P s \<Longrightarrow> alert_inv s"
proof (induction rule: creachable.induct)
  case (creach_new n grace w t w')
  then show ?case by (auto simp: alert_inv_def armed_def dest: new_tracker_inv)
next
  case (creach_step s s')
  then show ?case using cstep_alert_inv creachable_cinv by blast
qed

section \<open>What the management API is told\<close>

fun marking :: "tick_pc \<Rightarrow> gateway_key option" where
  "marking (Tick_mark now e es) = Some (entry_key e)"
| "marking _ = None"

text \<open>
  For a gateway that was never decommissioned, the last status offered for dispatch (the newest
  entry of \<open>offered\<close>) is the status in the heartbeat map, except between the dispatch of its offline
  update and the marking.
\<close>

definition agrees :: "'x csys \<Rightarrow> gateway_key \<Rightarrow> bool" where
  "agrees s k \<longleftrightarrow>
     (case fleet_of (ctr s) k of
        Some Online \<Rightarrow>
          map_of (offered s) k = Some (if marking (pc s) = Some k then Offline else Online)
      | st \<Rightarrow> map_of (offered s) k = st \<and> k \<notin> waiting (pc s) \<and> in_flight (pc s) \<noteq> Some k)"

definition agree_inv :: "'x csys \<Rightarrow> bool" where
  "agree_inv s \<longleftrightarrow> (\<forall>k. (k, Forgotten) \<notin> set (hist s) \<longrightarrow> agrees s k)"

lemma marking_in_flight: "marking p = Some k \<Longrightarrow> in_flight p = Some k"
  by (cases p) auto

lemma agrees_in_flight: "agrees s k \<Longrightarrow> in_flight (pc s) = Some k \<Longrightarrow> fleet_of (ctr s) k = Some Online"
  by (auto simp: agrees_def split: option.splits gateway_status.splits)

lemma agrees_cong:
  assumes "fleet_of (ctr s') k = fleet_of (ctr s) k" and "map_of (offered s') k = map_of (offered s) k"
    and "k \<in> waiting (pc s') \<Longrightarrow> k \<in> waiting (pc s)"
    and "in_flight (pc s') = Some k \<Longrightarrow> in_flight (pc s) = Some k"
    and "(marking (pc s') = Some k) = (marking (pc s) = Some k)"
    and "agrees s k"
  shows "agrees s' k"
proof (cases "fleet_of (ctr s) k")
  case None
  with assms show ?thesis by (auto simp: agrees_def)
next
  case (Some st)
  with assms show ?thesis by (cases st) (auto simp: agrees_def)
qed

lemma cstep_agrees:
  "cstep P s s' \<Longrightarrow> cinv s \<Longrightarrow> (k, Forgotten) \<notin> set (hist s') \<Longrightarrow> agrees s k \<Longrightarrow> agrees s' k"
proof (induction rule: cstep.induct)
  case (c_online k' tenantID gatewayID s now t' w')
  show ?case
  proof (cases "k = k'")
    case True
    with c_online have "marking (pc s) \<noteq> Some k"
      using marking_in_flight [of "pc s" k] agrees_in_flight [of s k] by auto
    with True c_online show ?thesis by (simp add: agrees_def fleet_telemetry online_job_def)
  next
    case False
    note f = fleet_telemetry [OF c_online.hyps(3)]
    show ?thesis
      by (rule agrees_cong [of _ k s]) (use False f c_online.hyps(1) c_online.prems in simp_all)
  qed
next
  case (c_tick_begin s now0 order now)
  have "waiting (Tick_loop now (snapshot order (ctr s))) \<subseteq> {k. fleet_of (ctr s) k = Some Online}"
    using c_tick_begin fleet_snapshot [of "ctr s" order]
    by (auto simp: waiting_def cinv_def)
  with c_tick_begin show ?case
    by (auto simp: agrees_def split: option.splits gateway_status.splits)
next
  case (c_tick_publish s now e es w')
  then have on: "knownStatus e = Online"
    using tick_verdict_Fired [of P now e "cw s"] by simp
  show ?case
  proof (cases "k = entry_key e")
    case True
    with c_tick_publish on have "fleet_of (ctr s) k = Some Online"
      by (auto simp: agrees_def split: option.splits gateway_status.splits)
    with c_tick_publish show ?thesis by (simp add: agrees_def)
  next
    case False
    show ?thesis by (rule agrees_cong [of _ k s]) (use False c_tick_publish in auto)
  qed
next
  case (c_tick_dispatch s now e es t' w')
  show ?case
  proof (cases "k = entry_key e")
    case True
    with c_tick_dispatch have "fleet_of (ctr s) k = Some Online"
      using agrees_in_flight [of s k] by simp
    with True c_tick_dispatch show ?thesis
      by (simp add: agrees_def fleet_dispatch offline_update_def)
  next
    case False
    show ?thesis
      by (rule agrees_cong [of _ k s])
         (use False c_tick_dispatch in \<open>auto simp: fleet_dispatch\<close>)
  qed
next
  case (c_tick_mark s now e es)
  show ?case
  proof (cases "k = entry_key e")
    case True
    with c_tick_mark have "fleet_of (ctr s) k = Some Online"
      using agrees_in_flight [of s k] by simp
    moreover have "k \<notin> waiting (Tick_loop now es)"
      using True c_tick_mark waiting_sub [of "Tick_loop now es"] by (auto simp: cinv_def)
    ultimately show ?thesis using True c_tick_mark by (simp add: agrees_def fleet_mark)
  next
    case False
    show ?thesis
      by (rule agrees_cong [of _ k s]) (use False c_tick_mark in \<open>auto simp: fleet_mark\<close>)
  qed
next
  case (c_refresh k' tenantID gatewayID s now t' w')
  note f = fleet_telemetry [OF c_refresh.hyps(3)]
  show ?case
    by (rule agrees_cong [of _ k s]) (use f c_refresh.hyps(1,2) c_refresh.prems in auto)
next
  case (c_decommission tenantID gatewayID s t' w')
  show ?case
    by (rule agrees_cong [of _ k s]) (use c_decommission in \<open>auto simp: fleet_decommission\<close>)
next
  case (c_perform s j t' w')
  show ?case
    by (rule agrees_cong [of _ k s]) (use c_perform in \<open>auto simp: fleet_worker\<close>)
qed (auto simp: agrees_def fleet_worker split: option.splits gateway_status.splits)

lemma cstep_hist: "cstep P s s' \<Longrightarrow> set (hist s) \<subseteq> set (hist s')"
  by (induction rule: cstep.induct) auto

lemma creachable_agree_inv: "creachable P s \<Longrightarrow> agree_inv s"
proof (induction rule: creachable.induct)
  case (creach_new n grace w t w')
  then show ?case by (auto simp: agree_inv_def agrees_def dest: new_tracker_inv)
next
  case (creach_step s s')
  then show ?case
    using cstep_agrees creachable_cinv cstep_hist unfolding agree_inv_def by blast
qed

end
