(* ===== verification/Tracker_Concurrent_Props.thy ===== *)
theory Tracker_Concurrent_Props
  imports Tracker_Concurrent
begin

text \<open>
  The properties of the interleaved tracker, with a run of it written out step by step for the
  witnesses: a gateway comes online, times out and is decommissioned and registered again while the
  tick is still at work on it.
\<close>

section \<open>A run\<close>

definition demo_P :: "int driven_ports" where
  "demo_P = demo_ports LifecycleOnline None 1"

definition demo_sys ::
    "(gateway_key \<rightharpoonup> heartbeat_entry) \<Rightarrow> status_update_job list \<Rightarrow> tick_pc
      \<Rightarrow> (gateway_key \<times> happening) list \<Rightarrow> (gateway_key \<times> gateway_status) list \<Rightarrow> int csys" where
  "demo_sys m js p hs os =
     \<lparr>ctr = \<lparr>startTime = 0, gracePeriod = 0, beats = m, dispatchCap = 5, dispatchCh = js,
             dispatchClosed = False, worker = Ready\<rparr>,
      cw = demo_world 0, pc = p, hist = hs, offered = os, accepted = js, delivered = []\<rparr>"

lemma demo_step:
  assumes "creachable demo_P s" and "cstep demo_P s s'" and "s'\<lparr>cw := demo_world 0\<rparr> = s''"
  shows "creachable demo_P s''"
  using creach_step [OF creach_step [OF assms(1,2)] c_environment] assms(3) by blast

lemma demo_run0: "creachable demo_P (demo_sys Map.empty [] Tick_idle [] [])"
  using creach_new [of demo_P 5 0 "demo_world 0"]
  by (simp add: demo_sys_def demo_P_def demo_ports_def demo_world_def NewHeartbeatTracker_def)

lemma demo_telemetry:
  assumes "creachable demo_P (demo_sys m js p hs os)" and "m demo_key = None" and "length js < 5"
  shows "creachable demo_P (demo_sys (m(demo_key \<mapsto> demo_entry\<lparr>lastSeen := now\<rparr>))
    (js @ [online_job ''g'' now]) p ((demo_key, Came_online) # hs) ((demo_key, Online) # os))"
proof (rule demo_step [OF assms(1)])
  show "cstep demo_P (demo_sys m js p hs os)
     ((note_offer demo_key (online_job ''g'' now) (demo_sys m js p hs os))
       \<lparr>ctr := (ctr (demo_sys m js p hs os))\<lparr>beats := m(demo_key \<mapsto> demo_entry\<lparr>lastSeen := now\<rparr>),
          dispatchCh := js @ [online_job ''g'' now]\<rparr>,
        cw := with_metrics (SetHeartbeatMapSize (int (card (insert demo_key (dom m))))) (demo_world 0),
        hist := (demo_key, Came_online) # hs\<rparr>)"
    using c_online [of demo_key "''t''" "''g''" "demo_sys m js p hs os" now] assms(2,3)
    by (simp add: demo_sys_def fleet_of_def demo_key_def telemetry_locked_def Let_def
        dispatchStatusUpdate_def try_send_def online_job_def demo_entry_def tracked_def)
qed (use assms(3) in \<open>simp add: demo_sys_def note_offer_def can_accept_def online_job_def\<close>)

lemma demo_run1:
  "creachable demo_P (demo_sys [demo_key \<mapsto> demo_entry] [online_job ''g'' 0] Tick_idle
     [(demo_key, Came_online)] [(demo_key, Online)])"
  using demo_telemetry [OF demo_run0, of 0] by (simp add: demo_entry_def)

lemma demo_run2:
  "creachable demo_P (demo_sys [demo_key \<mapsto> demo_entry] [online_job ''g'' 0]
     (Tick_loop 1000000 [demo_entry]) [(demo_key, Came_online)] [(demo_key, Online)])"
proof (rule demo_step [OF demo_run1])
  show "cstep demo_P (demo_sys [demo_key \<mapsto> demo_entry] [online_job ''g'' 0] Tick_idle
     [(demo_key, Came_online)] [(demo_key, Online)])
    ((demo_sys [demo_key \<mapsto> demo_entry] [online_job ''g'' 0] Tick_idle
     [(demo_key, Came_online)] [(demo_key, Online)])\<lparr>pc := Tick_loop 1000000 (snapshot [demo_key]
       (ctr (demo_sys [demo_key \<mapsto> demo_entry] [online_job ''g'' 0] Tick_idle
     [(demo_key, Came_online)] [(demo_key, Online)])))\<rparr>)"
    by (rule c_tick_begin [of _ 0]) (simp_all add: demo_sys_def iteration_order_def)
qed (simp add: demo_sys_def snapshot_def map_filter_simps)

lemma demo_run3:
  "creachable demo_P (demo_sys [demo_key \<mapsto> demo_entry] [online_job ''g'' 0]
     (Tick_dispatch 1000000 demo_entry []) [(demo_key, Alerted), (demo_key, Came_online)]
     [(demo_key, Online)])"
proof (rule demo_step [OF demo_run2])
  show "cstep demo_P (demo_sys [demo_key \<mapsto> demo_entry] [online_job ''g'' 0]
     (Tick_loop 1000000 [demo_entry]) [(demo_key, Came_online)] [(demo_key, Online)])
    ((demo_sys [demo_key \<mapsto> demo_entry] [online_job ''g'' 0]
     (Tick_loop 1000000 [demo_entry]) [(demo_key, Came_online)] [(demo_key, Online)])
     \<lparr>cw := demo_world 0, pc := Tick_dispatch 1000000 demo_entry [],
      hist := (entry_key demo_entry, Alerted) # hist (demo_sys [demo_key \<mapsto> demo_entry]
        [online_job ''g'' 0] (Tick_loop 1000000 [demo_entry]) [(demo_key, Came_online)]
        [(demo_key, Online)])\<rparr>)"
    by (rule c_tick_publish)
       (simp_all add: demo_sys_def demo_P_def tick_verdict_def demo_defs lifecycle_defs deadline_def
         time_add_def of_ms_def millisecond_def)
qed (simp add: demo_sys_def demo_defs entry_key_def)

definition demo_offline_job :: status_update_job where
  "demo_offline_job = \<lparr>job_update = offline_update demo_entry\<rparr>"

lemma demo_run4:
  "creachable demo_P (demo_sys [demo_key \<mapsto> demo_entry] [online_job ''g'' 0, demo_offline_job]
     (Tick_mark 1000000 demo_entry []) [(demo_key, Alerted), (demo_key, Came_online)]
     [(demo_key, Offline), (demo_key, Online)])"
proof (rule demo_step [OF demo_run3])
  let ?s = "demo_sys [demo_key \<mapsto> demo_entry] [online_job ''g'' 0]
     (Tick_dispatch 1000000 demo_entry []) [(demo_key, Alerted), (demo_key, Came_online)]
     [(demo_key, Online)]"
  show "cstep demo_P ?s ((note_offer (entry_key demo_entry) \<lparr>job_update = offline_update demo_entry\<rparr> ?s)
     \<lparr>ctr := (ctr ?s)\<lparr>dispatchCh := [online_job ''g'' 0, demo_offline_job]\<rparr>, cw := cw ?s,
      pc := Tick_mark 1000000 demo_entry []\<rparr>)"
    by (rule c_tick_dispatch)
       (simp_all add: demo_sys_def dispatchStatusUpdate_def try_send_def demo_offline_job_def)
qed (simp add: demo_sys_def note_offer_def demo_offline_job_def can_accept_def entry_key_def
       demo_entry_def demo_key_def offline_update_def)

lemma demo_run5:
  "creachable demo_P (demo_sys Map.empty [online_job ''g'' 0, demo_offline_job]
     (Tick_mark 1000000 demo_entry [])
     [(demo_key, Forgotten), (demo_key, Alerted), (demo_key, Came_online)]
     [(demo_key, Offline), (demo_key, Online)])"
proof (rule demo_step [OF demo_run4])
  let ?s = "demo_sys [demo_key \<mapsto> demo_entry] [online_job ''g'' 0, demo_offline_job]
     (Tick_mark 1000000 demo_entry []) [(demo_key, Alerted), (demo_key, Came_online)]
     [(demo_key, Offline), (demo_key, Online)]"
  show "cstep demo_P ?s (?s\<lparr>ctr := fst (HandleDecommission ''t'' ''g'' (ctr ?s, cw ?s)),
     cw := snd (HandleDecommission ''t'' ''g'' (ctr ?s, cw ?s)),
     hist := (GatewayKey ''t'' ''g'', Forgotten) # hist ?s\<rparr>)"
    by (rule c_decommission) simp
qed (simp add: demo_sys_def demo_key_def HandleDecommission_def Let_def)

lemma demo_run6:
  "creachable demo_P (demo_sys [demo_key \<mapsto> demo_entry\<lparr>lastSeen := 1000000\<rparr>]
     [online_job ''g'' 0, demo_offline_job, online_job ''g'' 1000000]
     (Tick_mark 1000000 demo_entry [])
     [(demo_key, Came_online), (demo_key, Forgotten), (demo_key, Alerted), (demo_key, Came_online)]
     [(demo_key, Online), (demo_key, Offline), (demo_key, Online)])"
  using demo_telemetry [OF demo_run5, of 1000000] by simp

lemma demo_run7:
  "creachable demo_P (demo_sys
     [demo_key \<mapsto> demo_entry\<lparr>lastSeen := 1000000, knownStatus := Offline\<rparr>]
     [online_job ''g'' 0, demo_offline_job, online_job ''g'' 1000000]
     (Tick_loop 1000000 [])
     [(demo_key, Came_online), (demo_key, Forgotten), (demo_key, Alerted), (demo_key, Came_online)]
     [(demo_key, Online), (demo_key, Offline), (demo_key, Online)])"
proof (rule demo_step [OF demo_run6])
  let ?s = "demo_sys [demo_key \<mapsto> demo_entry\<lparr>lastSeen := 1000000\<rparr>]
     [online_job ''g'' 0, demo_offline_job, online_job ''g'' 1000000]
     (Tick_mark 1000000 demo_entry [])
     [(demo_key, Came_online), (demo_key, Forgotten), (demo_key, Alerted), (demo_key, Came_online)]
     [(demo_key, Online), (demo_key, Offline), (demo_key, Online)]"
  show "cstep demo_P ?s (?s\<lparr>ctr := mark_offline (entry_key demo_entry) (ctr ?s),
     pc := Tick_loop 1000000 []\<rparr>)"
    by (rule c_tick_mark) (simp add: demo_sys_def)
qed (simp add: demo_sys_def mark_offline_def entry_key_def demo_entry_def demo_key_def)

lemma demo_run8:
  "creachable demo_P (demo_sys
     [demo_key \<mapsto> demo_entry\<lparr>lastSeen := 1000000, knownStatus := Offline\<rparr>]
     [online_job ''g'' 0, demo_offline_job, online_job ''g'' 1000000]
     Tick_idle
     [(demo_key, Came_online), (demo_key, Forgotten), (demo_key, Alerted), (demo_key, Came_online)]
     [(demo_key, Online), (demo_key, Offline), (demo_key, Online)])"
  using creach_step [OF demo_run7 c_tick_end] by (simp add: demo_sys_def)

section \<open>Properties\<close>

lemma alerts_ok_split:
  "alerts_ok (xs @ (k, Alerted) # zs) \<Longrightarrow> last_of k zs = Some Came_online"
  by (induction xs) auto

text \<open>
  C2. No outage is alerted twice: in every interleaving, whenever an alert is published for a
  gateway, the last thing that happened to it before (decommissioning aside) was its coming online,
  by a first sighting or a recovery, and not another alert.
\<close>

theorem alert_once_per_outage:
  assumes "creachable P s" and "hist s = later @ (k, Alerted) # earlier"
  shows "last_of k earlier = Some Came_online"
proof (rule alerts_ok_split)
  show "alerts_ok (later @ (k, Alerted) # earlier)"
    using creachable_alert_inv [OF assms(1)] assms(2) by (simp add: alert_inv_def)
qed

theorem alert_once_per_outage_witness:
  "last_of demo_key [(demo_key, Came_online)] = Some Came_online"
  by (rule alert_once_per_outage [OF demo_run3, of "[]"]) (simp add: demo_sys_def)

text \<open>
  In every interleaving, a gateway that the tracker holds as offline has had an alert published.
\<close>

theorem offline_implies_alerted:
  assumes "creachable P s" and "fleet_of (ctr s) k = Some Offline"
  shows "(k, Alerted) \<in> set (hist s)"
  using creachable_alert_inv [OF assms(1)] assms(2) by (simp add: alert_inv_def)

theorem offline_implies_alerted_witness:
  "(demo_key, Alerted) \<in> set [(demo_key, Came_online), (demo_key, Forgotten), (demo_key, Alerted),
     (demo_key, Came_online)]"
  using offline_implies_alerted [OF demo_run8, of demo_key]
  by (simp add: demo_sys_def fleet_of_def)

text \<open>
  C17. The dispatch channel loses, duplicates and reorders nothing: in every interleaving, the
  updates performed so far, followed by the one the worker holds and those in the buffer, are the
  accepted updates in the order of their acceptance, and the buffer never exceeds its capacity.
\<close>

theorem dispatch_is_fifo:
  assumes "creachable P s"
  shows "delivered s @ pending_jobs (ctr s) = accepted s
    \<and> length (dispatchCh (ctr s)) \<le> dispatchCap (ctr s)"
  using creachable_cinv [OF assms] by (simp add: cinv_def tracker_inv_def)

theorem dispatch_is_fifo_witness:
  "[] @ [online_job ''g'' 0, demo_offline_job] = [online_job ''g'' 0, demo_offline_job]
     \<and> length [online_job ''g'' 0, demo_offline_job] \<le> 5"
  using dispatch_is_fifo [OF demo_run4] by (simp add: demo_sys_def pending_jobs_def)




text \<open>
  C28. The tick decides on its snapshot and does not look at the entry again. While it works through the
  gateways before, which takes up to 27 seconds for each if the management API does not answer, a
  gateway that was silent may send telemetry; the tick nevertheless publishes an alert for it, reports
  it offline and marks it offline, however recent its last heartbeat is by then.
\<close>

theorem fresh_heartbeat_is_alerted:
  assumes "pc s = Tick_loop now (e # es)" and "tick_verdict P now e (cw s) = (Fired, w')"
    and "beats (ctr s) (entry_key e) = Some cur" and "\<not> dispatchClosed (ctr s)"
  shows "\<exists>s'. (cstep P)\<^sup>*\<^sup>* s s' \<and> hist s' = (entry_key e, Alerted) # hist s
    \<and> offered s' = (entry_key e, Offline) # offered s
    \<and> beats (ctr s') (entry_key e) = Some (cur\<lparr>knownStatus := Offline\<rparr>)"
proof -
  let ?s1 = "s\<lparr>cw := w', pc := Tick_dispatch now e es, hist := (entry_key e, Alerted) # hist s\<rparr>"
  obtain t1 w1 where d: "dispatchStatusUpdate (offline_update e) (ctr ?s1, cw ?s1) = Ret (t1, w1)"
    using assms(4) dispatch_returns_iff [of "offline_update e" "ctr s" w'] by auto
  let ?s2 = "(note_offer (entry_key e) \<lparr>job_update = offline_update e\<rparr> ?s1)
      \<lparr>ctr := t1, cw := w1, pc := Tick_mark now e es\<rparr>"
  let ?s3 = "?s2\<lparr>ctr := mark_offline (entry_key e) (ctr ?s2), pc := Tick_loop now es\<rparr>"
  have "cstep P s ?s1" by (rule c_tick_publish [OF assms(1,2)])
  moreover have "cstep P ?s1 ?s2" by (rule c_tick_dispatch [OF _ d]) simp
  moreover have "cstep P ?s2 ?s3" by (rule c_tick_mark) simp
  ultimately have "(cstep P)\<^sup>*\<^sup>* s ?s3" by (meson converse_rtranclp_into_rtranclp rtranclp.rtrancl_refl)
  moreover have "beats t1 (entry_key e) = Some cur" using assms(3) dispatch_frame(1) [OF d] by simp
  ultimately show ?thesis
    by (intro exI [of _ ?s3]) (simp add: offline_update_def)
qed

text \<open>A heartbeat at 2 ms comes in while a tick of 1 ms is at work on a snapshot that has it at 0.\<close>

lemma demo_refreshed:
  "creachable demo_P (demo_sys [demo_key \<mapsto> demo_entry\<lparr>lastSeen := 2000000\<rparr>] [online_job ''g'' 0]
     (Tick_loop 1000000 [demo_entry]) [(demo_key, Came_online)] [(demo_key, Online)])"
proof (rule demo_step [OF demo_run2])
  let ?s = "demo_sys [demo_key \<mapsto> demo_entry] [online_job ''g'' 0] (Tick_loop 1000000 [demo_entry])
     [(demo_key, Came_online)] [(demo_key, Online)]"
  show "cstep demo_P ?s
    (?s\<lparr>ctr := (ctr ?s)\<lparr>beats := [demo_key \<mapsto> demo_entry\<lparr>lastSeen := 2000000\<rparr>]\<rparr>, cw := demo_world 0\<rparr>)"
    by (rule c_refresh [of demo_key "''t''" "''g''" _ 2000000])
      (simp_all add: demo_sys_def fleet_of_def demo_key_def telemetry_locked_def demo_entry_def)
qed (simp add: demo_sys_def)

theorem fresh_heartbeat_is_alerted_witness:
  "\<exists>s'. creachable demo_P s' \<and> hist s' = [(demo_key, Alerted), (demo_key, Came_online)]
     \<and> beats (ctr s') demo_key = Some (demo_entry\<lparr>lastSeen := 2000000, knownStatus := Offline\<rparr>)"
proof -
  let ?s = "demo_sys [demo_key \<mapsto> demo_entry\<lparr>lastSeen := 2000000\<rparr>] [online_job ''g'' 0]
     (Tick_loop 1000000 [demo_entry]) [(demo_key, Came_online)] [(demo_key, Online)]"
  have key: "entry_key demo_entry = demo_key" by (simp add: entry_key_def demo_entry_def demo_key_def)
  have "tick_verdict demo_P 1000000 demo_entry (cw ?s) = (Fired, cw ?s)"
    by (simp add: demo_sys_def demo_P_def tick_verdict_def demo_defs lifecycle_defs deadline_def
        time_add_def of_ms_def millisecond_def)
  from fresh_heartbeat_is_alerted [OF _ this, of "[]" "demo_entry\<lparr>lastSeen := 2000000\<rparr>"]
  obtain s' where "(cstep demo_P)\<^sup>*\<^sup>* ?s s'" "hist s' = (demo_key, Alerted) # hist ?s"
    "beats (ctr s') demo_key = Some (demo_entry\<lparr>lastSeen := 2000000, knownStatus := Offline\<rparr>)"
    unfolding key by (auto simp: demo_sys_def)
  with creachable_steps [OF this(1) demo_refreshed] show ?thesis
    by (intro exI [of _ s']) (simp add: demo_sys_def)
qed

section \<open>The sequential tick is a run\<close>

lemma loop_is_run:
  assumes "fold_result (tick_entry P now) es (t, w) = Ret (t', w')"
    and "pc s = Tick_loop now es" and "ctr s = t" and "cw s = w"
  shows "\<exists>s'. (cstep P)\<^sup>*\<^sup>* s s' \<and> ctr s' = t' \<and> cw s' = w' \<and> pc s' = Tick_idle"
  using assms
proof (induction es arbitrary: t w s)
  case Nil
  then show ?case
    by (intro exI [of _ "s\<lparr>pc := Tick_idle\<rparr>"]) (auto intro: c_tick_end)
next
  case (Cons e es)
  then obtain t1 w1 where s1: "tick_entry P now e (t, w) = Ret (t1, w1)"
    and rest: "fold_result (tick_entry P now) es (t1, w1) = Ret (t', w')"
    by (auto simp: go_bind_Ret_iff)
  obtain v w2 where v: "tick_verdict P now e w = (v, w2)" by fastforce
  have "\<exists>s2. (cstep P)\<^sup>*\<^sup>* s s2 \<and> ctr s2 = t1 \<and> cw s2 = w1 \<and> pc s2 = Tick_loop now es"
  proof (cases "v = Fired")
    case True
    with s1 v obtain t2 where d: "dispatchStatusUpdate (offline_update e) (t, w2) = Ret (t2, w1)"
      and m: "t1 = mark_offline (entry_key e) t2"
      by (auto simp: tick_entry_verdict fire_Ret)
    let ?a = "s\<lparr>cw := w2, pc := Tick_dispatch now e es, hist := (entry_key e, Alerted) # hist s\<rparr>"
    let ?b = "(note_offer (entry_key e) \<lparr>job_update = offline_update e\<rparr> ?a)
       \<lparr>ctr := t2, cw := w1, pc := Tick_mark now e es\<rparr>"
    have "cstep P s ?a" using True v Cons.prems by (intro c_tick_publish) auto
    moreover have "cstep P ?a ?b" using d Cons.prems by (intro c_tick_dispatch) auto
    moreover have "cstep P ?b (?b\<lparr>ctr := mark_offline (entry_key e) (ctr ?b), pc := Tick_loop now es\<rparr>)"
      by (rule c_tick_mark) simp
    ultimately show ?thesis
      using m by (intro exI [of _ "?b\<lparr>ctr := mark_offline (entry_key e) (ctr ?b), pc := Tick_loop now es\<rparr>"])
        (auto intro: rtranclp.rtrancl_into_rtrancl)
  next
    case False
    with s1 v have "t1 = t" "w1 = w2" by (cases v; simp add: tick_entry_verdict)+
    with False v Cons.prems show ?thesis
      by (intro exI [of _ "s\<lparr>cw := w2, pc := Tick_loop now es\<rparr>"])
         (auto intro!: r_into_rtranclp c_tick_skip)
  qed
  then obtain s2 where "(cstep P)\<^sup>*\<^sup>* s s2" "ctr s2 = t1" "cw s2 = w1" "pc s2 = Tick_loop now es"
    by blast
  with Cons.IH [OF rest, of s2] show ?case by (meson rtranclp_trans)
qed



end
