(* ===== verification/Process.thy ===== *)
theory Process
  imports Tracker_Concurrent_Props Tracker_Metrics Startup Driving_Adapters
begin

text \<open>
  The process around the components, from \<open>cmd/consumer/main.go\<close>: \<open>main\<close> with its exit code, the HTTP
  endpoints, the handler of NATS reconnections, the construction of the components from the
  configuration, and the life of the process as a step relation: the goroutines on the tracker go on
  while \<open>run\<close> executes its deferred actions one after the other.
\<close>

section \<open>The exit code\<close>

text \<open>\<open>main\<close> exits with 1 for an error of \<open>run\<close>; a panic ends the process with 2.\<close>

definition main_exit :: "(go_error option \<times> 'x) go_result \<Rightarrow> nat" where
  "main_exit r =
     (case r of
        Panic _ \<Rightarrow> 2
      | Ret (Some err, x) \<Rightarrow> 1
      | Ret (None, x) \<Rightarrow> 0)"

definition go_main ::
    "environment \<Rightarrow> (string \<Rightarrow> string + string) \<Rightarrow> ('x \<Rightarrow> 'x go_result) \<Rightarrow> 'x actor \<Rightarrow> 'x \<Rightarrow> nat" where
  "go_main env readFile newMetrics act x = main_exit (run_main env readFile newMetrics act x)"

section \<open>The HTTP endpoints\<close>

record http_response =
  http_status :: nat
  http_body :: string

text \<open>\<open>http.Error\<close> ends the text it is given with a newline.\<close>

definition http_error :: "string \<Rightarrow> nat \<Rightarrow> http_response" where
  "http_error msg code = \<lparr>http_status = code, http_body = msg @ newline\<rparr>"

definition healthz :: "('x \<Rightarrow> string option \<times> 'x) \<Rightarrow> 'x \<Rightarrow> http_response \<times> 'x" where
  "healthz ping x =
     (case ping x of
        (Some err, x1) \<Rightarrow> (http_error (''db: '' @ err) 503, x1)
      | (None, x1) \<Rightarrow> (\<lparr>http_status = 200, http_body = ''ok''\<rparr>, x1))"

text \<open>The two patterns of the mux are exact paths.\<close>

definition serve_http ::
    "('x \<Rightarrow> http_response \<times> 'x) \<Rightarrow> ('x \<Rightarrow> string option \<times> 'x) \<Rightarrow> string \<Rightarrow> 'x \<Rightarrow> http_response \<times> 'x" where
  "serve_http prometheus ping path x =
     (if path = ''/metrics'' then prometheus x
      else if path = ''/healthz'' then healthz ping x
      else (http_error ''404 page not found'' 404, x))"

text \<open>The handler that \<open>connectNATS\<close> installs for reconnections.\<close>

definition on_reconnect :: "'x world \<Rightarrow> 'x world" where
  "on_reconnect w = with_metrics IncNATSReconnects w"

section \<open>The components as \<open>run\<close> builds them\<close>

definition make_rr ::
    "(duration \<Rightarrow> string \<Rightarrow> string \<Rightarrow> 'x \<Rightarrow> (string + string) \<times> 'x)
      \<Rightarrow> (duration \<Rightarrow> 'x \<Rightarrow> string option \<times> 'x) \<Rightarrow> 'x rr_client" where
  "make_rr nc race = NewNATSRRClient nc race natsRRTimeout"

definition make_cache ::
    "json_codec \<Rightarrow> 'x rr_client \<Rightarrow> ('x \<Rightarrow> time \<times> 'x) \<Rightarrow> (duration \<Rightarrow> 'x \<Rightarrow> string option \<times> 'x) \<Rightarrow> config
      \<Rightarrow> 'x alert_config_cache" where
  "make_cache J rr now race cfg = NewAlertConfigCache (FetchAlertConfigs J rr) now race
     (AlertConfigDefaultTimeoutMs cfg) (of_ms (AlertConfigRefreshMs cfg)) (AlertConfigMaxRetries cfg)
     (AlertConfigInitialBackoffMs cfg) (AlertConfigMaxBackoffMs cfg)"

definition make_tracker :: "'x driven_ports \<Rightarrow> config \<Rightarrow> 'x world \<Rightarrow> 'x tstate go_result" where
  "make_tracker P cfg w =
     NewHeartbeatTracker P (GatewayBufferSize cfg) (of_ms (HeartbeatGracePeriodMs cfg)) w"

definition make_timer ::
    "('x, 'o) heartbeat_ticker \<Rightarrow> ('x \<Rightarrow> time \<times> 'x) \<Rightarrow> config \<Rightarrow> ('x, 'o) tick_timer" where
  "make_timer ticker now cfg = NewHeartbeatTickTimer ticker now (of_ms (HeartbeatTickMs cfg))"

definition make_consumer ::
    "'x telemetry_message_handler
      \<Rightarrow> (telemetry_row list \<Rightarrow> 'x \<Rightarrow> go_error option \<times> 'x)
      \<Rightarrow> (nats_msg \<Rightarrow> answer \<Rightarrow> 'x \<Rightarrow> string option \<times> 'x) \<Rightarrow> ('x \<Rightarrow> time \<times> 'x) \<Rightarrow> config
      \<Rightarrow> 'x telemetry_consumer" where
  "make_consumer handler writer answer now cfg = newNATSTelemetryConsumer handler writer answer now
     (NATSConsumerDurableName cfg) telemetryBatchSize telemetryFlushInterval"

section \<open>The life of the process\<close>

text \<open>
  Where the main goroutine is: in the telemetry consumer's \<open>Run\<close>, or between the deferred actions of
  \<open>run\<close>, in the order in which they are executed. \<open>Closing\<close> is inside \<open>tracker.Close\<close>, with the channel
  closed and the worker still at work.
\<close>

datatype run_phase =
    Serving | Unwinding | MetricsDown | Closing | TrackerClosed | PoolClosed | SignalsStopped
  | Exited | Crashed string

record 'x process =
  sys :: "'x csys"
  phase :: run_phase
  ctx_done :: bool
  ticking :: bool

definition alive :: "run_phase \<Rightarrow> bool" where
  "alive ph \<longleftrightarrow> ph \<noteq> Exited \<and> (\<forall>msg. ph \<noteq> Crashed msg)"

text \<open>
  The steps. The goroutines of the tick timer, of the subscriptions and of the worker are not waited
  for: they act as long as the process lives, except that the timer leaves its loop at some time after
  the end of the context, and not within a tick. \<open>subscribe_failed\<close> is the telemetry consumer's \<open>Run\<close>
  returning an error at once.
\<close>

inductive pstep :: "'x driven_ports \<Rightarrow> 'x process \<Rightarrow> 'x process \<Rightarrow> bool" for P where
  p_goroutine: "alive (phase p) \<Longrightarrow> cstep P (sys p) s
     \<Longrightarrow> dispatchClosed (ctr s) = dispatchClosed (ctr (sys p))
     \<Longrightarrow> (pc (sys p) = Tick_idle \<and> pc s \<noteq> Tick_idle \<longrightarrow> ticking p)
     \<Longrightarrow> pstep P p (p\<lparr>sys := s\<rparr>)"
| p_telemetry_panic: "alive (phase p)
     \<Longrightarrow> telemetry_locked now tenantID gatewayID (ctr (sys p), cw (sys p)) = Panic msg
     \<Longrightarrow> pstep P p (p\<lparr>phase := Crashed msg\<rparr>)"
| p_tick_panic: "alive (phase p) \<Longrightarrow> pc (sys p) = Tick_dispatch now e es
     \<Longrightarrow> dispatchStatusUpdate (offline_update e) (ctr (sys p), cw (sys p)) = Panic msg
     \<Longrightarrow> pstep P p (p\<lparr>phase := Crashed msg\<rparr>)"
| p_signal: "alive (phase p) \<Longrightarrow> pstep P p (p\<lparr>ctx_done := True\<rparr>)"
| p_timer_stops: "alive (phase p) \<Longrightarrow> ctx_done p \<Longrightarrow> pc (sys p) = Tick_idle
     \<Longrightarrow> pstep P p (p\<lparr>ticking := False\<rparr>)"
| p_run_returns: "phase p = Serving \<Longrightarrow> ctx_done p \<Longrightarrow> pstep P p (p\<lparr>phase := Unwinding\<rparr>)"
| p_subscribe_failed: "phase p = Serving \<Longrightarrow> pstep P p (p\<lparr>phase := Unwinding\<rparr>)"
| p_metrics: "phase p = Unwinding \<Longrightarrow> pstep P p (p\<lparr>phase := MetricsDown\<rparr>)"
| p_close: "phase p = MetricsDown
     \<Longrightarrow> pstep P p (p\<lparr>phase := Closing, sys := (sys p)\<lparr>ctr := close_channel (ctr (sys p))\<rparr>\<rparr>)"
| p_closed: "phase p = Closing \<Longrightarrow> worker (ctr (sys p)) = Finished
     \<Longrightarrow> pstep P p (p\<lparr>phase := TrackerClosed\<rparr>)"
| p_pool: "phase p = TrackerClosed \<Longrightarrow> pstep P p (p\<lparr>phase := PoolClosed\<rparr>)"
| p_signals: "phase p = PoolClosed \<Longrightarrow> pstep P p (p\<lparr>phase := SignalsStopped, ctx_done := True\<rparr>)"
| p_drain: "phase p = SignalsStopped \<Longrightarrow> pstep P p (p\<lparr>phase := Exited\<rparr>)"

text \<open>
  The process starts with a new tracker; \<open>run\<close> has started all goroutines before it serves. With an
  interval that is not positive \<open>time.NewTicker\<close> panics in one of them, so these configurations are
  left out here.
\<close>

definition tickers_start :: "config \<Rightarrow> bool" where
  "tickers_start cfg \<longleftrightarrow> 0 < sint (of_ms (HeartbeatTickMs cfg)) \<and> 0 < sint (of_ms (AlertConfigRefreshMs cfg))"

inductive preachable :: "'x driven_ports \<Rightarrow> 'x process \<Rightarrow> bool" for P where
  preach_start: "make_tracker P cfg w = Ret (t, w') \<Longrightarrow> tickers_start cfg
     \<Longrightarrow> preachable P \<lparr>sys = \<lparr>ctr = t, cw = w', pc = Tick_idle, hist = [], offered = [], accepted = [],
           delivered = []\<rparr>, phase = Serving, ctx_done = False, ticking = True\<rparr>"
| preach_step: "preachable P p \<Longrightarrow> pstep P p p' \<Longrightarrow> preachable P p'"

end
