(* ===== verification/Timing.thy ===== *)
theory Timing
  imports Process Tracker_Service
begin

text \<open>
  How long the calls to the management API can take, and what follows for the tick and for the
  shutdown. Time is an observer of the outside: a request takes at most the deadline that it is given,
  a wait at most its delay. An API that does not answer makes both exact.
\<close>

section \<open>One request\<close>

definition in_time ::
    "(duration \<Rightarrow> string \<Rightarrow> string \<Rightarrow> 'x \<Rightarrow> (string + string) \<times> 'x)
      \<Rightarrow> (duration \<Rightarrow> 'x \<Rightarrow> string option \<times> 'x) \<Rightarrow> ('x \<Rightarrow> int) \<Rightarrow> bool" where
  "in_time nc race elapsed \<longleftrightarrow>
     (\<forall>d s b x. elapsed (snd (nc d s b x)) \<le> elapsed x + sint d)
     \<and> (\<forall>d x. elapsed (snd (race d x)) \<le> elapsed x + sint d)"

text \<open>Nobody answers, every request runs into its deadline, and no wait is cut short.\<close>

definition unanswering ::
    "(duration \<Rightarrow> string \<Rightarrow> string \<Rightarrow> 'x \<Rightarrow> (string + string) \<times> 'x)
      \<Rightarrow> (duration \<Rightarrow> 'x \<Rightarrow> string option \<times> 'x) \<Rightarrow> ('x \<Rightarrow> int) \<Rightarrow> bool" where
  "unanswering nc race elapsed \<longleftrightarrow>
     (\<forall>d s b x. isl (fst (nc d s b x)) \<and> elapsed (snd (nc d s b x)) = elapsed x + sint d)
     \<and> (\<forall>d x. fst (race d x) = None \<and> elapsed (snd (race d x)) = elapsed x + sint d)"

text \<open>The time that is left from attempt \<open>a\<close> on, in nanoseconds: its deadlines and its waits.\<close>

definition budget :: "nat \<Rightarrow> int" where
  "budget a = (4 - int a) * 5000000000 + (8 - 2 ^ a) * 1000000000"

lemma budget_step:
  assumes "a < 3"
  shows "budget a = 5000000000 + 2 ^ a * 1000000000 + budget (Suc a)"
  by (simp add: budget_def algebra_simps)

lemma budget_nonneg: "a \<le> 3 \<Longrightarrow> 0 \<le> budget a"
  by (cases a rule: nat.exhaust; auto simp: budget_def le_Suc_eq numeral_eq_Suc)

lemma delay_new:
  assumes "a < 3"
  shows "\<exists>d. backoff_delay [second, 2 * second, 4 * second] a = Ret d \<and> sint d = 2 ^ a * 1000000000"
proof -
  have "a = 0 \<or> a = 1 \<or> a = 2" using assms by linarith
  then show ?thesis by (auto simp: backoff_delay_def second_def millisecond_def)
qed

lemma rr_timeout_value: "sint natsRRTimeout = 5000000000"
  by (simp add: natsRRTimeout_def second_def millisecond_def)

lemma make_rr_fields [simp]:
  "rr_nc (make_rr nc race) = nc" "rr_timeout (make_rr nc race) = natsRRTimeout"
  "rr_maxRetries (make_rr nc race) = 3" "rr_backoff (make_rr nc race) = [second, 2 * second, 4 * second]"
  "rr_sleep (make_rr nc race) = wait_or_done race"
  by (simp_all add: make_rr_def NewNATSRRClient_def)

lemma retry_loop_time:
  assumes "in_time nc race elapsed" and "a \<le> 3"
  shows "\<exists>r x'. retry_loop (make_rr nc race) subject body a errs x = Ret (r, x')
    \<and> elapsed x' \<le> elapsed x + budget a
    \<and> (unanswering nc race elapsed \<longrightarrow> elapsed x' = elapsed x + budget a)"
  using assms(2)
proof (induction "3 - a" arbitrary: a errs x)
  case 0
  then have a: "a = 3" by simp
  obtain q x1 where q: "nc natsRRTimeout subject body x = (q, x1)" by fastforce
  then have "elapsed x1 \<le> elapsed x + 5000000000"
      "unanswering nc race elapsed \<longrightarrow> elapsed x1 = elapsed x + 5000000000"
    using assms(1) rr_timeout_value unfolding in_time_def unanswering_def by (metis snd_conv)+
  then show ?case
    by (cases q) (simp_all add: a retry_loop.simps [of _ _ _ 3] q budget_def)
next
  case (Suc k)
  then have a: "a < 3" by simp
  obtain d where d: "backoff_delay [second, 2 * second, 4 * second] a = Ret d" "sint d = 2 ^ a * 1000000000"
    using delay_new [OF a] by blast
  obtain q x1 where q: "nc natsRRTimeout subject body x = (q, x1)" by fastforce
  obtain e x2 where w: "race d x1 = (e, x2)" by fastforce
  have t1: "elapsed x1 \<le> elapsed x + 5000000000"
      "unanswering nc race elapsed \<longrightarrow> elapsed x1 = elapsed x + 5000000000 \<and> isl q"
    using assms(1) q rr_timeout_value unfolding in_time_def unanswering_def by (metis fst_conv snd_conv)+
  have t2: "elapsed x2 \<le> elapsed x1 + 2 ^ a * 1000000000"
      "unanswering nc race elapsed \<longrightarrow> elapsed x2 = elapsed x1 + 2 ^ a * 1000000000 \<and> e = None"
    using assms(1) w d(2) unfolding in_time_def unanswering_def by (metis fst_conv snd_conv)+
  have rest: "0 \<le> budget (Suc a)" using a by (intro budget_nonneg) simp
  have pos: "(0 :: int) \<le> 2 ^ a * 1000000000" by simp
  note left = budget_step [OF a] rest pos
  note loop = retry_loop.simps [of "make_rr nc race" subject body a errs x]
  show ?case
  proof (cases q)
    case (Inr msg)
    then have "retry_loop (make_rr nc race) subject body a errs x = Ret (Inr msg, x1)"
      using a q by (simp add: loop)
    moreover have "elapsed x1 \<le> elapsed x + budget a" using t1(1) left by linarith
    ultimately show ?thesis using t1(2) Inr by (intro exI [of _ "Inr msg"] exI [of _ x1]) auto
  next
    case (Inl err)
    show ?thesis
    proof (cases e)
      case (Some ce)
      then have "retry_loop (make_rr nc race) subject body a errs x = Ret (Inl (External ce), x2)"
        using a q d(1) w Inl by (simp add: loop wait_or_done_def)
      moreover have "elapsed x2 \<le> elapsed x + budget a" using t1(1) t2(1) left by linarith
      ultimately show ?thesis using t2(2) Some by (intro exI [of _ "Inl (External ce)"] exI [of _ x2]) auto
    next
      case None
      have "k = 3 - Suc a" "Suc a \<le> 3" using Suc.hyps(2) a by simp_all
      from Suc.hyps(1) [OF this, of "errs @ [err]" x2] obtain r x' where
        "retry_loop (make_rr nc race) subject body (Suc a) (errs @ [err]) x2 = Ret (r, x')"
        "elapsed x' \<le> elapsed x2 + budget (Suc a)"
        "unanswering nc race elapsed \<longrightarrow> elapsed x' = elapsed x2 + budget (Suc a)" by blast
      moreover from this(1) have "retry_loop (make_rr nc race) subject body a errs x = Ret (r, x')"
        using a q d(1) w Inl None by (simp add: loop wait_or_done_def)
      ultimately show ?thesis using t1 t2 left by auto
    qed
  qed
qed


lemma request_time:
  assumes "in_time nc race elapsed"
  shows "\<exists>r x'. requestWithRetry (make_rr nc race) subject body x = Ret (r, x')
    \<and> elapsed x' \<le> elapsed x + 27000000000
    \<and> (unanswering nc race elapsed \<longrightarrow> elapsed x' = elapsed x + 27000000000)"
  using retry_loop_time [OF assms, of 0 subject body "[]" x] by (simp add: requestWithRetry_def budget_def)

section \<open>The calls of the service\<close>

text \<open>A call of the client: at most one request.\<close>

lemma update_time:
  assumes "in_time nc race elapsed" and "\<And>u. \<exists>body. enc_status_update J u = Inr body"
  shows "elapsed (snd (result_of (UpdateGatewayStatus J (make_rr nc race) u) x)) \<le> elapsed x + 27000000000
    \<and> (unanswering nc race elapsed \<longrightarrow>
        elapsed (snd (result_of (UpdateGatewayStatus J (make_rr nc race) u) x)) = elapsed x + 27000000000)"
proof -
  obtain body where body: "enc_status_update J u = Inr body" using assms(2) by blast
  obtain r x' where "requestWithRetry (make_rr nc race) subjectGatewayUpdateStatus body x = Ret (r, x')"
    "elapsed x' \<le> elapsed x + 27000000000"
    "unanswering nc race elapsed \<longrightarrow> elapsed x' = elapsed x + 27000000000"
    using request_time [OF assms(1)] by meson
  then show ?thesis by (simp add: result_of_def UpdateGatewayStatus_def body)
qed

lemma lifecycle_time:
  assumes "in_time nc race elapsed"
  shows "elapsed (snd (result_of (RR_GetGatewayLifecycle J (make_rr nc race) t g) x)) \<le> elapsed x + 27000000000"
proof (cases "enc_lifecycle_request J \<lparr>lreq_GatewayID = g, lreq_TenantID = t\<rparr>")
  case (Inr body)
  obtain r x' where "requestWithRetry (make_rr nc race) subjectGatewayGetStatus body x = Ret (r, x')"
    "elapsed x' \<le> elapsed x + 27000000000"
    using request_time [OF assms] by meson
  then show ?thesis by (simp add: result_of_def RR_GetGatewayLifecycle_def Inr)
qed (simp add: result_of_def RR_GetGatewayLifecycle_def)

text \<open>The ports of the service on such a client.\<close>

abbreviation wired_ports where
  "wired_ports J js nc race now snap dflt \<equiv> service_ports J js (make_rr nc race) now snap dflt"

lemma UpdateStatus_time:
  assumes "in_time nc race elapsed" and "\<And>u. \<exists>body. enc_status_update J u = Inr body"
  shows "elapsed (ext (snd (UpdateStatus (wired_ports J js nc race now snap dflt) u w))) \<le> elapsed (ext w) + 27000000000
    \<and> (unanswering nc race elapsed \<longrightarrow>
        elapsed (ext (snd (UpdateStatus (wired_ports J js nc race now snap dflt) u w))) = elapsed (ext w) + 27000000000)"
  using update_time [where u = u and x = "ext w", OF assms]
  by (auto simp: service_ports_def Updater_UpdateStatus_def outside_def Let_def split: prod.splits option.splits)

lemma deliver_all_time:
  assumes "in_time nc race elapsed" and "\<And>u. \<exists>body. enc_status_update J u = Inr body"
  shows "elapsed (ext (deliver_all (wired_ports J js nc race now snap dflt) jobs w))
      \<le> elapsed (ext w) + 27000000000 * int (length jobs)
    \<and> (unanswering nc race elapsed \<longrightarrow>
        elapsed (ext (deliver_all (wired_ports J js nc race now snap dflt) jobs w))
          = elapsed (ext w) + 27000000000 * int (length jobs))"
proof (induction jobs arbitrary: w)
  case (Cons j jobs)
  let ?w1 = "snd (UpdateStatus (wired_ports J js nc race now snap dflt) (job_update j)
      (with_metrics (SetDispatchQueueLength (int (length jobs))) w))"
  show ?case
    using Cons.IH [of ?w1]
      UpdateStatus_time [where u = "job_update j" and js = js and now = now and snap = snap and dflt = dflt
        and w = "with_metrics (SetDispatchQueueLength (int (length jobs))) w", OF assms]
    by (auto simp: algebra_simps)
qed simp

section \<open>How long a shutdown takes\<close>

lemma Close_delivers:
  assumes "tracker_inv t" and "\<not> dispatchClosed t"
  shows "snd (Close P (t, w)) = deliver_all P (pending_jobs t) w"
proof -
  have "pending_jobs (close_channel t) = pending_jobs t" by (rule close_channel_pending)
  moreover have "worker t \<noteq> Finished" using tracker_invD(5) [OF assms(1)] assms(2) by blast
  ultimately have "snd (dispatchWorker P (close_channel t, w)) = deliver_all P (pending_jobs t) w"
    by (subst dispatchWorker_drains) (auto simp: close_channel_def split: if_splits)
  then show ?thesis using assms(2) by (simp add: Close_def)
qed

text \<open>
  C27. \<open>Close\<close> waits for the worker, whose calls are not bound to any context: while the management API
  does not answer, each of the updates that are pending takes four deadlines of 5 seconds and waits of
  1, 2 and 4 seconds, so that a shutdown takes exactly 27 seconds per pending update. It never takes
  longer, and as at most one update more than the capacity of the channel is pending, the configured
  buffer bounds it.
\<close>

theorem close_takes_27s_per_update:
  assumes "in_time nc race elapsed" and "\<And>u. \<exists>body. enc_status_update J u = Inr body"
    and "tracker_inv t" and "\<not> dispatchClosed t"
  shows "let spent = elapsed (ext (snd (Close (wired_ports J js nc race now snap dflt) (t, w)))) - elapsed (ext w)
    in spent \<le> 27000000000 * int (length (pending_jobs t))
      \<and> spent \<le> 27000000000 * (int (dispatchCap t) + 1)
      \<and> (unanswering nc race elapsed \<longrightarrow> spent = 27000000000 * int (length (pending_jobs t)))"
proof -
  let ?spent = "elapsed (ext (deliver_all (wired_ports J js nc race now snap dflt) (pending_jobs t) w)) - elapsed (ext w)"
  have "length (pending_jobs t) \<le> Suc (dispatchCap t)"
    using assms(3) by (auto simp: pending_jobs_def tracker_inv_def split: worker_state.splits)
  then have "int (length (pending_jobs t)) \<le> int (dispatchCap t) + 1" by linarith
  moreover have "?spent \<le> 27000000000 * int (length (pending_jobs t))
      \<and> (unanswering nc race elapsed \<longrightarrow> ?spent = 27000000000 * int (length (pending_jobs t)))"
    using deliver_all_time [where jobs = "pending_jobs t" and w = w, OF assms(1,2), of js now snap dflt]
    by auto
  ultimately show ?thesis by (simp add: Close_delivers [OF assms(3,4)] Let_def)
qed


section \<open>How long a tick takes\<close>

text \<open>JetStream takes at most \<open>p\<close> for a publication, and reading the clock takes no time.\<close>

definition prompt_outside ::
    "'x js_publish \<Rightarrow> ('x \<Rightarrow> time \<times> 'x) \<Rightarrow> int \<Rightarrow> ('x \<Rightarrow> int) \<Rightarrow> bool" where
  "prompt_outside js now p elapsed \<longleftrightarrow> 0 \<le> p
     \<and> (\<forall>s d x. elapsed (snd (js s d x)) \<le> elapsed x + p) \<and> (\<forall>x. elapsed (snd (now x)) = elapsed x)"

lemma publish_time:
  assumes "prompt_outside js now p elapsed"
  shows "elapsed (ext (snd (Publish (wired_ports J js nc race now snap dflt) t a w))) \<le> elapsed (ext w) + p"
  using assms
  by (auto simp: service_ports_def Alert_Publish_def outside_def Let_def prompt_outside_def
      split: sum.splits prod.splits option.splits) (metis snd_conv)+

lemma query_time:
  assumes "in_time nc race elapsed"
  shows "elapsed (ext (snd (GetGatewayLifecycle (wired_ports J js nc race now snap dflt) t g w)))
    \<le> elapsed (ext w) + 27000000000"
  using lifecycle_time [where J = J and t = t and g = g and x = "ext w", OF assms]
  by (auto simp: service_ports_def Provider_GetGatewayLifecycle_def outside_def Let_def
      split: prod.splits option.splits)

lemma verdict_time:
  assumes "in_time nc race elapsed" and "prompt_outside js now p elapsed"
  shows "elapsed (ext (snd (tick_verdict (wired_ports J js nc race now snap dflt) at e w)))
    \<le> elapsed (ext w) + (27000000000 + p)"
proof -
  let ?P = "wired_ports J js nc race now snap dflt"
  let ?a = "offline_alert at e (TimeoutFor ?P (he_tenantID e) (he_gatewayID e) w)"
  obtain q w1 where q: "GetGatewayLifecycle ?P (he_tenantID e) (he_gatewayID e) w = (q, w1)" by fastforce
  obtain pe w2 where p: "Publish ?P (he_tenantID e) ?a w1 = (pe, w2)" by fastforce
  have "elapsed (ext w1) \<le> elapsed (ext w) + 27000000000"
    using query_time [where w = w, OF assms(1)] q by (metis snd_conv)
  moreover have "elapsed (ext w2) \<le> elapsed (ext w1) + p"
    using publish_time [where w = w1, OF assms(2)] p by (metis snd_conv)
  moreover have "snd (tick_verdict ?P at e w) \<in> {w, w1, w2}"
    by (cases q) (auto simp: tick_verdict_def q p Let_def)
  moreover have "0 \<le> p" using assms(2) by (simp add: prompt_outside_def)
  ultimately show ?thesis by auto
qed

lemma tick_entry_time:
  assumes "in_time nc race elapsed" and "prompt_outside js now p elapsed"
    and "tick_entry (wired_ports J js nc race now snap dflt) at e (t, w) = Ret (t', w')"
  shows "elapsed (ext w') \<le> elapsed (ext w) + (27000000000 + p)"
proof -
  obtain v w1 where v: "tick_verdict (wired_ports J js nc race now snap dflt) at e w = (v, w1)" by fastforce
  have "ext w' = ext w1"
    using assms(3) v by (cases v) (auto simp: tick_entry_verdict fire_Ret dest: dispatch_ext)
  then show ?thesis
    using verdict_time [where w = w and e = e and at = at, OF assms(1,2)] v by (metis snd_conv)
qed

lemma tick_loop_time:
  assumes "in_time nc race elapsed" and "prompt_outside js now p elapsed"
    and "fold_result (tick_entry (wired_ports J js nc race now snap dflt) at) es (t, w) = Ret (t', w')"
  shows "elapsed (ext w') \<le> elapsed (ext w) + (27000000000 + p) * int (length es)"
  using assms(3)
proof (induction es arbitrary: t w)
  case (Cons e es)
  then obtain t1 w1 where s1: "tick_entry (wired_ports J js nc race now snap dflt) at e (t, w) = Ret (t1, w1)"
    "fold_result (tick_entry (wired_ports J js nc race now snap dflt) at) es (t1, w1) = Ret (t', w')"
    by (auto simp: go_bind_Ret_iff)
  show ?case using Cons.IH [OF s1(2)] tick_entry_time [OF assms(1,2) s1(1)] by (simp add: algebra_simps)
qed simp

text \<open>
  C31. A tick asks for one gateway after the other, so it is over after at most 27 seconds and the time of
  one publication for each tracked gateway, whatever the management API does. Nothing bounds it by the
  interval of the timer.
\<close>

theorem tick_time_bound:
  assumes "in_time nc race elapsed" and "prompt_outside js now p elapsed"
    and "tracker_inv t" and "iteration_order order t"
    and "Tick (wired_ports J js nc race now snap dflt) order (t, w) = Ret (t', w')"
  shows "elapsed (ext w') \<le> elapsed (ext w) + (27000000000 + p) * int (card (dom (beats t)))"
proof -
  let ?P = "wired_ports J js nc race now snap dflt"
  have clock: "elapsed (ext (snd (clock_Now ?P v))) = elapsed (ext v)" for v
    using assms(2) by (simp add: service_ports_def SystemClock_Now_def prompt_outside_def)
  have len: "length (snapshot order t) = card (dom (beats t))"
    using snapshot_keys [OF assms(3,4)] assms(4)
    by (metis distinct_card iteration_order_def length_map)
  show ?thesis
  proof (cases "in_grace ?P (t, w)")
    case True
    then have "w' = snd (clock_Now ?P w)" using assms(5) by (simp add: Tick_unfold)
    then have "elapsed (ext w') = elapsed (ext w)" using clock by simp
    moreover have "0 \<le> (27000000000 + p) * int (card (dom (beats t)))"
      using assms(2) by (simp add: prompt_outside_def)
    ultimately show ?thesis by linarith
  next
    case False
    obtain at w1 where n: "clock_Now ?P (snd (clock_Now ?P w)) = (at, w1)" by fastforce
    then have "fold_result (tick_entry ?P at) (snapshot order t) (t, w1) = Ret (t', w')"
      using assms(5) False by (simp add: Tick_unfold)
    from tick_loop_time [OF assms(1,2) this] clock [of "snd (clock_Now ?P w)"] clock [of w] n len
    show ?thesis by (metis snd_conv)
  qed
qed

section \<open>Witnesses\<close>

text \<open>A network on which nobody answers; the outside is the time that has passed.\<close>

definition dead_nc :: "duration \<Rightarrow> string \<Rightarrow> string \<Rightarrow> int \<Rightarrow> (string + string) \<times> int" where
  "dead_nc d s b x = (Inl ''nats: timeout'', x + sint d)"

definition full_wait :: "duration \<Rightarrow> int \<Rightarrow> string option \<times> int" where
  "full_wait d x = (None, x + sint d)"

lemma dead_network: "in_time dead_nc full_wait (\<lambda>x. x)" "unanswering dead_nc full_wait (\<lambda>x. x)"
  by (simp_all add: in_time_def unanswering_def dead_nc_def full_wait_def)

definition busy_tracker :: tracker where
  "busy_tracker = \<lparr>startTime = 0, gracePeriod = 0, beats = [demo_key \<mapsto> demo_entry], dispatchCap = 1000,
     dispatchCh = replicate 1000 (online_job ''g'' 0), dispatchClosed = False, worker = Got (online_job ''g'' 0)\<rparr>"

lemma busy_tracker_ok:
  "tracker_inv busy_tracker" "\<not> dispatchClosed busy_tracker" "length (pending_jobs busy_tracker) = 1001"
  "iteration_order [demo_key] busy_tracker"
  by (simp_all add: busy_tracker_def tracker_inv_def entry_key_def demo_entry_def demo_key_def pending_jobs_def
      iteration_order_def)

text \<open>With the default buffer, filled up during an outage of the API, the shutdown takes over seven hours.\<close>

abbreviation dead_ports :: "int driven_ports" where
  "dead_ports \<equiv> wired_ports demo_codec (\<lambda>s d. Pair None) dead_nc full_wait (Pair (10 ^ 15)) (\<lambda>x. empty_snapshot) 60000"

theorem close_takes_27s_per_update_witness:
  "ext (snd (Close dead_ports (busy_tracker, demo_world 0))) = 27027 * 1000000000
    \<and> 7 * 3600 < (27027 :: nat)"
proof -
  have "\<exists>body. enc_status_update demo_codec u = Inr body" for u by (simp add: demo_codec_def)
  from close_takes_27s_per_update [OF dead_network(1) this busy_tracker_ok(1,2),
      of "\<lambda>s d. Pair None" "Pair (10 ^ 15)" "\<lambda>x. empty_snapshot" 60000 "demo_world 0"]
  show ?thesis by (simp add: Let_def dead_network(2) busy_tracker_ok(3) demo_world_def)
qed

theorem tick_time_bound_witness:
  "\<exists>t' w'. Tick dead_ports [demo_key] (busy_tracker, demo_world 0) = Ret (t', w')
    \<and> ext w' \<le> 27000000000"
proof -
  obtain t' w' where run: "Tick dead_ports [demo_key] (busy_tracker, demo_world 0) = Ret (t', w')"
    using Tick_returns [OF busy_tracker_ok(2)] by blast
  have "prompt_outside (\<lambda>s d. Pair None) (Pair (10 ^ 15)) 0 (\<lambda>x :: int. x)"
    by (simp add: prompt_outside_def)
  from tick_time_bound [OF dead_network(1) this busy_tracker_ok(1,4) run]
  have "ext w' \<le> 27000000000" by (simp add: busy_tracker_def demo_world_def)
  with run show ?thesis by blast
qed

end
