(* ===== verification/Tick_Order.thy ===== *)
theory Tick_Order
  imports Tracker_Props "HOL-Library.Multiset"
begin

text \<open>
  Go iterates over a map in an order that changes from run to run. This theory shows that the order
  does not matter to the result of a tick: with ports that answer each question in one way, every
  order takes the same gateways offline and publishes the same alerts.
\<close>

section \<open>Ports that answer in one way\<close>

definition steady_ports ::
    "'x driven_ports \<Rightarrow> (string \<Rightarrow> string \<Rightarrow> i64) \<Rightarrow> (string \<Rightarrow> string \<Rightarrow> lifecycle_state \<times> go_error option)
      \<Rightarrow> (string \<Rightarrow> alert_payload \<Rightarrow> go_error option) \<Rightarrow> bool" where
  "steady_ports P timeout lifecycle published \<longleftrightarrow>
     (\<forall>t g w. TimeoutFor P t g w = timeout t g)
     \<and> (\<forall>t g w. fst (GetGatewayLifecycle P t g w) = lifecycle t g)
     \<and> (\<forall>t a w. fst (Publish P t a w) = published t a)"

text \<open>The entries that a tick at \<open>now\<close> finds overdue, not paused and alerted.\<close>

definition expires ::
    "(string \<Rightarrow> string \<Rightarrow> i64) \<Rightarrow> (string \<Rightarrow> string \<Rightarrow> lifecycle_state \<times> go_error option)
      \<Rightarrow> (string \<Rightarrow> alert_payload \<Rightarrow> go_error option) \<Rightarrow> time \<Rightarrow> heartbeat_entry \<Rightarrow> bool" where
  "expires timeout lifecycle published now e \<longleftrightarrow>
     (let ms = timeout (he_tenantID e) (he_gatewayID e)
      in knownStatus e = Online \<and> deadline e ms \<le> now
         \<and> lifecycle (he_tenantID e) (he_gatewayID e) \<noteq> (LifecyclePaused, None)
         \<and> published (he_tenantID e) (offline_alert now e ms) = None)"

lemma verdict_steady:
  assumes "steady_ports P timeout lifecycle published"
  shows "fst (tick_verdict P now e w) = Fired \<longleftrightarrow> expires timeout lifecycle published now e"
proof -
  obtain state err w1 where q: "GetGatewayLifecycle P (he_tenantID e) (he_gatewayID e) w = ((state, err), w1)"
    by (metis prod.exhaust)
  then have "lifecycle (he_tenantID e) (he_gatewayID e) = (state, err)"
    using assms unfolding steady_ports_def by (metis fst_conv)
  then show ?thesis
    using assms by (auto simp: tick_verdict_Fired q expires_def steady_ports_def Let_def)
qed

lemma fired_steady:
  assumes "steady_ports P timeout lifecycle published"
    and "fold_result (tick_entry P now) es s = Ret s'"
  shows "fired_entries (tick_verdicts P now es s) = filter (expires timeout lifecycle published now) es"
  using assms(2)
proof (induction es arbitrary: s)
  case (Cons e es)
  then obtain s1 where "tick_entry P now e s = Ret s1" "fold_result (tick_entry P now) es s1 = Ret s'"
    by (auto simp: go_bind_Ret_iff)
  with Cons.IH show ?case by (simp add: verdict_steady [OF assms(1)])
qed simp

section \<open>The order does not matter\<close>

lemma snapshot_mset:
  assumes "tracker_inv t" and "iteration_order o1 t" and "iteration_order o2 t"
  shows "mset (snapshot o1 t) = mset (snapshot o2 t)"
proof -
  have "distinct (snapshot ord t)" if "iteration_order ord t" for ord
    using snapshot_keys [OF assms(1) that] that by (metis distinct_map iteration_order_def)
  then show ?thesis using assms by (metis set_snapshot set_eq_iff_mset_eq_distinct)
qed

lemma Tick_fired:
  assumes "steady_ports P timeout lifecycle published" and "Tick P ord (t, w) = Ret (t', w')"
  shows "fired_entries (Tick_verdicts P ord (t, w)) =
    (if in_grace P (t, w) then []
     else filter (expires timeout lifecycle published (tick_now P w)) (snapshot ord t))"
  using assms fired_steady [OF assms(1)]
  by (auto simp: Tick_unfold Tick_verdicts_def tick_now_def split: prod.splits)

text \<open>
  C30. The order in which Go happens to iterate over the heartbeat map does not matter: two ticks on the
  same state that both return leave the same entries with the same statuses and alert the same
  gateways, each once; and these are the ones that the timeouts, the lifecycle states and the
  publications single out.
\<close>

theorem tick_order_irrelevant:
  assumes "steady_ports P timeout lifecycle published" and "tracker_inv t"
    and "iteration_order o1 t" and "iteration_order o2 t"
    and "Tick P o1 (t, w) = Ret (t1, w1)" and "Tick P o2 (t, w) = Ret (t2, w2)"
  shows "beats t1 = beats t2
    \<and> mset (fired_entries (Tick_verdicts P o1 (t, w))) = mset (fired_entries (Tick_verdicts P o2 (t, w)))
    \<and> set (fired_entries (Tick_verdicts P o1 (t, w))) =
        (if in_grace P (t, w) then {}
         else {e \<in> ran (beats t). expires timeout lifecycle published (tick_now P w) e})"
proof -
  have same: "mset (fired_entries (Tick_verdicts P o1 (t, w))) = mset (fired_entries (Tick_verdicts P o2 (t, w)))"
    using snapshot_mset [OF assms(2-4)]
    by (simp add: Tick_fired [OF assms(1,5)] Tick_fired [OF assms(1,6)])
  then have "set (fired_entries (Tick_verdicts P o1 (t, w))) = set (fired_entries (Tick_verdicts P o2 (t, w)))"
    by (rule mset_eq_setD)
  then have "fired_keys (Tick_verdicts P o1 (t, w)) = fired_keys (Tick_verdicts P o2 (t, w))"
    by (simp add: fired_keys_def)
  moreover have "set (fired_entries (Tick_verdicts P o1 (t, w))) =
        (if in_grace P (t, w) then {}
         else {e \<in> ran (beats t). expires timeout lifecycle published (tick_now P w) e})"
    using set_snapshot [OF assms(3)] by (auto simp: Tick_fired [OF assms(1,5)])
  ultimately show ?thesis using same Tick_Ret [OF assms(5)] Tick_Ret [OF assms(6)] by simp
qed

section \<open>Witness\<close>

definition demo_second :: heartbeat_entry where
  "demo_second = demo_entry\<lparr>he_gatewayID := ''h''\<rparr>"

definition demo_pair :: tracker where
  "demo_pair = demo_tracker\<lparr>beats := [demo_key \<mapsto> demo_entry, GatewayKey ''t'' ''h'' \<mapsto> demo_second]\<rparr>"

lemma demo_pair_ok:
  "tracker_inv demo_pair" "iteration_order [demo_key, GatewayKey ''t'' ''h''] demo_pair"
  "iteration_order [GatewayKey ''t'' ''h'', demo_key] demo_pair"
  by (auto simp: demo_pair_def demo_second_def demo_defs tracker_inv_def iteration_order_def entry_key_def)

lemma demo_steady:
  "steady_ports (demo_ports LifecycleOnline None 1) (\<lambda>t g. 1) (\<lambda>t g. (LifecycleOnline, None)) (\<lambda>t a. None)"
  by (simp add: steady_ports_def demo_ports_def)

theorem tick_order_irrelevant_witness:
  "\<exists>t1 w1 t2 w2. Tick (demo_ports LifecycleOnline None 1) [demo_key, GatewayKey ''t'' ''h''] (demo_pair, demo_world 1000000)
      = Ret (t1, w1)
    \<and> Tick (demo_ports LifecycleOnline None 1) [GatewayKey ''t'' ''h'', demo_key] (demo_pair, demo_world 1000000)
      = Ret (t2, w2)
    \<and> beats t1 = beats t2"
proof -
  have opened: "\<not> dispatchClosed demo_pair" by (simp add: demo_pair_def demo_tracker_def)
  obtain t1 w1 t2 w2 where
    "Tick (demo_ports LifecycleOnline None 1) [demo_key, GatewayKey ''t'' ''h''] (demo_pair, demo_world 1000000) = Ret (t1, w1)"
    "Tick (demo_ports LifecycleOnline None 1) [GatewayKey ''t'' ''h'', demo_key] (demo_pair, demo_world 1000000) = Ret (t2, w2)"
    using Tick_returns [OF opened] by meson
  with tick_order_irrelevant [OF demo_steady demo_pair_ok this] show ?thesis by blast
qed

end
