(* ===== verification/Service_Props.thy ===== *)
theory Service_Props
  imports Service Telemetry_Props Driven_Adapters_Props
begin

text \<open>
  The composed service: each of its runs is a run of the tracker's system and a run of the telemetry
  consumer, so that the properties of both hold in it; and the properties that need both, about the
  gateways that are watched, the rows that are stored and the alerts that are published.
\<close>

section \<open>What the consumer leaves alone\<close>

lemma service_consumer_fields [simp]:
  "tc_handler (service_consumer P writer answer now d b e) = tracker_handler P"
  "tc_writer (service_consumer P writer answer now d b e) rows = on_outside (writer rows)"
  "tc_answer (service_consumer P writer answer now d b e) = service_answer answer"
  "tc_now (service_consumer P writer answer now d b e) = on_outside now"
  "durableName (service_consumer P writer answer now d b e) = d"
  "batchSize (service_consumer P writer answer now d b e) = b"
  "flushEvery (service_consumer P writer answer now d b e) = e"
  by (simp_all add: service_consumer_def newNATSTelemetryConsumer_def)

text \<open>Writing, answering and reading the clock do not touch the tracker.\<close>

definition spares_tracker :: "(tracker \<times> 'x) telemetry_consumer \<Rightarrow> bool" where
  "spares_tracker c \<longleftrightarrow>
     (\<forall>m a x. fst (snd (tc_answer c m a x)) = fst x)
     \<and> (\<forall>rows x. fst (snd (tc_writer c rows x)) = fst x) \<and> (\<forall>x. fst (snd (tc_now c x)) = fst x)"

lemma service_consumer_spares: "spares_tracker (service_consumer P writer answer now d b e)"
  by (simp add: spares_tracker_def service_answer_def)

lemma respond_spares: "spares_tracker c \<Longrightarrow> fst (ext (respond c m a w)) = fst (ext w)"
  by (simp add: respond_def spares_tracker_def del: split_paired_All)

lemma settle_spares: "spares_tracker c \<Longrightarrow> fst (ext (settle c r pm w)) = fst (ext w)"
  by (simp add: settle_def respond_spares)

lemma settle_all_spares: "spares_tracker c \<Longrightarrow> fst (ext (fold (settle c r) batch w)) = fst (ext w)"
  by (induction batch arbitrary: w) (simp_all add: settle_spares)

lemma outside_spares:
  assumes "outside f w = (r, w')" and "\<And>x. fst (snd (f x)) = fst x"
  shows "fst (ext w') = fst (ext w)"
  using outsideE [OF assms(1)] assms(2) [of "ext w"] by simp

lemma timed_write_spares:
  assumes "spares_tracker c" and "timed_write c rows w = (r, w')"
  shows "fst (ext w') = fst (ext w)"
  using assms
  by (auto simp: timed_write_def spares_tracker_def split: prod.splits if_splits dest!: outside_spares)

lemma writeBatch_spares: "spares_tracker c \<Longrightarrow> fst (ext (writeBatch c batch w)) = fst (ext w)"
  by (auto simp: writeBatch_def Let_def settle_all_spares timed_write_spares split: prod.splits)

lemma flush_spares:
  assumes "spares_tracker c"
  shows "fst (ext (snd (flush c s))) = fst (ext (snd s))"
    and "fst (ext (snd (flush_receive c pm s))) = fst (ext (snd s))"
  using writeBatch_spares [OF assms]
  by (simp_all add: flush_def flush_receive_def Let_def split: prod.splits)

lemma consumer_step_spares:
  assumes "consumer_step J c (\<lambda>_ _. False) i i'" and "spares_tracker c"
    and "cs_delivered i' = cs_delivered i"
  shows "fst (ext (cs_world i')) = fst (ext (cs_world i))"
  using assms(1,3)
  by cases (simp_all add: with_loop_def flush_spares [OF assms(2)] abandonPending_def
      respond_spares [OF assms(2)])

text \<open>A delivery reaches the tracker as one critical section, if the message can be decoded.\<close>

lemma delivery_cases:
  assumes "on_message J (service_consumer P writer answer now d b e) msg w = Ret (pm, v)"
  obtains (undecodable) "message_key J msg = None" "fst (ext v) = fst (ext w)"
  | (decoded) t g at w1 t' w' where "message_key J msg = Some (GatewayKey t g)"
      "telemetry_locked at t g (fst (ext w), w1) = Ret (t', w')" "v = adapter_view (t', w')"
proof -
  let ?c = "service_consumer P writer answer now d b e"
  obtain r where r: "processMessage J ?c msg (with_metrics IncMessagesReceived w) = Ret (r, v)"
    using assms by (auto simp: on_message_def go_bind_Ret_iff)
  show thesis
  proof (cases "\<exists>t env. extractTenantID (msg_Subject msg) = Inr t \<and> dec_envelope J (msg_Data msg) = Inr env")
    case True
    then obtain t env where m: "extractTenantID (msg_Subject msg) = Inr t" "dec_envelope J (msg_Data msg) = Inr env"
      by blast
    from r m obtain q where "tracker_handler P t env (with_metrics IncMessagesReceived w) = Ret (q, v)"
      by (auto simp: processMessage_def go_bind_Ret_iff split: option.splits)
    then obtain at w1 t' w' where "telemetry_locked at t (env_GatewayID env) (fst (ext w), w1) = Ret (t', w')"
      "v = adapter_view (t', w')"
      by (auto simp: tracker_handler_def HandleTelemetry_def tracker_view_def Let_def go_bind_Ret_iff
          split: prod.splits)
    with m show thesis by (intro decoded) (auto simp: message_key_def)
  next
    case False
    then have "fst (ext v) = fst (ext w)"
      using r by (auto simp: processMessage_def split: sum.splits)
    with False show thesis by (intro undecodable) (auto simp: message_key_def split: sum.splits)
  qed
qed

section \<open>The composition simulates into its components\<close>

text \<open>The steps of the timer and of the worker hear nothing.\<close>

lemma unheard_same: "beats (ctr s') = beats (ctr s) \<Longrightarrow> unheard s s'"
  by (auto simp: unheard_def)

lemma unheard_mark: "ctr s' = mark_offline k (ctr s) \<Longrightarrow> unheard s s'"
  by (auto simp: unheard_def mark_offline_def split: option.splits if_splits)

lemma unheard_worker:
  "unheard s (s\<lparr>ctr := worker_receive (ctr s)\<rparr>)"
  "worker_perform P j (ctr s, cw s) = (t', w') \<Longrightarrow> unheard s (s\<lparr>ctr := t', cw := w'\<rparr>)"
  "dispatchStatusUpdate u (ctr s, cw s) = Ret (t', w') \<Longrightarrow> unheard s (s\<lparr>ctr := t', cw := w'\<rparr>)"
  by (auto intro!: unheard_same simp: worker_perform_eq dispatch_frame worker_receive_def split: list.splits)

text \<open>The two components share the world, each in its own view.\<close>

definition coupled :: "'x service \<Rightarrow> bool" where
  "coupled s \<longleftrightarrow> cs_world (inbox s) = adapter_view (ctr (core s), cw (core s))"

lemma coupled_tracker: "coupled s \<Longrightarrow> fst (ext (cs_world (inbox s))) = ctr (core s)"
  by (simp add: coupled_def)

lemma with_view_simps [simp]:
  "ctr (with_view s v) = fst (ext v)" "pc (with_view s v) = pc s" "hist (with_view s v) = hist s"
  "adapter_view (fst (ext v), cw (with_view s v)) = v"
  by (simp_all add: with_view_def tracker_view_def adapter_view_def)

lemma heard_simps [simp]:
  "ctr (heard k s v) = fst (ext v)" "adapter_view (fst (ext v), cw (heard k s v)) = v"
  by (simp_all add: heard_def Let_def with_view_def tracker_view_def adapter_view_def)

lemma heard_message_simps [simp]:
  "ctr (heard_message J msg s v) = fst (ext v)" "adapter_view (fst (ext v), cw (heard_message J msg s v)) = v"
  by (simp_all add: heard_message_def split: option.splits)

lemma dismissed_message_simps [simp]:
  "ctr (dismissed_message msg s v) = fst (ext v)"
  "adapter_view (fst (ext v), cw (dismissed_message msg s v)) = v"
  by (simp_all add: dismissed_message_def with_view_def tracker_view_def adapter_view_def
      split: sum.splits prod.splits)

lemma service_step_coupled: "service_step P J c dismiss env s s' \<Longrightarrow> coupled s'"
  by (induction rule: service_step.induct) (simp_all add: coupled_def)

text \<open>The tracker's side.\<close>

text \<open>
  The steps of the tracker's system that stand for messages: they leave the timer where it is and the
  channel as open as it is.
\<close>

definition quiet :: "'x driven_ports \<Rightarrow> 'x csys \<Rightarrow> 'x csys \<Rightarrow> bool" where
  "quiet P s s' \<longleftrightarrow> cstep P s s' \<and> pc s' = pc s \<and> dispatchClosed (ctr s') = dispatchClosed (ctr s)"

lemma quiet_steps: "(quiet P)\<^sup>*\<^sup>* s s' \<Longrightarrow> (cstep P)\<^sup>*\<^sup>* s s'"
  by (erule rtranclp_mono [THEN predicate2D, rotated]) (simp add: quiet_def le_fun_def)

lemma quiet_environment: "quiet P s (s\<lparr>cw := w\<rparr>)"
  by (simp add: quiet_def c_environment)

lemma with_view_steps:
  assumes "fst (ext v) = ctr s"
  shows "(quiet P)\<^sup>*\<^sup>* s (with_view s v)"
proof -
  have "with_view s v = s\<lparr>cw := snd (tracker_view v)\<rparr>"
    using assms by (simp add: with_view_def tracker_view_def)
  then show ?thesis using quiet_environment [of P s] by (metis r_into_rtranclp)
qed

lemma heard_steps:
  assumes "telemetry_locked at t g (ctr s, w1) = Ret (t', w')"
  shows "(quiet P)\<^sup>*\<^sup>* s (heard (GatewayKey t g) s (adapter_view (t', w')))"
proof -
  let ?k = "GatewayKey t g" and ?s1 = "s\<lparr>cw := w1\<rparr>"
  have seen: "lastSeen (the (beats t' ?k)) = at"
    using telemetry_locked_beats [OF assms] by (simp split: option.splits)
  have view: "tracker_view (adapter_view (t', w')) = (t', w')" by simp
  have "cstep P ?s1 (heard ?k s (adapter_view (t', w')))"
  proof (cases "fleet_of (ctr s) ?k = Some Online")
    case True
    then have "heard ?k s (adapter_view (t', w')) = ?s1\<lparr>ctr := t', cw := w'\<rparr>"
      by (simp add: heard_def with_view_def view)
    with True assms show ?thesis using c_refresh [of ?k t g ?s1 at t' w' P] by simp
  next
    case False
    then have "heard ?k s (adapter_view (t', w')) =
        (note_offer ?k (online_job g at) ?s1)\<lparr>ctr := t', cw := w', hist := (?k, Came_online) # hist ?s1\<rparr>"
      by (simp add: heard_def with_view_def view seen note_offer_def)
    with False assms show ?thesis using c_online [of ?k t g ?s1 at t' w' P] by simp
  qed
  moreover have "pc (heard ?k s (adapter_view (t', w'))) = pc ?s1"
    by (simp add: heard_def Let_def with_view_def)
  ultimately have "quiet P ?s1 (heard ?k s (adapter_view (t', w')))"
    using telemetry_locked_frame(4) [OF assms] by (simp add: quiet_def)
  then show ?thesis using quiet_environment [of P s w1] by (meson converse_rtranclp_into_rtranclp r_into_rtranclp)
qed

text \<open>Exactly the rule of a delivery extends the list of deliveries.\<close>

lemma consumer_step_delivery:
  assumes "consumer_step J c (\<lambda>_ _. False) i i'" and "cs_delivered i' = cs_delivered i @ [msg]"
  obtains pm where "on_message J c msg (cs_world i) = Ret (pm, cs_world i')" "cs_inflight i' = Some pm"
  using assms by cases (auto simp: with_loop_def)


lemma message_steps:
  assumes "coupled s" and "consumer_step J (service_consumer P writer answer now d b e) (\<lambda>_ _. False) (inbox s) i"
    and "cs_delivered i = cs_delivered (inbox s) @ [msg]"
  shows "(quiet P)\<^sup>*\<^sup>* (core s) (heard_message J msg (core s) (cs_world i))"
proof -
  obtain pm where del: "on_message J (service_consumer P writer answer now d b e) msg (cs_world (inbox s))
      = Ret (pm, cs_world i)"
    using consumer_step_delivery [OF assms(2,3)] by blast
  note tracker = coupled_tracker [OF assms(1)]
  show ?thesis
  proof (cases rule: delivery_cases [OF del])
    case 1
    then show ?thesis using tracker by (simp add: heard_message_def with_view_steps)
  next
    case (2 t g at w1 t' w')
    then show ?thesis using tracker heard_steps [of at t g "core s" w1 t' w' P] by (simp add: heard_message_def)
  qed
qed

lemma dismissed_steps:
  assumes "v = handleMsg (decommission_service dismiss) msg w" and "w = adapter_view (ctr s, cw s)"
  shows "(quiet P)\<^sup>*\<^sup>* s (dismissed_message msg s v)"
proof (cases "extractIDs (msg_Subject msg)")
  case (Inl err)
  then have "fst (ext v) = ctr s"
    using assms by (simp add: handleMsg_def decommission_service_def newNATSDecommissionConsumer_def
        service_answer_def)
  then show ?thesis using Inl by (simp add: dismissed_message_def with_view_steps)
next
  case (Inr ids)
  obtain t g where ids: "ids = (t, g)" by fastforce
  let ?h = "HandleDecommission t g (ctr s, cw s)"
  let ?s1 = "s\<lparr>ctr := fst ?h, cw := snd ?h, hist := (GatewayKey t g, Forgotten) # hist s\<rparr>"
  have view: "tracker_decommission t g w = adapter_view ?h" using assms(2) by (simp add: tracker_decommission_def)
  have "fst (ext v) = fst ?h"
    using assms(1) Inr ids handleMsg_good [of msg t g dismiss w] view by (simp add: adapter_view_def)
  then have "dismissed_message msg s v = ?s1\<lparr>cw := snd (tracker_view v)\<rparr>"
    using Inr ids by (simp add: dismissed_message_def with_view_def tracker_view_def)
  moreover have "cstep P s ?s1" by (rule c_decommission) simp
  then have "quiet P s ?s1" by (simp add: quiet_def HandleDecommission_def Let_def)
  moreover have "quiet P ?s1 (?s1\<lparr>cw := snd (tracker_view v)\<rparr>)" by (rule quiet_environment)
  ultimately show ?thesis by (simp only: rtranclp.rtrancl_into_rtrancl [OF r_into_rtranclp])
qed

text \<open>So a step of the composition is quiet for the tracker, or it is one of the tracker's own.\<close>

lemma service_step_tracker:
  assumes "service_step P J (service_consumer P writer answer now d b e) dismiss env s s'" and "coupled s"
  shows "(quiet P)\<^sup>*\<^sup>* (core s) (core s') \<or> cstep P (core s) (core s')"
  using assms(1)
proof cases
  case (sv_message i msg)
  then show ?thesis using message_steps [of s J P writer answer now d b e i msg] assms(2) by simp
next
  case (sv_consumer i)
  then have "fst (ext (cs_world i)) = ctr (core s)"
    using consumer_step_spares [OF _ service_consumer_spares] coupled_tracker assms(2) by metis
  then show ?thesis using sv_consumer by (simp add: with_view_steps)
next
  case (sv_decommission v msg)
  then show ?thesis
    using dismissed_steps [of v dismiss msg "cs_world (inbox s)" "core s" P] assms(2) by (simp add: coupled_def)
next
  case (sv_tracker k)
  then show ?thesis by simp
qed

interpretation to_tracker: simulation
  "service_step P J (service_consumer P writer answer now d b e) dismiss env" "cstep P"
  "\<lambda>s k. coupled s \<and> k = core s"
  for P J writer answer now d b e dismiss env
proof unfold_locales
  fix s s' :: "'a service" and k
  assume m: "coupled s \<and> k = core s"
    and st: "service_step P J (service_consumer P writer answer now d b e) dismiss env s s'"
  have "(cstep P)\<^sup>*\<^sup>* (core s) (core s')"
    using service_step_tracker [OF st] m quiet_steps by blast
  then show "\<exists>t'. (cstep P)\<^sup>*\<^sup>* k t' \<and> coupled s' \<and> t' = core s'"
    using m service_step_coupled [OF st] by blast
qed

text \<open>The consumer's side: what the others do is a step of its environment.\<close>

lemma consumer_step_env: "consumer_step J c (\<lambda>_ _. False) i i' \<Longrightarrow> consumer_step J c env i i'"
  by (induction rule: consumer_step.induct) (auto intro: consumer_step.intros)

lemma service_step_consumer:
  "service_step P J c dismiss env s s' \<Longrightarrow> consumer_step J c env (inbox s) (inbox s')"
  by (erule service_step.cases) (auto intro: consumer_step_env consumer_step.others)

interpretation to_consumer: simulation
  "service_step P J c dismiss env" "consumer_step J c env" "\<lambda>s i. i = inbox s"
  for P J c dismiss env
  by unfold_locales (auto dest: service_step_consumer)

lemma consumer_reach_steps:
  "(consumer_step J c env)\<^sup>*\<^sup>* i i' \<Longrightarrow> consumer_reach J c env w0 i \<Longrightarrow> consumer_reach J c env w0 i'"
  by (induction rule: rtranclp_induct) (auto intro: consumer_reach.step)

lemma service_reach_components:
  assumes "service_reach P J (service_consumer P writer answer now d b e) dismiss env w0 s"
  shows "coupled s \<and> creachable P (core s)
    \<and> consumer_reach J (service_consumer P writer answer now d b e) env w0 (inbox s)"
  using assms
proof (induction rule: service_reach.induct)
  case (sv_start n grace w t w')
  then show ?case by (auto simp: coupled_def consumer_start_def intro: creach_new consumer_reach.start [unfolded consumer_start_def])
next
  case (sv_step s s')
  then show ?case
    using to_tracker.matched [of s "core s"] to_consumer.matched [of "inbox s" s]
      creachable_steps consumer_reach_steps by metis
qed


section \<open>The gateways that are watched\<close>

text \<open>
  What the messages say about which gateways to watch: those heard since they were last dismissed. The
  history has its newest message in front.
\<close>

fun watched :: "json_codec \<Rightarrow> service_event list \<Rightarrow> gateway_key set" where
  "watched J [] = {}"
| "watched J (Heard msg # es) = set_option (message_key J msg) \<union> watched J es"
| "watched J (Dismissed msg # es) =
     watched J es - {GatewayKey t g |t g. extractIDs (msg_Subject msg) = Inr (t, g)}"

fun heard_messages :: "service_event list \<Rightarrow> nats_msg list" where
  "heard_messages [] = []"
| "heard_messages (Heard msg # es) = heard_messages es @ [msg]"
| "heard_messages (Dismissed msg # es) = heard_messages es"

lemma heard_in_events: "msg \<in> set (heard_messages es) \<longleftrightarrow> Heard msg \<in> set es"
  by (induction es rule: heard_messages.induct) auto

text \<open>A gateway that was heard is watched, unless it was dismissed later.\<close>

lemma watched_unless_dismissed:
  assumes "message_key J msg = Some (GatewayKey t g)" and "GatewayKey t g \<notin> watched J (later @ Heard msg # earlier)"
  shows "\<exists>m. Dismissed m \<in> set later \<and> extractIDs (msg_Subject m) = Inr (t, g)"
  using assms(2)
proof (induction later)
  case Nil
  then show ?case using assms(1) by simp
next
  case (Cons ev later)
  then show ?case by (cases ev) auto
qed

text \<open>What each step does to the set of tracked gateways and to the coming online in the history.\<close>

lemma dom_telemetry:
  assumes "telemetry_locked at t g (tr, w) = Ret (tr', w')"
  shows "dom (beats tr') = insert (GatewayKey t g) (dom (beats tr))"
  using telemetry_locked_beats [OF assms] by auto

lemma message_dom:
  assumes "on_message J (service_consumer P writer answer now d b e) msg w = Ret (pm, v)"
  shows "dom (beats (fst (ext v))) = set_option (message_key J msg) \<union> dom (beats (fst (ext w)))"
proof (cases rule: delivery_cases [OF assms])
  case 1
  then show ?thesis by simp
next
  case (2 t g at w1 t' w')
  then show ?thesis using dom_telemetry [OF 2(2)] by simp
qed

lemma dismissed_dom:
  assumes "v = handleMsg (decommission_service dismiss) msg w"
  shows "dom (beats (fst (ext v))) =
    dom (beats (fst (ext w))) - {GatewayKey t g |t g. extractIDs (msg_Subject msg) = Inr (t, g)}"
proof (cases "extractIDs (msg_Subject msg)")
  case (Inl err)
  then show ?thesis
    using assms by (simp add: handleMsg_def decommission_service_def newNATSDecommissionConsumer_def
        service_answer_def)
next
  case (Inr ids)
  then obtain t g where ids: "extractIDs (msg_Subject msg) = Inr (t, g)" by (metis prod.exhaust)
  have "beats (fst (ext v)) = (beats (fst (ext w)))(GatewayKey t g := None)"
    unfolding assms handleMsg_good [OF ids] by (simp add: tracker_decommission_view)
  then show ?thesis using ids by (auto split: if_splits)
qed

lemma unheard_hist:
  assumes "cstep P s s'" and "unheard s s'" and "(k, Came_online) \<in> set (hist s')"
  shows "(k, Came_online) \<in> set (hist s)"
  using assms
proof cases
  case (c_online k' tenantID gatewayID now t' w')
  let ?k = "GatewayKey tenantID gatewayID"
  obtain e' where e': "beats t' ?k = Some e'" "knownStatus e' = Online"
    using telemetry_locked_beats [OF c_online(4)] by (simp split: option.splits)
  with assms(2) c_online(1) have "?k \<in> dom (beats (ctr s))" by (auto simp: unheard_def)
  then obtain e where "beats (ctr s) ?k = Some e" by blast
  with e' assms(2) c_online(1) have "knownStatus e = Online" by (auto simp: unheard_def)
  with c_online \<open>beats (ctr s) ?k = Some e\<close> show ?thesis by (simp add: fleet_of_def)
qed auto

text \<open>An alert in the history has a coming online of the same gateway before it.\<close>

lemma last_of_in: "last_of k hs = Some h \<Longrightarrow> (k, h) \<in> set hs"
  by (induction k hs rule: last_of.induct) (auto split: if_splits)

lemma alert_follows_online: "alerts_ok (later @ (k, Alerted) # earlier) \<Longrightarrow> last_of k earlier = Some Came_online"
  by (induction later) auto

definition service_inv :: "json_codec \<Rightarrow> 'x service \<Rightarrow> bool" where
  "service_inv J s \<longleftrightarrow> dom (beats (ctr (core s))) = watched J (events s)
     \<and> heard_messages (events s) = cs_delivered (inbox s)
     \<and> (\<forall>k. (k, Came_online) \<in> set (hist (core s))
          \<longrightarrow> (\<exists>msg \<in> set (cs_delivered (inbox s)). message_key J msg = Some k))"

lemma heard_hist:
  "(k, Came_online) \<in> set (hist (heard_message J msg s v)) \<Longrightarrow>
     (k, Came_online) \<in> set (hist s) \<or> message_key J msg = Some k"
  by (auto simp: heard_message_def heard_def Let_def split: option.splits if_splits)

lemma dismissed_hist:
  "(k, Came_online) \<in> set (hist (dismissed_message msg s v)) \<Longrightarrow> (k, Came_online) \<in> set (hist s)"
  by (auto simp: dismissed_message_def split: sum.splits)

lemma service_step_inv:
  assumes "service_step P J (service_consumer P writer answer now d b e) dismiss env s s'"
    and "coupled s" and "service_inv J s"
  shows "service_inv J s'"
  using assms(1)
proof cases
  case (sv_message i msg)
  obtain pm where del: "on_message J (service_consumer P writer answer now d b e) msg (cs_world (inbox s))
      = Ret (pm, cs_world i)"
    using consumer_step_delivery [OF sv_message(2,3)] by blast
  show ?thesis
    using assms(2,3) sv_message message_dom [OF del] coupled_tracker heard_hist
    by (fastforce simp: service_inv_def)
next
  case (sv_consumer i)
  then show ?thesis
    using assms(2,3) consumer_step_spares [OF sv_consumer(2) service_consumer_spares sv_consumer(3)]
    by (simp add: service_inv_def coupled_tracker)
next
  case (sv_decommission v msg)
  then show ?thesis
    using assms(2,3) dismissed_dom [OF sv_decommission(2)] dismissed_hist
    by (fastforce simp: service_inv_def coupled_tracker)
next
  case (sv_tracker k)
  then show ?thesis
    using assms(3) unheard_hist [OF sv_tracker(2,3)] by (auto simp: service_inv_def unheard_def)
qed

lemma service_reach_inv:
  assumes "service_reach P J (service_consumer P writer answer now d b e) dismiss env w0 s"
  shows "service_inv J s"
  using assms
proof (induction rule: service_reach.induct)
  case (sv_start n grace w t w')
  then show ?case
    by (auto simp: service_inv_def consumer_start_def NewHeartbeatTracker_def Let_def split: prod.splits if_splits)
next
  case (sv_step s s')
  have "coupled s" using service_reach_components [OF sv_step(1)] by blast
  then show ?case using service_step_inv [OF sv_step(2)] sv_step(3) by blast
qed


section \<open>Properties of the composed service\<close>

text \<open>
  In every interleaving of the two consumers, the timer, the worker and the outside, each component
  behaves as it does alone: the tracker's side of a reachable state is reachable in the tracker's own
  system, the consumer's side in the consumer's, and both see the same world.
\<close>

theorem service_refines_components:
  assumes "service_reach P J (service_consumer P writer answer now d b e) dismiss env w0 s"
  shows "creachable P (core s)
    \<and> consumer_reach J (service_consumer P writer answer now d b e) env w0 (inbox s)
    \<and> cs_world (inbox s) = adapter_view (ctr (core s), cw (core s))"
  using service_reach_components [OF assms] by (simp add: coupled_def)

text \<open>
  C4. The service watches exactly the gateways that it has heard since they were last dismissed: the keys
  of the tracker are those of the decodable telemetry messages, by the tenant of the subject and the
  gateway of the envelope, less those that a later decommission message named.
\<close>

theorem watched_exactly_heard:
  assumes "service_reach P J (service_consumer P writer answer now d b e) dismiss env w0 s"
  shows "dom (beats (ctr (core s))) = watched J (events s)
    \<and> heard_messages (events s) = cs_delivered (inbox s)"
  using service_reach_inv [OF assms] by (simp add: service_inv_def)

text \<open>
  An alert is published only for a gateway that the service has heard: a telemetry message of it was
  delivered before.
\<close>

theorem alerts_only_for_heard:
  assumes "service_reach P J (service_consumer P writer answer now d b e) dismiss env w0 s"
    and "(k, Alerted) \<in> set (hist (core s))"
  shows "\<exists>msg \<in> set (cs_delivered (inbox s)). message_key J msg = Some k"
proof -
  have ok: "alert_inv (core s)" using service_reach_components [OF assms(1)] creachable_alert_inv by blast
  obtain later earlier where h: "hist (core s) = later @ (k, Alerted) # earlier"
    using assms(2) by (meson split_list)
  have "last_of k earlier = Some Came_online"
    using ok alert_follows_online [of later k earlier] unfolding alert_inv_def h by blast
  then have "(k, Came_online) \<in> set (hist (core s))" using last_of_in by (force simp: h)
  then show ?thesis using service_reach_inv [OF assms(1)] by (simp add: service_inv_def)
qed

section \<open>Witnesses\<close>

text \<open>
  A service whose outside is the list of answers and the log of the pool, with batches of one row; and
  its run over one good telemetry message, first handed to the tracker and then written and acknowledged.
\<close>

type_synonym demo_store = "(nats_msg \<times> answer) list \<times> db_event list"

definition demo_store_ports :: "demo_store driven_ports" where
  "demo_store_ports = \<lparr>clock_Now = Pair 7, Publish = (\<lambda>t a. Pair None), UpdateStatus = (\<lambda>u. Pair None),
     TimeoutFor = (\<lambda>t g w. 60000), GetGatewayLifecycle = (\<lambda>t g. Pair (LifecycleOnline, None))\<rparr>"

definition on_log :: "('b \<Rightarrow> 'a \<times> 'b) \<Rightarrow> 'c \<times> 'b \<Rightarrow> 'a \<times> ('c \<times> 'b)" where
  "on_log f x = (let (r, l) = f (snd x) in (r, (fst x, l)))"

definition demo_store_pool :: "(demo_store, nat) db_pool" where
  "demo_store_pool = \<lparr>pool_Exec = (\<lambda>st. on_log (pool_Exec (demo_pool 9) st)),
     pool_SendBatch = (\<lambda>b. on_log (pool_SendBatch (demo_pool 9) b)),
     br_Exec = (\<lambda>br. on_log (br_Exec (demo_pool 9) br)), br_Close = (\<lambda>br. on_log (br_Close (demo_pool 9) br)),
     pool_Close = (\<lambda>x. x)\<rparr>"

definition demo_store_answer :: "nats_msg \<Rightarrow> answer \<Rightarrow> demo_store \<Rightarrow> string option \<times> demo_store" where
  "demo_store_answer m a x = (None, (fst x @ [(m, a)], snd x))"

abbreviation demo_service_consumer :: "(tracker \<times> demo_store) telemetry_consumer" where
  "demo_service_consumer \<equiv>
     service_consumer demo_store_ports (Writer_WriteBatch (NewPostgresTelemetryWriter demo_store_pool)) demo_store_answer (Pair 7)
       ''durable'' 1 second"

abbreviation demo_service_reach where
  "demo_service_reach env \<equiv> service_reach demo_store_ports demo_json demo_service_consumer demo_store_answer env"

definition demo_store_tracker :: tracker where
  "demo_store_tracker = \<lparr>startTime = 7, gracePeriod = 0, beats = Map.empty, dispatchCap = 4,
     dispatchCh = [], dispatchClosed = False, worker = Ready\<rparr>"

definition demo_store_world :: "demo_store world" where
  "demo_store_world = \<lparr>mtr = zero_metrics, ext = ([], [])\<rparr>"

abbreviation demo_w0 :: "(tracker \<times> demo_store) world" where
  "demo_w0 \<equiv> adapter_view (demo_store_tracker, demo_store_world)"

definition demo_core :: "demo_store csys" where
  "demo_core = \<lparr>ctr = demo_store_tracker, cw = demo_store_world, pc = Tick_idle, hist = [], offered = [],
     accepted = [], delivered = []\<rparr>"

lemma demo_service_start:
  "demo_service_reach env demo_w0 \<lparr>core = demo_core, inbox = consumer_start demo_w0, events = []\<rparr>"
  unfolding demo_core_def
  by (rule sv_start [where n = 4 and grace = 0 and w = demo_store_world])
    (simp_all add: NewHeartbeatTracker_def demo_store_ports_def demo_store_tracker_def)

abbreviation demo_store_key :: gateway_key where
  "demo_store_key \<equiv> GatewayKey ''t'' ''g''"

definition demo_store_entry :: heartbeat_entry where
  "demo_store_entry = \<lparr>he_tenantID = ''t'', he_gatewayID = ''g'', lastSeen = 7, knownStatus = Online\<rparr>"

definition demo_heard_tracker :: tracker where
  "demo_heard_tracker = demo_store_tracker\<lparr>beats := [demo_store_key \<mapsto> demo_store_entry],
     dispatchCh := [online_job ''g'' 7]\<rparr>"

definition demo_heard_world :: "demo_store world" where
  "demo_heard_world = with_metrics (SetHeartbeatMapSize 1) (with_metrics IncMessagesReceived demo_store_world)"

definition demo_pending :: pending_msg where
  "demo_pending = \<lparr>pm_msg = demo_good, pm_row = buildRow ''t'' demo_envelope, pm_err = None\<rparr>"

lemma demo_delivery:
  "on_message demo_json demo_service_consumer demo_good demo_w0
     = Ret (demo_pending, adapter_view (demo_heard_tracker, demo_heard_world))"
  by (simp add: on_message_def processMessage_def extractTenantID_def demo_good_def demo_json_def
      demo_pending_def tracker_handler_def HandleTelemetry_def telemetry_locked_def tracked_def
      dispatchStatusUpdate_def try_send_def demo_store_ports_def demo_store_tracker_def
      demo_store_world_def demo_heard_tracker_def demo_heard_world_def tracker_view_def adapter_view_def
      demo_store_entry_def demo_envelope_def online_job_def with_metrics_def Let_def)

lemma demo_message_key: "message_key demo_json demo_good = Some demo_store_key"
  by (simp add: message_key_def extractTenantID_def demo_good_def demo_json_def demo_envelope_def)

definition demo_heard :: "demo_store service" where
  "demo_heard = \<lparr>core = heard demo_store_key demo_core (adapter_view (demo_heard_tracker, demo_heard_world)),
     inbox = (consumer_start demo_w0)\<lparr>cs_inflight := Some demo_pending,
       cs_world := adapter_view (demo_heard_tracker, demo_heard_world), cs_delivered := [demo_good]\<rparr>,
     events = [Heard demo_good]\<rparr>"

lemma demo_heard_reach: "demo_service_reach env demo_w0 demo_heard"
proof -
  let ?s = "\<lparr>core = demo_core, inbox = consumer_start demo_w0, events = []\<rparr>"
  have "consumer_step demo_json demo_service_consumer (\<lambda>_ _. False) (inbox ?s) (inbox demo_heard)"
    using consumer_step.deliver [of "inbox ?s" demo_json demo_service_consumer demo_good demo_pending
        "adapter_view (demo_heard_tracker, demo_heard_world)"] demo_delivery
    by (simp add: demo_heard_def consumer_start_def)
  then have "service_step demo_store_ports demo_json demo_service_consumer demo_store_answer env ?s
      (?s\<lparr>core := heard_message demo_json demo_good (core ?s) (cs_world (inbox demo_heard)), inbox := inbox demo_heard,
         events := Heard demo_good # events ?s\<rparr>)"
    by (rule sv_message) (simp add: demo_heard_def consumer_start_def)
  from sv_step [OF demo_service_start this] show ?thesis
    by (simp add: demo_heard_def heard_message_def demo_message_key)
qed


definition demo_store_log :: "db_event list" where
  "demo_store_log = [Sent [row_statement (buildRow ''t'' demo_envelope)], ResultRead None, BatchClosed]"

definition demo_stored_world :: "(tracker \<times> demo_store) world" where
  "demo_stored_world = snd (flush_receive demo_service_consumer demo_pending
     ([], adapter_view (demo_heard_tracker, demo_heard_world)))"

lemma demo_flush:
  "flush_receive demo_service_consumer demo_pending ([], adapter_view (demo_heard_tracker, demo_heard_world))
     = ([], demo_stored_world)"
  "ext demo_stored_world = (demo_heard_tracker, [(demo_good, Ack)], demo_store_log)"
  by (simp_all add: demo_stored_world_def flush_receive_def flush_def writeBatch_def timed_write_def batch_rows_def
      settle_def respond_def outside_def demo_pending_def demo_heard_world_def demo_store_world_def
      demo_store_log_def Writer_WriteBatch_def demo_store_pool_def demo_pool_def on_log_def on_outside_def
      service_answer_def demo_store_answer_def Let_def)

definition demo_stored :: "demo_store service" where
  "demo_stored = demo_heard\<lparr>core := with_view (core demo_heard) demo_stored_world,
     inbox := with_loop ((inbox demo_heard)\<lparr>cs_inflight := None\<rparr>) ([], demo_stored_world)\<rparr>"

lemma demo_stored_reach: "demo_service_reach env demo_w0 demo_stored"
proof -
  have "consumer_step demo_json demo_service_consumer (\<lambda>_ _. False) (inbox demo_heard) (inbox demo_stored)"
    using consumer_step.hand_over [of "inbox demo_heard" demo_pending demo_json demo_service_consumer] demo_flush(1)
    by (simp add: demo_stored_def demo_heard_def consumer_start_def)
  then have "service_step demo_store_ports demo_json demo_service_consumer demo_store_answer env demo_heard
      (demo_heard\<lparr>core := with_view (core demo_heard) (cs_world (inbox demo_stored)), inbox := inbox demo_stored\<rparr>)"
    by (rule sv_consumer) (simp add: demo_stored_def with_loop_def)
  from sv_step [OF demo_heard_reach this] show ?thesis
    by (simp add: demo_stored_def with_loop_def)
qed

lemma demo_stored_fields:
  "ctr (core demo_stored) = demo_heard_tracker" "events demo_stored = [Heard demo_good]"
  "cs_delivered (inbox demo_stored) = [demo_good]" "cs_world (inbox demo_stored) = demo_stored_world"
  "ext (cw (core demo_stored)) = ([(demo_good, Ack)], demo_store_log)"
  "hist (core demo_stored) = [(demo_store_key, Came_online)]" "pc (core demo_stored) = Tick_idle"
  by (simp_all add: demo_stored_def demo_heard_def with_loop_def demo_flush heard_def Let_def with_view_def
      tracker_view_def adapter_view_def demo_core_def demo_store_tracker_def fleet_of_def consumer_start_def)

theorem service_refines_components_witness:
  "creachable demo_store_ports (core demo_stored)
    \<and> consumer_reach demo_json demo_service_consumer (\<lambda>_ _. False) demo_w0 (inbox demo_stored)"
  using service_refines_components [OF demo_stored_reach] by blast

theorem watched_exactly_heard_witness:
  "dom (beats demo_heard_tracker) = watched demo_json [Heard demo_good] \<and> heard_messages [Heard demo_good] = [demo_good]"
  using watched_exactly_heard [OF demo_stored_reach] by (simp add: demo_stored_fields)

text \<open>Much later the gateway is found overdue and alerted.\<close>

definition demo_late :: time where
  "demo_late = 10 ^ 15"

lemma demo_alerted:
  "\<exists>s. demo_service_reach (\<lambda>_ _. True) demo_w0 s \<and> (demo_store_key, Alerted) \<in> set (hist (core s))
     \<and> cs_delivered (inbox s) = [demo_good]"
proof -
  let ?c = "core demo_stored"
  let ?k1 = "?c\<lparr>pc := Tick_loop demo_late (snapshot [demo_store_key] (ctr ?c))\<rparr>"
  let ?s1 = "demo_stored\<lparr>core := ?k1, inbox := (inbox demo_stored)\<lparr>cs_world := adapter_view (ctr ?k1, cw ?k1)\<rparr>\<rparr>"
  have "cstep demo_store_ports ?c ?k1"
    by (rule c_tick_begin [where ?now0.0 = demo_late])
      (simp_all add: demo_stored_fields iteration_order_def demo_heard_tracker_def demo_store_tracker_def demo_late_def)
  then have "service_step demo_store_ports demo_json demo_service_consumer demo_store_answer (\<lambda>_ _. True) demo_stored ?s1"
    by (rule sv_tracker) (simp_all add: unheard_same)
  then have r1: "demo_service_reach (\<lambda>_ _. True) demo_w0 ?s1" by (rule sv_step [OF demo_stored_reach])
  have snap: "snapshot [demo_store_key] (ctr ?c) = [demo_store_entry]"
    by (simp add: snapshot_def demo_stored_fields demo_heard_tracker_def List.map_filter_simps)
  obtain w' where v: "tick_verdict demo_store_ports demo_late demo_store_entry (cw ?k1) = (Fired, w')"
    by (auto simp: tick_verdict_def demo_store_ports_def demo_store_entry_def demo_late_def deadline_def
        lifecycle_defs time_add_def time_before_def of_ms_def millisecond_def Let_def)
  let ?k2 = "?k1\<lparr>cw := w', pc := Tick_dispatch demo_late demo_store_entry [],
      hist := (entry_key demo_store_entry, Alerted) # hist ?k1\<rparr>"
  let ?s2 = "?s1\<lparr>core := ?k2, inbox := (inbox ?s1)\<lparr>cs_world := adapter_view (ctr ?k2, cw ?k2)\<rparr>\<rparr>"
  have "cstep demo_store_ports (core ?s1) ?k2"
    using c_tick_publish [of ?k1 demo_late demo_store_entry "[]" demo_store_ports w'] v snap by simp
  then have "service_step demo_store_ports demo_json demo_service_consumer demo_store_answer (\<lambda>_ _. True) ?s1 ?s2"
    by (rule sv_tracker) (simp_all add: unheard_same)
  then have "demo_service_reach (\<lambda>_ _. True) demo_w0 ?s2" by (rule sv_step [OF r1])
  then show ?thesis
    by (intro exI [of _ ?s2]) (simp add: entry_key_def demo_store_entry_def demo_stored_fields)
qed

theorem alerts_only_for_heard_witness:
  "message_key demo_json demo_good = Some demo_store_key"
proof -
  obtain s where "demo_service_reach (\<lambda>_ _. True) demo_w0 s" "(demo_store_key, Alerted) \<in> set (hist (core s))"
    "cs_delivered (inbox s) = [demo_good]"
    using demo_alerted by blast
  from alerts_only_for_heard [OF this(1,2)] this(3) show ?thesis by simp
qed


lemma demo_store_observed:
  "observed_pool demo_store_pool snd"
  "fst (snd (demo_store_answer m a x)) = fst x @ [(m, a)]" "snd (snd (demo_store_answer m a x)) = snd x"
  by (auto simp: observed_pool_def demo_store_pool_def demo_pool_def on_log_def Let_def demo_store_answer_def
      split: prod.splits)


end
