(* ===== verification/Storage.thy ===== *)
theory Storage
  imports Service_Props Driven_Adapters_Props
begin

text \<open>
  The service with the telemetry writer of \<open>postgres_telemetry_writer.go\<close> in it: what an acknowledgement
  to JetStream means for the table, read off the log of what the connection pool was asked and what it
  answered.
\<close>

section \<open>The statements that the database confirmed\<close>

text \<open>
  A scan of the log: of each batch that was sent, whether all its results were read without an error.
  The state is the batch that is open, with the number of its results still to be read.
\<close>

fun confirmed_from :: "(sql_statement list \<times> nat) option \<Rightarrow> db_event list \<Rightarrow> sql_statement list" where
  "confirmed_from st [] = []"
| "confirmed_from st (Sent b # evs) = confirmed_from (Some (b, length b)) evs"
| "confirmed_from st (BatchClosed # evs) = confirmed_from None evs"
| "confirmed_from st (ResultRead r # evs) =
     (case (st, r) of
        (Some (b, Suc n), None) \<Rightarrow>
          if n = 0 then b @ confirmed_from None evs else confirmed_from (Some (b, n)) evs
      | _ \<Rightarrow> confirmed_from None evs)"

definition confirmed :: "db_event list \<Rightarrow> sql_statement list" where
  "confirmed log = confirmed_from None log"

lemma confirmed_read:
  "n < m \<Longrightarrow> confirmed_from (Some (b, m)) (replicate n (ResultRead None) @ evs) =
     confirmed_from (Some (b, m - n)) evs"
  by (induction n arbitrary: m) (auto split: nat.splits)

lemma confirmed_complete:
  assumes "b \<noteq> []"
  shows "confirmed_from st (Sent b # replicate (length b) (ResultRead None) @ [BatchClosed]) = b"
proof -
  obtain n where n: "length b = Suc n" using assms by (cases b) auto
  have "replicate (Suc n) (ResultRead None) = replicate n (ResultRead None) @ [ResultRead None]"
    by (simp add: replicate_append_same)
  then show ?thesis by (simp add: n confirmed_read del: replicate_Suc)
qed

lemma confirmed_refused:
  assumes "i < length b"
  shows "confirmed_from st (Sent b # replicate i (ResultRead None) @ [ResultRead (Some err), BatchClosed]) = []"
  using assms by (simp add: confirmed_read split: option.splits nat.splits)

text \<open>A new batch starts afresh, whatever was open before.\<close>

lemma confirmed_from_append:
  "confirmed_from st (log @ Sent b # evs) = confirmed_from st log @ confirmed_from None (Sent b # evs)"
  by (induction st log rule: confirmed_from.induct) (auto split: option.splits nat.splits)

text \<open>The row that an insert statement of the writer carries.\<close>

fun statement_row :: "sql_statement \<Rightarrow> telemetry_row option" where
  "statement_row (q, [SqlTime at, SqlText tenant, SqlText gw, SqlText sensor, SqlText kind,
       SqlText payload, SqlText iv, SqlText tag, SqlInt version]) =
     (if q = insertTelemetry
      then Some \<lparr>row_Time = at, row_TenantID = tenant, row_GatewayID = gw, row_SensorID = sensor,
        row_SensorType = kind, row_EncryptedData = \<lparr>blob_Value = payload\<rparr>, row_IV = \<lparr>blob_Value = iv\<rparr>,
        row_AuthTag = \<lparr>blob_Value = tag\<rparr>, row_KeyVersion = version\<rparr>
      else None)"
| "statement_row _ = None"

lemma statement_row_row [simp]: "statement_row (row_statement row) = Some row"
  by (simp add: row_statement_def)

definition inserted :: "db_event list \<Rightarrow> telemetry_row list" where
  "inserted log = List.map_filter statement_row (confirmed log)"

lemma inserted_rows [simp]: "List.map_filter statement_row (map row_statement rows) = rows"
  by (induction rows) (simp_all add: List.map_filter_simps)

lemma map_filter_append: "List.map_filter f (xs @ ys) = List.map_filter f xs @ List.map_filter f ys"
  by (simp add: List.map_filter_def)

text \<open>A batch write that reports no error has inserted its rows; one that reports an error, nothing.\<close>

lemma Writer_WriteBatch_inserts:
  assumes "observed_pool pool log" and "Writer_WriteBatch (NewPostgresTelemetryWriter pool) rows x = (r, x')"
  shows "inserted (log x') = inserted (log x) @ (if r = None then rows else [])"
proof (cases "rows = []")
  case True
  then show ?thesis using assms(2) by (simp add: Writer_WriteBatch_def)
next
  case False
  note w = write_batch_log [OF assms(1) False assms(2)]
  show ?thesis
  proof (cases r)
    case None
    have "confirmed_from None (Sent (map row_statement rows) # replicate (length rows) (ResultRead None) @ [BatchClosed])
        = map row_statement rows"
      using confirmed_complete [of "map row_statement rows" None] False by simp
    then show ?thesis
      using w None by (simp add: inserted_def confirmed_def confirmed_from_append map_filter_append)
  next
    case (Some e)
    then obtain i err where i: "i < length rows" "log x' = log x @ Sent (map row_statement rows)
        # replicate i (ResultRead None) @ [ResultRead (Some err), BatchClosed]"
      using w by auto
    then show ?thesis
      using confirmed_refused [of i "map row_statement rows" None err] Some
      by (simp add: inserted_def confirmed_def confirmed_from_append map_filter_append List.map_filter_simps)
  qed
qed


section \<open>Acknowledged telemetry is in the table\<close>

text \<open>
  What the observers see: \<open>acks\<close> the answers to JetStream, \<open>log\<close> the dealings of the pool. Each is
  changed only by the calls that it observes.
\<close>

definition observed_service ::
    "'x driven_ports \<Rightarrow> ('x, 'b) db_pool \<Rightarrow> (nats_msg \<Rightarrow> answer \<Rightarrow> 'x \<Rightarrow> string option \<times> 'x)
      \<Rightarrow> ('x \<Rightarrow> time \<times> 'x) \<Rightarrow> ((tracker \<times> 'x) world \<Rightarrow> (tracker \<times> 'x) world \<Rightarrow> bool)
      \<Rightarrow> ('x \<Rightarrow> (nats_msg \<times> answer) list) \<Rightarrow> ('x \<Rightarrow> db_event list) \<Rightarrow> bool" where
  "observed_service P pool answer now env acks log \<longleftrightarrow>
     observed_pool pool log
     \<and> (\<forall>b x. acks (snd (pool_SendBatch pool b x)) = acks x)
     \<and> (\<forall>br x. acks (snd (br_Exec pool br x)) = acks x \<and> acks (snd (br_Close pool br x)) = acks x)
     \<and> (\<forall>m a x. acks (snd (answer m a x)) = acks x @ [(m, a)] \<and> log (snd (answer m a x)) = log x)
     \<and> (\<forall>x. acks (snd (now x)) = acks x \<and> log (snd (now x)) = log x)
     \<and> (\<forall>w. acks (ext (snd (clock_Now P w))) = acks (ext w) \<and> log (ext (snd (clock_Now P w))) = log (ext w))
     \<and> (\<forall>w w'. env w w' \<longrightarrow> acks (snd (ext w')) = acks (snd (ext w)) \<and> log (snd (ext w')) = log (snd (ext w)))"

lemma read_results_acks:
  assumes "\<And>br x. acks (snd (br_Exec pool br x)) = acks x"
  shows "acks (snd (read_results pool br i rows x)) = acks x"
proof (induction rows arbitrary: i x)
  case (Cons row rows)
  then show ?case
    using assms [of br x] by (auto split: prod.splits option.splits)
qed simp

lemma Writer_WriteBatch_acks:
  assumes "observed_service P pool answer now env acks log"
  shows "acks (snd (Writer_WriteBatch (NewPostgresTelemetryWriter pool) rows x)) = acks x"
proof -
  have q: "acks (snd (pool_SendBatch pool b x)) = acks x" "acks (snd (br_Close pool br x)) = acks x"
    "acks (snd (read_results pool br i rows x)) = acks x" for b br i x
    using assms read_results_acks [of acks pool] by (simp_all add: observed_service_def)
  show ?thesis
    using q by (simp add: Writer_WriteBatch_def split: prod.splits) (metis snd_conv)
qed

lemma service_observed:
  assumes "observed_service P pool answer now env acks log"
  shows "observed_consumer (service_consumer P (Writer_WriteBatch (NewPostgresTelemetryWriter pool)) answer now d b e) env
    (\<lambda>x. acks (snd x)) (\<lambda>x. inserted (log (snd x)))"
proof -
  have handler: "acks (snd (ext w')) = acks (snd (ext w)) \<and> log (snd (ext w')) = log (snd (ext w))"
    if "tracker_handler P t env' w = Ret (r, w')" for t env' w r w'
    using tracker_handler_ext [OF that] assms by (simp add: observed_service_def tracker_view_def)
  have writer: "inserted (log (snd (Writer_WriteBatch (NewPostgresTelemetryWriter pool) rows x)))
      = inserted (log x) @ (if fst (Writer_WriteBatch (NewPostgresTelemetryWriter pool) rows x) = None then rows else [])" for rows x
    using Writer_WriteBatch_inserts [of pool log rows x] assms
    by (simp add: observed_service_def split: prod.splits)
  show ?thesis
    unfolding observed_consumer_def
    using assms handler writer Writer_WriteBatch_acks [OF assms]
    by (simp add: service_answer_def observed_service_def del: split_paired_All)
qed

text \<open>
  C3. Acknowledged telemetry is in the table: the rows of the inserts that the database confirmed are, in
  order, the rows of the acknowledged messages. A message is never acknowledged on the strength of a
  batch in which one result was an error.
\<close>

theorem acknowledged_rows_are_inserted:
  assumes "service_reach P J (service_consumer P (Writer_WriteBatch (NewPostgresTelemetryWriter pool)) answer now d b e) dismiss env w0 s"
    and "observed_service P pool answer now env acks log"
    and "acks (snd (ext w0)) = []" and "log (snd (ext w0)) = []" and "0 < sint b"
  shows "map Some (inserted (log (ext (cw (core s))))) = map (message_row J) (acked (acks (ext (cw (core s)))))"
proof -
  let ?c = "service_consumer P (Writer_WriteBatch (NewPostgresTelemetryWriter pool)) answer now d b e"
  have start: "inserted (log (snd (ext w0))) = []"
    by (simp add: assms(4) inserted_def confirmed_def List.map_filter_simps)
  have "consumer_inv J ?c (\<lambda>x. acks (snd x)) (\<lambda>x. inserted (log (snd x))) (inbox s)"
    using tracker_as_handler.consumer_reach_inv [OF service_consumer_fields(1) service_observed [OF assms(2)]]
      service_reach_components [OF assms(1)] assms(3,5) start by simp
  then show ?thesis
    using service_reach_components [OF assms(1)] by (simp add: consumer_inv_def books_def coupled_def)
qed

text \<open>
  C5. What an acknowledgement promises: the row of the message is stored, and its gateway is watched, so
  that its silence will be noticed, unless a decommission message named it after it was heard.
\<close>

theorem acknowledged_gateways_watched:
  assumes "service_reach P J (service_consumer P writer answer now d b e) dismiss env w0 s"
    and "observed_consumer (service_consumer P writer answer now d b e) env acks stored"
    and "acks (ext w0) = []" and "stored (ext w0) = []" and "0 < sint b"
    and "(m, Ack) \<in> set (acks (ext (cs_world (inbox s))))"
  shows "\<exists>row \<in> set (stored (ext (cs_world (inbox s)))). message_row J m = Some row
    \<and> (GatewayKey (row_TenantID row) (row_GatewayID row) \<in> dom (beats (ctr (core s)))
       \<or> (\<exists>later msg earlier. events s = later @ Heard m # earlier \<and> Dismissed msg \<in> set later
            \<and> extractIDs (msg_Subject msg) = Inr (row_TenantID row, row_GatewayID row)))"
proof -
  let ?c = "service_consumer P writer answer now d b e"
  have inv: "consumer_inv J ?c acks stored (inbox s)"
    using tracker_as_handler.consumer_reach_inv [OF service_consumer_fields(1) assms(2-4)]
      service_reach_components [OF assms(1)] assms(5) by simp
  have "m \<in> set (acked (acks (ext (cs_world (inbox s)))))"
    using assms(6) by (force simp: acked_def)
  then have "message_row J m \<in> Some ` set (stored (ext (cs_world (inbox s))))"
    using inv by (metis (no_types, lifting) consumer_inv_def books_def image_eqI set_map)
  then obtain row where row: "row \<in> set (stored (ext (cs_world (inbox s))))" "message_row J m = Some row" by force
  have key: "message_key J m = Some (GatewayKey (row_TenantID row) (row_GatewayID row))"
    using row(2) by (auto simp: message_row_def message_key_def buildRow_def split: sum.splits)
  have "m \<in># mset (map fst (acks (ext (cs_world (inbox s)))))" using assms(6) by force
  then have "m \<in># mset (cs_delivered (inbox s))" using inv by (simp add: consumer_inv_def)
  then have "Heard m \<in> set (events s)"
    using service_reach_inv [OF assms(1)] by (simp add: service_inv_def heard_in_events flip: heard_in_events)
  then obtain later earlier where ev: "events s = later @ Heard m # earlier" by (meson split_list)
  show ?thesis
    using row ev watched_unless_dismissed [OF key, of later earlier] service_reach_inv [OF assms(1)]
    unfolding service_inv_def by (metis (no_types, lifting))
qed


section \<open>Witnesses\<close>

lemma demo_service_observed:
  "observed_service demo_store_ports demo_store_pool demo_store_answer (Pair 7) (\<lambda>_ _. False) fst snd"
  using demo_store_observed
  by (auto simp: observed_service_def demo_store_pool_def on_log_def demo_pool_def demo_store_ports_def Let_def)

lemma demo_store_start: "fst (snd (ext demo_w0)) = []" "snd (snd (ext demo_w0)) = []" "0 < sint (1 :: i64)"
  by (simp_all add: demo_store_world_def)

lemma demo_inserted: "inserted demo_store_log = [buildRow ''t'' demo_envelope]"
  by (simp add: inserted_def confirmed_def demo_store_log_def List.map_filter_simps)

theorem acknowledged_rows_are_inserted_witness:
  "map Some [buildRow ''t'' demo_envelope] = map (message_row demo_json) [demo_good]"
  using acknowledged_rows_are_inserted [OF demo_stored_reach demo_service_observed demo_store_start]
  by (simp add: demo_stored_fields demo_inserted acked_def)

theorem acknowledged_gateways_watched_witness:
  "\<exists>row. message_row demo_json demo_good = Some row
    \<and> GatewayKey (row_TenantID row) (row_GatewayID row) \<in> dom (beats demo_heard_tracker)"
proof -
  have "(demo_good, Ack) \<in> set (fst (snd (ext (cs_world (inbox demo_stored)))))"
    by (simp add: demo_stored_fields demo_flush)
  moreover have "inserted (snd (snd (ext demo_w0))) = []"
    unfolding demo_store_start by (simp add: inserted_def confirmed_def List.map_filter_simps)
  ultimately show ?thesis
    using acknowledged_gateways_watched [OF demo_stored_reach service_observed [OF demo_service_observed]
        demo_store_start(1) _ demo_store_start(3), of demo_good]
    by (auto simp: demo_stored_fields Cons_eq_append_conv)
qed

end
