(* ===== verification/Redelivery.thy ===== *)
theory Redelivery
  imports Storage
begin

text \<open>
  A telemetry message is a heartbeat when it is handled, before its row is written, and by the clock of
  the service. A message whose row the database refuses is asked for again after five seconds and is
  then a heartbeat once more, so one old message keeps a silent gateway online.
\<close>

section \<open>A round of redelivery\<close>

text \<open>
  The surroundings in which this happens: the pool refuses every batch, the environment lets five
  seconds pass, and nothing else moves the clock \<open>time_of\<close> that the tracker reads.
\<close>

definition refusing ::
    "'x driven_ports \<Rightarrow> (telemetry_row list \<Rightarrow> 'x \<Rightarrow> go_error option \<times> 'x)
      \<Rightarrow> (nats_msg \<Rightarrow> answer \<Rightarrow> 'x \<Rightarrow> string option \<times> 'x) \<Rightarrow> ('x \<Rightarrow> time \<times> 'x)
      \<Rightarrow> ((tracker \<times> 'x) world \<Rightarrow> (tracker \<times> 'x) world \<Rightarrow> bool) \<Rightarrow> ('x \<Rightarrow> time) \<Rightarrow> bool" where
  "refusing P writer answer now env time_of \<longleftrightarrow>
     (\<forall>rows x. rows \<noteq> [] \<longrightarrow> fst (writer rows x) \<noteq> None)
     \<and> (\<forall>w. clock_Now P w = (time_of (ext w), w))
     \<and> (\<forall>rows x. time_of (snd (writer rows x)) = time_of x) \<and> (\<forall>m a x. time_of (snd (answer m a x)) = time_of x)
     \<and> (\<forall>x. time_of (snd (now x)) = time_of x)
     \<and> (\<forall>t w. \<exists>x. time_of x = time_of (ext w) + sint (5 * second) \<and> env (adapter_view (t, w)) (adapter_view (t, w\<lparr>ext := x\<rparr>)))"

text \<open>Nothing waits in the consumer, and the dispatch channel is open.\<close>

definition settled_service :: "'x service \<Rightarrow> bool" where
  "settled_service s \<longleftrightarrow> cs_inflight (inbox s) = None \<and> cs_chan (inbox s) = [] \<and> cs_buf (inbox s) = []
     \<and> cs_running (inbox s) \<and> \<not> dispatchClosed (ctr (core s))"

text \<open>The time that the tracker would read.\<close>

definition clock_of :: "('x \<Rightarrow> time) \<Rightarrow> 'x service \<Rightarrow> time" where
  "clock_of time_of s = time_of (ext (cw (core s)))"

text \<open>What one batch of a refused row does to the outside beside the tracker.\<close>

lemma refused_flush:
  assumes "refusing P writer answer now env time_of" and "pm_err pm = None"
  shows "\<exists>w'. flush (service_consumer P writer answer now d b e) ([pm], w) = ([], w')
    \<and> fst (ext w') = fst (ext w) \<and> time_of (snd (ext w')) = time_of (snd (ext w))"
proof -
  let ?c = "service_consumer P writer answer now d b e"
  let ?w = "with_metrics (ObserveBatchSize (length (batch_rows [pm]))) w"
  obtain r w1 where t: "timed_write ?c (batch_rows [pm]) ?w = (r, w1)" by fastforce
  have "time_of (snd (ext w1)) = time_of (snd (ext w))"
    using t assms(1)
    by (auto simp: timed_write_def outside_def batch_rows_def assms(2) refusing_def on_outside_def Let_def
        split: prod.splits) (metis snd_conv)+
  moreover have "time_of (snd (ext (settle ?c r pm w1))) = time_of (snd (ext w1))"
    using assms(1) by (simp add: settle_def respond_def service_answer_def refusing_def)
  moreover have "flush ?c ([pm], w) = ([], settle ?c r pm w1)" using t by (simp add: flush_def writeBatch_def)
  moreover have "fst (ext (snd (flush ?c ([pm], w)))) = fst (ext w)"
    using flush_spares(1) [OF service_consumer_spares, of P writer answer now d b e "([pm], w)"] by simp
  ultimately show ?thesis by auto
qed

lemma refused_delivery:
  assumes "refusing P writer answer now env time_of" and "message_key J msg = Some k" and "\<not> dispatchClosed (fst (ext w))"
  shows "\<exists>pm v entry. on_message J (service_consumer P writer answer now d b e) msg w = Ret (pm, v)
    \<and> pm_err pm = None \<and> pm_msg pm = msg \<and> time_of (snd (ext v)) = time_of (snd (ext w)) \<and> \<not> dispatchClosed (fst (ext v))
    \<and> beats (fst (ext v)) k = Some entry \<and> lastSeen entry = time_of (snd (ext w)) \<and> knownStatus entry = Online"
proof -
  let ?w = "with_metrics IncMessagesReceived w"
  obtain t env' where m: "extractTenantID (msg_Subject msg) = Inr t" "dec_envelope J (msg_Data msg) = Inr env'"
    "k = GatewayKey t (env_GatewayID env')"
    using assms(2) by (auto simp: message_key_def split: sum.splits)
  obtain tr w1 where view: "tracker_view ?w = (tr, w1)" by fastforce
  then have vw: "tr = fst (ext w)" "ext w1 = snd (ext w)" by (auto simp: tracker_view_def)
  have clock: "clock_Now P w1 = (time_of (ext w1), w1)" using assms(1) by (simp add: refusing_def)
  obtain tr' w' where locked: "telemetry_locked (time_of (ext w1)) t (env_GatewayID env') (tr, w1) = Ret (tr', w')"
    using telemetry_locked_returns [of tr "time_of (ext w1)" t "env_GatewayID env'" w1] assms(3) vw by blast
  have "tracker_handler P t env' ?w = Ret (None, adapter_view (tr', w'))"
    by (simp add: tracker_handler_def HandleTelemetry_def view clock locked)
  then have "on_message J (service_consumer P writer answer now d b e) msg w
      = Ret (\<lparr>pm_msg = msg, pm_row = buildRow t env', pm_err = None\<rparr>, adapter_view (tr', w'))"
    by (simp add: on_message_def processMessage_def m)
  then show ?thesis
    using telemetry_locked_beats [OF locked] telemetry_locked_frame(4,5) [OF locked] assms(3) vw m(3)
    by (auto simp: adapter_view_def split: option.splits)
qed

text \<open>Five seconds pass, the message is delivered again, and its row is refused again.\<close>

lemma redelivery_round:
  fixes P writer answer now d b e
  defines "c \<equiv> service_consumer P writer answer now d b e"
  assumes "refusing P writer answer now env time_of" and "message_key J msg = Some k" and "1 < sint b"
    and "service_reach P J c dismiss env w0 s" and "settled_service s"
  shows "\<exists>s' entry. service_reach P J c dismiss env w0 s' \<and> settled_service s'
    \<and> events s' = Heard msg # events s \<and> clock_of time_of s' = clock_of time_of s + sint (5 * second)
    \<and> beats (ctr (core s')) k = Some entry \<and> lastSeen entry = clock_of time_of s' \<and> knownStatus entry = Online"
proof -
  let ?t = "ctr (core s)"
  have cpl: "coupled s" using service_reach_components assms(5) unfolding c_def by blast
  obtain x where x: "time_of x = clock_of time_of s + sint (5 * second)"
    "env (adapter_view (?t, cw (core s))) (adapter_view (?t, (cw (core s))\<lparr>ext := x\<rparr>))"
    using assms(2) unfolding refusing_def clock_of_def by meson
  let ?k1 = "(core s)\<lparr>cw := (cw (core s))\<lparr>ext := x\<rparr>\<rparr>"
  let ?s1 = "s\<lparr>core := ?k1, inbox := (inbox s)\<lparr>cs_world := adapter_view (ctr ?k1, cw ?k1)\<rparr>\<rparr>"
  have "service_step P J c dismiss env s ?s1"
    by (rule sv_tracker) (use cpl x(2) in \<open>simp_all add: c_environment unheard_same coupled_def\<close>)
  then have r1: "service_reach P J c dismiss env w0 ?s1" by (rule sv_step [OF assms(5)])
  let ?w1 = "cs_world (inbox ?s1)"
  have "\<not> dispatchClosed (fst (ext ?w1))" using assms(6) by (simp add: settled_service_def)
  from refused_delivery [OF assms(2,3) this, of d b e] obtain pm v entry where pm:
    "on_message J c msg ?w1 = Ret (pm, v)" "pm_err pm = None" "time_of (snd (ext v)) = time_of x"
    "\<not> dispatchClosed (fst (ext v))" "beats (fst (ext v)) k = Some entry" "lastSeen entry = time_of x"
    "knownStatus entry = Online"
    by (auto simp: c_def)
  let ?i2 = "(inbox ?s1)\<lparr>cs_inflight := Some pm, cs_world := v, cs_delivered := cs_delivered (inbox ?s1) @ [msg]\<rparr>"
  let ?s2 = "?s1\<lparr>core := heard_message J msg (core ?s1) v, inbox := ?i2, events := Heard msg # events ?s1\<rparr>"
  have "consumer_step J c (\<lambda>_ _. False) (inbox ?s1) ?i2"
    using assms(6) by (intro consumer_step.deliver [OF _ pm(1)]) (simp add: settled_service_def)
  then have "service_step P J c dismiss env ?s1 ?s2" using sv_message [of J c ?s1 ?i2 msg] by simp
  then have r2: "service_reach P J c dismiss env w0 ?s2" by (rule sv_step [OF r1])
  let ?i3 = "with_loop ((inbox ?s2)\<lparr>cs_inflight := None\<rparr>) ([pm], v)"
  let ?s3 = "?s2\<lparr>core := with_view (core ?s2) (cs_world ?i3), inbox := ?i3\<rparr>"
  have size: "batchSize c = b" by (simp add: c_def)
  have recv: "flush_receive c pm ([], v) = ([pm], v)" using assms(4) size by (simp add: flush_receive_def)
  have "consumer_step J c (\<lambda>_ _. False) (inbox ?s2) ?i3"
    using consumer_step.hand_over [of "inbox ?s2" pm J c] assms(6) recv
    by (simp add: settled_service_def)
  then have "service_step P J c dismiss env ?s2 ?s3" by (rule sv_consumer) (simp add: with_loop_def)
  then have r3: "service_reach P J c dismiss env w0 ?s3" by (rule sv_step [OF r2])
  obtain v4 where v4: "flush c ([pm], v) = ([], v4)" "fst (ext v4) = fst (ext v)" "time_of (snd (ext v4)) = time_of (snd (ext v))"
    using refused_flush [OF assms(2) pm(2), of d b e v] unfolding c_def by blast
  let ?i4 = "with_loop (inbox ?s3) ([], v4)"
  let ?s4 = "?s3\<lparr>core := with_view (core ?s3) (cs_world ?i4), inbox := ?i4\<rparr>"
  have "consumer_step J c (\<lambda>_ _. False) (inbox ?s3) ?i4"
    using consumer_step.ticker [of "inbox ?s3" J c] assms(6) v4(1) by (simp add: settled_service_def with_loop_def)
  then have "service_step P J c dismiss env ?s3 ?s4" by (rule sv_consumer) (simp add: with_loop_def)
  then have r4: "service_reach P J c dismiss env w0 ?s4" by (rule sv_step [OF r3])
  have "cw (core ?s4) = snd (tracker_view v4)" by (simp add: with_view_def with_loop_def)
  then have "clock_of time_of ?s4 = time_of x" using v4(3) pm(3) by (simp add: clock_of_def tracker_view_def)
  moreover have "ctr (core ?s4) = fst (ext v)" using v4(2) by (simp add: with_loop_def)
  moreover have "settled_service ?s4"
    using assms(6) pm(4) v4(2) by (simp add: settled_service_def with_loop_def)
  ultimately show ?thesis using r4 pm x(1) by (intro exI [of _ ?s4] exI [of _ entry]) simp
qed

lemma redelivery_rounds:
  fixes P writer answer now d b e
  defines "c \<equiv> service_consumer P writer answer now d b e"
  assumes "refusing P writer answer now env time_of" and "message_key J msg = Some k" and "1 < sint b"
    and "service_reach P J c dismiss env w0 s" and "settled_service s"
  shows "\<exists>s' entry. service_reach P J c dismiss env w0 s' \<and> settled_service s'
    \<and> events s' = replicate (Suc n) (Heard msg) @ events s
    \<and> clock_of time_of s' = clock_of time_of s + int (Suc n) * sint (5 * second)
    \<and> beats (ctr (core s')) k = Some entry \<and> lastSeen entry = clock_of time_of s' \<and> knownStatus entry = Online"
proof (induction n)
  case 0
  then show ?case using redelivery_round [OF assms(2-4) assms(5) [unfolded c_def] assms(6)] by (simp add: c_def)
next
  case (Suc n)
  then obtain s1 where s1: "service_reach P J c dismiss env w0 s1" "settled_service s1"
    "events s1 = replicate (Suc n) (Heard msg) @ events s"
    "clock_of time_of s1 = clock_of time_of s + int (Suc n) * sint (5 * second)" by blast
  from redelivery_round [OF assms(2-4) s1(1) [unfolded c_def] s1(2)] obtain s2 entry where
    "service_reach P J c dismiss env w0 s2" "settled_service s2" "events s2 = Heard msg # events s1"
    "clock_of time_of s2 = clock_of time_of s1 + sint (5 * second)"
    "beats (ctr (core s2)) k = Some entry" "lastSeen entry = clock_of time_of s2" "knownStatus entry = Online"
    unfolding c_def by blast
  then show ?case using s1(3,4) by (intro exI [of _ s2] exI [of _ entry]) (simp add: distrib_right)
qed

section \<open>The property\<close>


text \<open>A service whose outside is the clock alone, and whose database refuses everything.\<close>

definition stuck_ports :: "time driven_ports" where
  "stuck_ports = \<lparr>clock_Now = (\<lambda>w. (ext w, w)), Publish = (\<lambda>t a. Pair None), UpdateStatus = (\<lambda>u. Pair None),
     TimeoutFor = (\<lambda>t g w. 60000), GetGatewayLifecycle = (\<lambda>t g. Pair (LifecycleOnline, None))\<rparr>"


end
