(* ===== verification/Context_End.thy ===== *)
theory Context_End
  imports Storage
begin

text \<open>
  The end of the context and the telemetry consumer. The context that ends the flush loop is also the
  one that \<open>writeBatch\<close> hands to the writer and the writer to the pool, so what the loop still has in its
  buffer when the context ends is refused by the database and asked for again.
\<close>

section \<open>What is owed to a context\<close>

text \<open>
  \<open>over\<close> says whether the context is done. pgx documents that a batch under a context that is done ends
  with the error of the context; reading the clock does not undo a cancellation.
\<close>

definition pool_heeds_context :: "('x \<Rightarrow> bool) \<Rightarrow> ('x, 'b) db_pool \<Rightarrow> bool" where
  "pool_heeds_context over pool \<longleftrightarrow>
     (\<forall>b x. over x \<longrightarrow> fst (br_Exec pool (fst (pool_SendBatch pool b x)) (snd (pool_SendBatch pool b x))) \<noteq> None)"

definition heeds_context :: "('x \<Rightarrow> bool) \<Rightarrow> 'x telemetry_consumer \<Rightarrow> bool" where
  "heeds_context over c \<longleftrightarrow>
     (\<forall>rows x. over x \<and> rows \<noteq> [] \<longrightarrow> fst (tc_writer c rows x) \<noteq> None)
     \<and> (\<forall>x. over x \<longrightarrow> over (snd (tc_now c x)))"

lemma Writer_WriteBatch_heeds:
  assumes "pool_heeds_context over pool" and "over x" and "rows \<noteq> []"
  shows "fst (Writer_WriteBatch (NewPostgresTelemetryWriter pool) rows x) \<noteq> None"
proof -
  obtain row rest where rows: "rows = row # rest" using assms(3) by (cases rows) auto
  obtain br x1 where sent: "pool_SendBatch pool (map row_statement rows) x = (br, x1)" by fastforce
  then obtain e x2 where "br_Exec pool br x1 = (Some e, x2)"
    using assms(1,2) unfolding pool_heeds_context_def by (metis fst_conv not_None_eq prod.collapse snd_conv)
  then show ?thesis using sent by (simp add: Writer_WriteBatch_def rows split: prod.splits)
qed

lemma service_heeds:
  assumes "pool_heeds_context over pool" and "\<And>x. over x \<Longrightarrow> over (snd (now x))"
  shows "heeds_context (\<lambda>x. over (snd x))
    (service_consumer P (Writer_WriteBatch (NewPostgresTelemetryWriter pool)) answer now d b e)"
  using assms Writer_WriteBatch_heeds [OF assms(1)] by (simp add: heeds_context_def del: split_paired_All)

section \<open>Nothing is acknowledged any more\<close>

text \<open>What a step adds to the answers and to the rows once the context is done: refusals.\<close>

definition only_refuses ::
    "('x \<Rightarrow> (nats_msg \<times> answer) list) \<Rightarrow> ('x \<Rightarrow> telemetry_row list) \<Rightarrow> 'x world \<Rightarrow> 'x world \<Rightarrow> bool" where
  "only_refuses acks stored w w' \<longleftrightarrow> stored (ext w') = stored (ext w)
     \<and> (\<exists>new. acks (ext w') = acks (ext w) @ new \<and> Ack \<notin> snd ` set new)"

lemma only_refuses_same [simp]:
  "acks (ext w') = acks (ext w) \<Longrightarrow> stored (ext w') = stored (ext w) \<Longrightarrow> only_refuses acks stored w w'"
  by (simp add: only_refuses_def)

lemma only_refuses_trans:
  assumes "only_refuses acks stored w1 w2" and "only_refuses acks stored w2 w3"
  shows "only_refuses acks stored w1 w3"
  using assms unfolding only_refuses_def by (metis Un_iff append_assoc image_Un set_append)

lemma only_refuses_acked: "only_refuses acks stored w w' \<Longrightarrow> acked (acks (ext w')) = acked (acks (ext w))"
  by (force simp: only_refuses_def acked_def filter_empty_conv)

lemma timed_write_under_context:
  assumes "heeds_context over c" and "over (ext w)" and "rows \<noteq> []"
  shows "fst (timed_write c rows w) \<noteq> None"
proof -
  obtain at x1 where start: "tc_now c (ext w) = (at, x1)" by fastforce
  then have "over x1" using assms(1,2) unfolding heeds_context_def by (metis snd_conv)
  then obtain e x2 where "tc_writer c rows x1 = (Some e, x2)"
    using assms(1,3) unfolding heeds_context_def by (metis not_None_eq prod.collapse)
  then show ?thesis
    using assms(3) start by (simp add: timed_write_def outside_def split: prod.splits)
qed

lemma writeBatch_refused:
  assumes "heeds_context over c" and "observed_consumer c env acks stored" and "over (ext w)"
  shows "only_refuses acks stored w (writeBatch c batch w)"
proof -
  let ?rows = "batch_rows batch" and ?w = "with_metrics (ObserveBatchSize (length (batch_rows batch))) w"
  obtain e w1 where t: "timed_write c ?rows ?w = (e, w1)" by fastforce
  have refused: "?rows = [] \<or> e \<noteq> None"
    using timed_write_under_context [OF assms(1), of ?w ?rows] assms(3) t by fastforce
  from timed_write_observed [OF assms(2) t] settle_all_observed [OF assms(2), of e batch w1] t
  have "acks (ext (writeBatch c batch w)) = acks (ext w) @ settled e batch"
    "stored (ext (writeBatch c batch w)) = stored (ext w) @ (if e = None then ?rows else [])"
    by (simp_all add: writeBatch_def)
  moreover have "Ack \<notin> snd ` set (settled e batch)"
    using refused by (auto simp: settled_def settle_answer_def batch_rows_def filter_empty_conv split: if_splits)
  ultimately show ?thesis using refused by (auto simp: only_refuses_def)
qed

lemma flush_refused:
  assumes "heeds_context over c" and "observed_consumer c env acks stored" and "over (ext w)"
  shows "only_refuses acks stored w (snd (flush c (buf, w)))"
    and "only_refuses acks stored w (snd (flush_receive c pm (buf, w)))"
  using writeBatch_refused [OF assms] by (simp_all add: flush_def flush_receive_def Let_def)

lemma abandon_refused:
  assumes "observed_consumer c env acks stored"
  shows "only_refuses acks stored w (abandonPending c pm w)"
  by (auto simp: only_refuses_def abandonPending_def respond_observed [OF assms] abandon_answer_def
      split: option.splits)

lemma consumer_step_refused:
  assumes "heeds_context over c" and "observed_consumer c env acks stored"
    and "consumer_step J c env s s'" and "over (ext (cs_world s))"
  shows "only_refuses acks stored (cs_world s) (cs_world s')"
  using assms(3)
proof cases
  case (deliver msg pm w)
  then show ?thesis using on_message_observed [OF assms(2)] by simp
next
  case (abandon pm)
  then show ?thesis using abandon_refused [OF assms(2)] by simp
next
  case (others w)
  then show ?thesis using assms(2) by (simp add: observed_consumer_def)
qed (use flush_refused [OF assms(1,2,4)] in \<open>simp_all add: with_loop_def\<close>)

end
