(* ===== verification/Process_Props.thy ===== *)
theory Process_Props
  imports Process Startup_Props
begin

text \<open>
  Properties of the process: what is true of the tracker alone holds of it inside the process, the
  order of the shutdown, when the process can crash and that it can, and that a shutdown can always be
  completed; and the endpoints and the exit code.
\<close>

section \<open>The tracker inside the process\<close>

text \<open>Where the main goroutine is determines whether the channel is closed.\<close>

definition before_close :: "run_phase \<Rightarrow> bool" where
  "before_close ph \<longleftrightarrow> ph \<in> {Serving, Unwinding, MetricsDown}"

definition after_close :: "run_phase \<Rightarrow> bool" where
  "after_close ph \<longleftrightarrow> ph \<in> {TrackerClosed, PoolClosed, SignalsStopped, Exited}"

definition process_inv :: "'x process \<Rightarrow> bool" where
  "process_inv p \<longleftrightarrow>
     (before_close (phase p) \<longrightarrow> \<not> dispatchClosed (ctr (sys p)))
     \<and> (phase p = Closing \<longrightarrow> dispatchClosed (ctr (sys p)))
     \<and> (after_close (phase p) \<longrightarrow> worker (ctr (sys p)) = Finished)
     \<and> (\<forall>msg. phase p = Crashed msg \<longrightarrow> dispatchClosed (ctr (sys p)) \<and> msg = ''send on closed channel'')"

lemma phase_simps [simp]:
  "before_close Serving" "before_close Unwinding" "before_close MetricsDown" "\<not> before_close Closing"
  "\<not> before_close TrackerClosed" "\<not> before_close PoolClosed" "\<not> before_close SignalsStopped"
  "\<not> before_close Exited" "\<not> before_close (Crashed msg)"
  "after_close TrackerClosed" "after_close PoolClosed" "after_close SignalsStopped" "after_close Exited"
  "\<not> after_close Serving" "\<not> after_close Unwinding" "\<not> after_close MetricsDown"
  "\<not> after_close Closing" "\<not> after_close (Crashed msg)"
  "alive Serving" "alive Closing" "\<not> alive Exited" "\<not> alive (Crashed msg)"
  by (simp_all add: before_close_def after_close_def alive_def)

lemma new_tracker_open: "NewHeartbeatTracker P n grace w = Ret (t, w') \<Longrightarrow> \<not> dispatchClosed t"
  by (auto simp: NewHeartbeatTracker_def Let_def split: prod.splits if_splits)

text \<open>A worker that has left its loop stays out of it.\<close>

lemma dispatch_open: "dispatchStatusUpdate u (t, w) = Ret r \<Longrightarrow> \<not> dispatchClosed t"
  using dispatch_closed [of t u w] by fastforce

lemma dispatch_panic:
  assumes "dispatchStatusUpdate u (t, w) = Panic msg"
  shows "dispatchClosed t \<and> msg = ''send on closed channel''"
  using assms
  by (auto simp: dispatchStatusUpdate_def try_send_def split: if_splits option.splits)

lemma telemetry_panic:
  assumes "telemetry_locked now tenantID gatewayID (t, w) = Panic msg"
  shows "dispatchClosed t \<and> msg = ''send on closed channel''"
  using assms
  by (auto simp: telemetry_locked_def Let_def split: option.splits if_splits dest!: dispatch_panic)

lemma telemetry_worker:
  assumes "telemetry_locked now tenantID gatewayID (t, w) = Ret (t', w')" and "dispatchClosed t"
  shows "worker t' = worker t"
  using assms
  by (auto simp: telemetry_locked_def Let_def dispatch_closed split: option.splits if_splits)

lemma mark_offline_worker [simp]: "worker (mark_offline k t) = worker t"
  by (simp add: mark_offline_def split: option.splits)

lemma cstep_finished:
  assumes "cstep P s s'" and "cinv s" and "worker (ctr s) = Finished"
  shows "worker (ctr s') = Finished"
proof -
  have closed: "dispatchClosed (ctr s)" using assms(2,3) by (simp add: cinv_def tracker_inv_def)
  from assms(1) show ?thesis
    using assms(3) closed
    by cases (auto simp: telemetry_worker HandleDecommission_def Let_def worker_perform_eq
        close_channel_def dispatch_closed)
qed

text \<open>Every step of the process is a step of the tracker's system or leaves it alone.\<close>

lemma pstep_csys:
  assumes "pstep P p p'" and "process_inv p"
  shows "sys p' = sys p \<or> cstep P (sys p) (sys p')"
  using assms by cases (auto simp: process_inv_def intro: c_close)

lemma pstep_inv:
  assumes "pstep P p p'" and "process_inv p" and "cinv (sys p)"
  shows "process_inv p'"
  using assms
proof cases
  case (p_goroutine s)
  then show ?thesis
    using assms(2) cstep_finished [OF p_goroutine(3) assms(3)] by (simp add: process_inv_def)
next
  case (p_telemetry_panic now tenantID gatewayID msg)
  then show ?thesis using telemetry_panic by (fastforce simp: process_inv_def)
next
  case (p_tick_panic now e es msg)
  then show ?thesis using dispatch_panic by (fastforce simp: process_inv_def)
qed (auto simp: process_inv_def close_channel_def)

lemma preachable_inv: "preachable P p \<Longrightarrow> creachable P (sys p) \<and> process_inv p"
proof (induction rule: preachable.induct)
  case (preach_start cfg w t w')
  then show ?case
    by (auto simp: make_tracker_def process_inv_def dest: new_tracker_open intro: creach_new)
next
  case (preach_step p p')
  then have "creachable P (sys p')"
    using pstep_csys [OF preach_step(2)] creach_step [of P "sys p" "sys p'"] by metis
  then show ?case using preach_step pstep_inv creachable_cinv by blast
qed

text \<open>So every property of the interleaved tracker holds inside the process.\<close>

lemma process_tracker: "preachable P p \<Longrightarrow> creachable P (sys p)"
  by (simp add: preachable_inv)

section \<open>The order of the shutdown\<close>

lemma finished_delivered:
  assumes "preachable P p" and "phase p \<in> {TrackerClosed, PoolClosed, SignalsStopped, Exited}"
  shows "delivered (sys p) = accepted (sys p) \<and> worker (ctr (sys p)) = Finished"
proof -
  have inv: "process_inv p" "cinv (sys p)" using preachable_inv [OF assms(1)] creachable_cinv by blast+
  then have fin: "worker (ctr (sys p)) = Finished"
    using assms(2) by (auto simp: process_inv_def after_close_def)
  then have "pending_jobs (ctr (sys p)) = []"
    using inv(2) by (simp add: cinv_def tracker_inv_def pending_jobs_def)
  with inv(2) fin show ?thesis by (simp add: cinv_def)
qed

text \<open>
  The pool is closed and NATS is drained only when the tracker is done: once \<open>run\<close> is past
  \<open>tracker.Close\<close>, the worker has left its loop and every status update that was ever accepted has
  been performed, in the order of acceptance, whatever the other goroutines did meanwhile.
\<close>

theorem updates_delivered_before_drain:
  assumes "preachable P p" and "phase p \<in> {TrackerClosed, PoolClosed, SignalsStopped, Exited}"
  shows "delivered (sys p) = accepted (sys p) \<and> worker (ctr (sys p)) = Finished"
  using finished_delivered [OF assms] .

text \<open>
  The process never crashes while it serves: no step out of a state before \<open>tracker.Close\<close> ends in a
  panic, and when there is a panic it is the send on the tracker's closed channel.
\<close>

theorem crash_only_after_close:
  assumes "preachable P p" and "pstep P p p'" and "phase p' = Crashed msg"
  shows "phase p \<notin> {Serving, Unwinding, MetricsDown} \<and> dispatchClosed (ctr (sys p))
    \<and> msg = ''send on closed channel''"
proof -
  note inv = preachable_inv [OF assms(1)]
  have closed: "dispatchClosed (ctr (sys p)) \<and> msg = ''send on closed channel''"
    using assms(2,3)
    by cases (use inv in \<open>auto simp: process_inv_def alive_def dest: telemetry_panic dispatch_panic\<close>)
  then show ?thesis using inv by (auto simp: process_inv_def before_close_def)
qed

text \<open>A process that is about to wait for its worker, with one update accepted and not yet performed.\<close>

lemma closing_reachable:
  assumes start: "make_tracker P cfg w = Ret (t, w')" and room: "0 < sint (GatewayBufferSize cfg)" and ticks: "tickers_start cfg"
  shows "\<exists>p. preachable P p \<and> phase p = Closing \<and> ctx_done p \<and> pc (sys p) = Tick_idle
    \<and> dispatchClosed (ctr (sys p)) \<and> worker (ctr (sys p)) = Ready
    \<and> dispatchCh (ctr (sys p)) = [online_job ''g'' 0] \<and> accepted (sys p) = [online_job ''g'' 0]
    \<and> delivered (sys p) = [] \<and> beats (ctr (sys p)) (GatewayKey ''t'' ''h'') = None"
proof -
  let ?s0 = "\<lparr>ctr = t, cw = w', pc = Tick_idle, hist = [], offered = [], accepted = [], delivered = []\<rparr>"
  let ?p0 = "\<lparr>sys = ?s0, phase = Serving, ctx_done = False, ticking = True\<rparr>"
  let ?k = "GatewayKey ''t'' ''g''"
  have fresh: "\<not> dispatchClosed t" "worker t = Ready" "dispatchCh t = []" "0 < dispatchCap t"
    "beats t = Map.empty"
    using start room
    by (auto simp: make_tracker_def NewHeartbeatTracker_def Let_def split: prod.splits if_splits)
  obtain t1 w1 where first: "telemetry_locked 0 ''t'' ''g'' (t, w') = Ret (t1, w1)"
    and t1: "\<not> dispatchClosed t1" "worker t1 = Ready" "dispatchCh t1 = [online_job ''g'' 0]"
      "beats t1 = [?k \<mapsto> \<lparr>he_tenantID = ''t'', he_gatewayID = ''g'', lastSeen = 0, knownStatus = Online\<rparr>]"
    using fresh by (simp add: telemetry_locked_def Let_def dispatchStatusUpdate_def try_send_def online_job_def)
  let ?s1 = "(note_offer ?k (online_job ''g'' 0) ?s0)\<lparr>ctr := t1, cw := w1, hist := (?k, Came_online) # hist ?s0\<rparr>"
  let ?p1 = "?p0\<lparr>sys := ?s1\<rparr>"
  let ?p2 = "?p1\<lparr>ctx_done := True\<rparr>"
  let ?p3 = "?p2\<lparr>phase := Unwinding\<rparr>"
  let ?p4 = "?p3\<lparr>phase := MetricsDown\<rparr>"
  let ?p5 = "?p4\<lparr>phase := Closing, sys := (sys ?p4)\<lparr>ctr := close_channel (ctr (sys ?p4))\<rparr>\<rparr>"
  have "cstep P ?s0 ?s1"
    using c_online [of ?k "''t''" "''g''" ?s0 0 t1 w1 P] first fresh(5) by (simp add: fleet_of_def)
  then have "pstep P ?p0 ?p1" using p_goroutine [of ?p0 P ?s1] t1(1) fresh(1) by simp
  moreover have "pstep P ?p1 ?p2" by (rule p_signal) simp
  moreover have "pstep P ?p2 ?p3" by (rule p_run_returns) simp_all
  moreover have "pstep P ?p3 ?p4" by (rule p_metrics) simp
  moreover have "pstep P ?p4 ?p5" by (rule p_close) simp
  ultimately have "preachable P ?p5" by (meson preach_start [OF start ticks] preach_step)
  moreover have "can_accept t" using fresh by (simp add: can_accept_def)
  ultimately show ?thesis
    using t1 by (intro exI [of _ ?p5]) (simp add: close_channel_def note_offer_def)
qed

text \<open>
  C24. After the end of the context nothing stops the telemetry callback before NATS is drained, which is
  the last deferred action. From every configuration with positive intervals and room in the dispatch
  channel there is a run
  in which a termination signal arrives, the tracker closes its channel, a telemetry message of a
  gateway not seen before comes in, and the process crashes with an accepted status update undelivered.
\<close>

theorem shutdown_can_crash:
  assumes "make_tracker P cfg w = Ret (t, w')" and "0 < sint (GatewayBufferSize cfg)" and "tickers_start cfg"
  shows "\<exists>p. preachable P p \<and> ctx_done p \<and> phase p = Crashed ''send on closed channel''
    \<and> delivered (sys p) \<noteq> accepted (sys p)"
proof -
  obtain p where p: "preachable P p" "phase p = Closing" "ctx_done p" "dispatchClosed (ctr (sys p))"
      "accepted (sys p) = [online_job ''g'' 0]" "delivered (sys p) = []"
      "beats (ctr (sys p)) (GatewayKey ''t'' ''h'') = None"
    using closing_reachable [OF assms] by blast
  have "telemetry_locked 0 ''t'' ''h'' (ctr (sys p), cw (sys p)) = Panic ''send on closed channel''"
    using p(4,7) by (simp add: telemetry_locked_def Let_def dispatch_closed)
  then have "preachable P (p\<lparr>phase := Crashed ''send on closed channel''\<rparr>)"
    using p(2) by (intro preach_step [OF p(1)] p_telemetry_panic) simp_all
  then show ?thesis
    using p by (intro exI [of _ "p\<lparr>phase := Crashed ''send on closed channel''\<rparr>"]) simp
qed

section \<open>A shutdown can be completed\<close>

abbreviation psteps :: "'x driven_ports \<Rightarrow> 'x process \<Rightarrow> 'x process \<Rightarrow> bool" where
  "psteps P \<equiv> (pstep P)\<^sup>*\<^sup>*"

lemma preachable_steps: "psteps P p p' \<Longrightarrow> preachable P p \<Longrightarrow> preachable P p'"
  by (induction rule: rtranclp_induct) (auto intro: preach_step)

text \<open>The work that is left for the worker once the channel is closed.\<close>

definition worker_load :: "tracker \<Rightarrow> nat" where
  "worker_load t = 2 * length (dispatchCh t)
     + (case worker t of Ready \<Rightarrow> 1 | Got j \<Rightarrow> 2 | _ \<Rightarrow> 0)"

lemma worker_turn:
  assumes "preachable P p" and "phase p = Closing" and "worker (ctr (sys p)) \<noteq> Finished"
  shows "\<exists>p'. pstep P p p' \<and> phase p' = Closing \<and> worker_load (ctr (sys p')) < worker_load (ctr (sys p))"
proof -
  let ?s = "sys p"
  have inv: "process_inv p" "cinv ?s" using preachable_inv [OF assms(1)] creachable_cinv by blast+
  then have closed: "dispatchClosed (ctr ?s)" and awake: "worker (ctr ?s) \<noteq> Parked"
    using assms(2) by (auto simp: process_inv_def cinv_def tracker_inv_def)
  have step: "pstep P p (p\<lparr>sys := s\<rparr>)"
    if "cstep P ?s s" "dispatchClosed (ctr s) = dispatchClosed (ctr ?s)" "pc s = pc ?s" for s
    by (rule p_goroutine) (use that assms(2) in simp_all)
  show ?thesis
  proof (cases "worker (ctr ?s)")
    case Ready
    then have "pstep P p (p\<lparr>sys := ?s\<lparr>ctr := worker_receive (ctr ?s)\<rparr>\<rparr>)"
      by (intro step c_receive) simp_all
    then show ?thesis
      using Ready closed assms(2)
      by (intro exI [of _ "p\<lparr>sys := ?s\<lparr>ctr := worker_receive (ctr ?s)\<rparr>\<rparr>"])
        (auto simp: worker_load_def worker_receive_def split: list.splits)
  next
    case (Got j)
    obtain t' w' where wp: "worker_perform P j (ctr ?s, cw ?s) = (t', w')" by fastforce
    then have t': "t' = (ctr ?s)\<lparr>worker := Ready\<rparr>" by (simp add: worker_perform_eq)
    let ?s' = "?s\<lparr>ctr := t', cw := w', delivered := delivered ?s @ [j]\<rparr>"
    have "pstep P p (p\<lparr>sys := ?s'\<rparr>)"
      by (rule step) (use c_perform [OF Got wp] t' in simp_all)
    then show ?thesis
      using Got assms(2) by (intro exI [of _ "p\<lparr>sys := ?s'\<rparr>"]) (simp add: worker_load_def t')
  qed (use assms(3) awake in simp_all)
qed

lemma closing_finishes:
  assumes "preachable P p" and "phase p = Closing"
  shows "\<exists>p'. psteps P p p' \<and> phase p' = TrackerClosed"
  using assms
proof (induction "worker_load (ctr (sys p))" arbitrary: p rule: less_induct)
  case less
  show ?case
  proof (cases "worker (ctr (sys p)) = Finished")
    case True
    then have "pstep P p (p\<lparr>phase := TrackerClosed\<rparr>)" using less.prems(2) by (intro p_closed)
    then show ?thesis by (intro exI [of _ "p\<lparr>phase := TrackerClosed\<rparr>"]) auto
  next
    case False
    from worker_turn [OF less.prems False] obtain p1 where p1: "pstep P p p1" "phase p1 = Closing"
      "worker_load (ctr (sys p1)) < worker_load (ctr (sys p))" by blast
    from less.hyps [OF p1(3) preach_step [OF less.prems(1) p1(1)] p1(2)] p1(1)
    show ?thesis by (meson converse_rtranclp_into_rtranclp)
  qed
qed

text \<open>Each deferred action leads to the next one, so the main goroutine comes to the end of \<open>run\<close>.\<close>

definition comes_to :: "'x driven_ports \<Rightarrow> 'x process \<Rightarrow> run_phase \<Rightarrow> bool" where
  "comes_to P p ph \<longleftrightarrow> (\<exists>p'. psteps P p p' \<and> phase p' = ph)"

lemma comes_to_here: "phase p = ph \<Longrightarrow> comes_to P p ph"
  unfolding comes_to_def by blast

lemma comes_to_next:
  assumes "comes_to P p ph" and "\<And>q. phase q = ph \<Longrightarrow> \<exists>q'. psteps P q q' \<and> phase q' = ph'"
  shows "comes_to P p ph'"
proof -
  from assms(1) obtain q where q: "psteps P p q" "phase q = ph" unfolding comes_to_def by blast
  from assms(2) [OF q(2)] obtain r where r: "psteps P q r" "phase r = ph'" by blast
  show ?thesis unfolding comes_to_def using rtranclp_trans [OF q(1) r(1)] r(2) by blast
qed

lemma comes_to_step:
  assumes "comes_to P p ph" and "\<And>q. phase q = ph \<Longrightarrow> pstep P q (q' q) \<and> phase (q' q) = ph'"
  shows "comes_to P p ph'"
  using assms(1)
proof (rule comes_to_next)
  fix q :: "'a process" assume "phase q = ph"
  from assms(2) [OF this] show "\<exists>r. psteps P q r \<and> phase r = ph'" by blast
qed

lemma comes_to_unwinding: "comes_to P p Serving \<Longrightarrow> comes_to P p Unwinding"
proof (erule comes_to_next)
  fix q :: "'a process" assume q: "phase q = Serving"
  then have "pstep P q (q\<lparr>ctx_done := True\<rparr>)" by (intro p_signal) simp
  moreover have "pstep P (q\<lparr>ctx_done := True\<rparr>) (q\<lparr>ctx_done := True, phase := Unwinding\<rparr>)"
    using q p_run_returns [of "q\<lparr>ctx_done := True\<rparr>" P] by simp
  ultimately show "\<exists>q'. psteps P q q' \<and> phase q' = Unwinding"
    by (intro exI [of _ "q\<lparr>ctx_done := True, phase := Unwinding\<rparr>"]) auto
qed

lemma comes_to_closing: "comes_to P p Unwinding \<Longrightarrow> comes_to P p Closing"
proof -
  assume "comes_to P p Unwinding"
  then have "comes_to P p MetricsDown"
    by (rule comes_to_step [where q' = "\<lambda>q. q\<lparr>phase := MetricsDown\<rparr>"]) (simp add: p_metrics)
  then show ?thesis
    by (rule comes_to_step [where q' = "\<lambda>q. q\<lparr>phase := Closing,
          sys := (sys q)\<lparr>ctr := close_channel (ctr (sys q))\<rparr>\<rparr>"]) (simp add: p_close)
qed

lemma comes_to_closed:
  assumes "preachable P p" and "comes_to P p Closing"
  shows "comes_to P p TrackerClosed"
  using assms closing_finishes preachable_steps unfolding comes_to_def
  by (meson rtranclp_trans)

lemma comes_to_exit: "comes_to P p TrackerClosed \<Longrightarrow> comes_to P p Exited"
proof -
  assume "comes_to P p TrackerClosed"
  then have "comes_to P p PoolClosed"
    by (rule comes_to_step [where q' = "\<lambda>q. q\<lparr>phase := PoolClosed\<rparr>"]) (simp add: p_pool)
  then have "comes_to P p SignalsStopped"
    by (rule comes_to_step [where q' = "\<lambda>q. q\<lparr>phase := SignalsStopped, ctx_done := True\<rparr>"])
      (simp add: p_signals)
  then show ?thesis
    by (rule comes_to_step [where q' = "\<lambda>q. q\<lparr>phase := Exited\<rparr>"]) (simp add: p_drain)
qed

lemma alive_comes_to_exit:
  assumes "preachable P p" and "alive (phase p)"
  shows "comes_to P p Exited"
proof -
  note closing = comes_to_exit [OF comes_to_closed [OF assms(1)]]
  show ?thesis
  proof (cases "phase p")
    case Serving
    then show ?thesis by (intro closing comes_to_closing comes_to_unwinding comes_to_here)
  next
    case Unwinding
    then show ?thesis by (intro closing comes_to_closing comes_to_here)
  next
    case MetricsDown
    then have "comes_to P p Closing"
      by (intro comes_to_step [OF comes_to_here, where q' = "\<lambda>q. q\<lparr>phase := Closing,
          sys := (sys q)\<lparr>ctr := close_channel (ctr (sys q))\<rparr>\<rparr>"]) (auto simp: p_close)
    then show ?thesis by (rule closing)
  next
    case Closing
    then show ?thesis by (intro closing comes_to_here)
  next
    case TrackerClosed
    then show ?thesis by (intro comes_to_exit comes_to_here)
  next
    case PoolClosed
    then have "comes_to P p SignalsStopped"
      by (intro comes_to_step [OF comes_to_here, where q' = "\<lambda>q. q\<lparr>phase := SignalsStopped, ctx_done := True\<rparr>"])
        (auto simp: p_signals)
    then show ?thesis
      by (rule comes_to_step [where q' = "\<lambda>q. q\<lparr>phase := Exited\<rparr>"]) (simp add: p_drain)
  next
    case SignalsStopped
    then show ?thesis
      by (intro comes_to_step [OF comes_to_here, where q' = "\<lambda>q. q\<lparr>phase := Exited\<rparr>"])
        (auto simp: p_drain)
  qed (use assms(2) in simp_all)
qed

text \<open>
  C23. The shutdown is never stuck: from every state in which the process lives, a termination signal and
  further steps of its goroutines lead to an orderly exit, with every accepted update delivered.
\<close>

theorem shutdown_can_complete:
  assumes "preachable P p" and "alive (phase p)"
  shows "\<exists>p'. psteps P p p' \<and> phase p' = Exited \<and> delivered (sys p') = accepted (sys p')"
  using alive_comes_to_exit [OF assms] preachable_steps [OF _ assms(1)] finished_delivered
  unfolding comes_to_def by fastforce

section \<open>The exit code and the endpoints\<close>

text \<open>The actions of \<open>run\<close> whose failure ends it before the service is built.\<close>

definition acquisitions :: "config \<Rightarrow> string \<Rightarrow> startup_op list" where
  "acquisitions cfg dsn =
     [ConnectNATS (NATSUrl cfg) (NATSTlsCa cfg) (NATSTlsCert cfg) (NATSTlsKey cfg)
        (NATSConnectTimeoutSeconds cfg * second),
      OpenJetStream, ParsePoolConfig dsn, OpenPool (int32_of (DBMaxConns cfg)) (int32_of (DBMinConns cfg)),
      ApplyMigrations]"

definition serving_op :: "config \<Rightarrow> startup_op" where
  "serving_op cfg =
     RunTelemetryConsumer (NATSConsumerDurableName cfg) telemetryBatchSize telemetryFlushInterval"

lemma main_exit_error: "main_exit (Ret (Some e, x)) = 1"
  by (simp add: main_exit_def)

lemma attempt_outcome:
  assumes "\<And>op x. fst (act op x) = outcome op"
  shows "main_exit (attempt act op msg defers continue x) =
    (if outcome op = None then main_exit (continue (snd (act op x))) else 1)"
  using assms [of op x]
  by (cases "act op x") (auto simp: attempt_def main_exit_def split: option.splits)

lemma run_service_exit:
  assumes "\<And>op x. fst (act op x) = outcome op"
  shows "main_exit (run_service act cfg x) =
    (if sint (GatewayBufferSize cfg) < 0 then 2 else if outcome (serving_op cfg) = None then 0 else 1)"
  by (simp add: run_service_def Let_def attempt_outcome [where outcome = outcome, OF assms] serving_op_def)
    (simp add: main_exit_def)


text \<open>
  The health endpoint answers 200 while the database answers, and 503 with the text of the error
  otherwise; no other path reaches the database.
\<close>

lemma healthz_status:
  "http_status (fst (healthz ping x)) = (if fst (ping x) = None then 200 else 503)"
  by (cases "ping x") (simp add: healthz_def http_error_def split: option.splits)

lemma serve_http_pings:
  assumes "path \<noteq> ''/healthz''" and "path \<noteq> ''/metrics''"
  shows "http_status (fst (serve_http prometheus ping path x)) = 404 \<and> snd (serve_http prometheus ping path x) = x"
  using assms by (simp add: serve_http_def http_error_def)

text \<open>Reconnections of NATS are counted one by one.\<close>

lemma on_reconnect_counts: "NATSReconnects (mtr ((on_reconnect ^^ n) w)) = NATSReconnects (mtr w) + n"
  by (induction n) (simp_all add: on_reconnect_def metric_defs)

section \<open>The components as built\<close>

lemma make_tracker_returns: "(\<exists>s. make_tracker P cfg w = Ret s) \<longleftrightarrow> 0 \<le> sint (GatewayBufferSize cfg)"
  by (auto simp: make_tracker_def NewHeartbeatTracker_def Let_def not_less split: prod.splits)

text \<open>Until the first list arrives every lookup in the cache gives the configured default.\<close>

lemma make_cache_default:
  "cache_TimeoutFor (make_cache J rr now race cfg) tenantID gatewayID = AlertConfigDefaultTimeoutMs cfg"
  by (simp add: make_cache_def NewAlertConfigCache_def cache_TimeoutFor_def snapshot_timeout_def
      empty_snapshot_def Let_def)

lemma make_timer_runs:
  "tickers_start cfg \<Longrightarrow> 0 < sint (timer_interval (make_timer ticker now cfg))"
  by (simp add: tickers_start_def make_timer_def NewHeartbeatTickTimer_def)

section \<open>Witnesses\<close>

definition demo_config :: config where
  "demo_config = initial_config demo_environment"

lemma demo_buffer: "GatewayBufferSize demo_config = 1000"
  by (simp add: demo_config_def initial_config_def)

lemma demo_tickers: "tickers_start demo_config"
  by (simp add: tickers_start_def demo_config_def initial_config_def of_ms_def millisecond_def)

lemma demo_tracker_made: "\<exists>t w'. make_tracker demo_P demo_config (demo_world 0) = Ret (t, w')"
  by (simp add: make_tracker_def NewHeartbeatTracker_def demo_buffer Let_def split: prod.splits)

lemma demo_closing:
  "\<exists>p. preachable demo_P p \<and> phase p = Closing \<and> dispatchClosed (ctr (sys p)) \<and> worker (ctr (sys p)) = Ready
    \<and> dispatchCh (ctr (sys p)) = [online_job ''g'' 0] \<and> accepted (sys p) = [online_job ''g'' 0]
    \<and> delivered (sys p) = [] \<and> beats (ctr (sys p)) (GatewayKey ''t'' ''h'') = None"
  using demo_tracker_made closing_reachable [of demo_P demo_config "demo_world 0"] demo_buffer demo_tickers by fastforce

theorem shutdown_can_crash_witness:
  "\<exists>p. preachable demo_P p \<and> phase p = Crashed ''send on closed channel'' \<and> delivered (sys p) \<noteq> accepted (sys p)"
  using demo_tracker_made shutdown_can_crash [of demo_P demo_config "demo_world 0"] demo_buffer demo_tickers by fastforce

theorem shutdown_can_complete_witness:
  "\<exists>p p'. phase p = Closing \<and> delivered (sys p) \<noteq> accepted (sys p)
    \<and> psteps demo_P p p' \<and> phase p' = Exited \<and> delivered (sys p') = accepted (sys p')"
proof -
  obtain p where "preachable demo_P p" "phase p = Closing" "accepted (sys p) = [online_job ''g'' 0]"
      "delivered (sys p) = []"
    using demo_closing by blast
  with shutdown_can_complete [of demo_P p] show ?thesis by fastforce
qed

theorem crash_only_after_close_witness:
  "\<exists>p. pstep demo_P p (p\<lparr>phase := Crashed ''send on closed channel''\<rparr>) \<and> phase p = Closing
    \<and> dispatchClosed (ctr (sys p))"
proof -
  obtain p where p: "preachable demo_P p" "phase p = Closing" "dispatchClosed (ctr (sys p))"
      "beats (ctr (sys p)) (GatewayKey ''t'' ''h'') = None"
    using demo_closing by blast
  have "telemetry_locked 0 ''t'' ''h'' (ctr (sys p), cw (sys p)) = Panic ''send on closed channel''"
    using p(3,4) by (simp add: telemetry_locked_def Let_def dispatch_closed)
  then have "pstep demo_P p (p\<lparr>phase := Crashed ''send on closed channel''\<rparr>)"
    using p(2) by (intro p_telemetry_panic) simp_all
  with crash_only_after_close [OF p(1) this] p(2) show ?thesis by auto
qed

theorem updates_delivered_before_drain_witness:
  "\<exists>p. preachable demo_P p \<and> phase p = TrackerClosed \<and> accepted (sys p) = [online_job ''g'' 0]
    \<and> delivered (sys p) = [online_job ''g'' 0] \<and> worker (ctr (sys p)) = Finished"
proof -
  obtain p where p: "preachable demo_P p" "phase p = Closing" "dispatchClosed (ctr (sys p))"
      "worker (ctr (sys p)) = Ready" "dispatchCh (ctr (sys p)) = [online_job ''g'' 0]"
      "accepted (sys p) = [online_job ''g'' 0]" "delivered (sys p) = []"
    using demo_closing by blast
  let ?s1 = "(sys p)\<lparr>ctr := worker_receive (ctr (sys p))\<rparr>"
  obtain t' w' where wp: "worker_perform demo_P (online_job ''g'' 0) (ctr ?s1, cw ?s1) = (t', w')" by fastforce
  then have t': "t' = (ctr ?s1)\<lparr>worker := Ready\<rparr>" by (simp add: worker_perform_eq)
  let ?s2 = "?s1\<lparr>ctr := t', cw := w', delivered := delivered ?s1 @ [online_job ''g'' 0]\<rparr>"
  let ?s3 = "?s2\<lparr>ctr := worker_receive (ctr ?s2)\<rparr>"
  have got: "ctr ?s1 = (ctr (sys p))\<lparr>dispatchCh := [], worker := Got (online_job ''g'' 0)\<rparr>"
    using p(5) by (simp add: worker_receive_def)
  have "cstep demo_P (sys p) ?s1" by (rule c_receive [OF p(4)])
  then have "pstep demo_P p (p\<lparr>sys := ?s1\<rparr>)" using p(2) by (intro p_goroutine) simp_all
  then have r1: "preachable demo_P (p\<lparr>sys := ?s1\<rparr>)" by (rule preach_step [OF p(1)])
  have "cstep demo_P ?s1 ?s2" using c_perform [of ?s1 "online_job ''g'' 0", OF _ wp] got by simp
  then have "pstep demo_P (p\<lparr>sys := ?s1\<rparr>) (p\<lparr>sys := ?s1\<rparr>\<lparr>sys := ?s2\<rparr>)"
    using p(2) t' by (intro p_goroutine) simp_all
  then have r2: "preachable demo_P (p\<lparr>sys := ?s2\<rparr>)" using preach_step [OF r1] by simp
  have "cstep demo_P ?s2 ?s3" using t' by (intro c_receive) simp
  then have "pstep demo_P (p\<lparr>sys := ?s2\<rparr>) (p\<lparr>sys := ?s2\<rparr>\<lparr>sys := ?s3\<rparr>)"
    using p(2) by (intro p_goroutine) simp_all
  then have r3: "preachable demo_P (p\<lparr>sys := ?s3\<rparr>)" using preach_step [OF r2] by simp
  have fin: "worker (ctr ?s3) = Finished" using t' got p(3) by (simp add: worker_receive_def)
  then have "pstep demo_P (p\<lparr>sys := ?s3\<rparr>) (p\<lparr>sys := ?s3\<rparr>\<lparr>phase := TrackerClosed\<rparr>)"
    using p(2) by (intro p_closed) simp_all
  then have r4: "preachable demo_P (p\<lparr>sys := ?s3, phase := TrackerClosed\<rparr>)" using preach_step [OF r3] by simp
  from updates_delivered_before_drain [OF this] fin p(6) r4 show ?thesis
    by (intro exI [of _ "p\<lparr>sys := ?s3, phase := TrackerClosed\<rparr>"]) simp
qed


end
