(* ===== verification/Deployment.thy ===== *)
theory Deployment
  imports Context_End Process_Props
begin

text \<open>
  The whole program: the components as \<open>run\<close> of \<open>cmd/consumer/main.go\<close> wires them from one configuration,
  with everything that its goroutines share in one state, from the start of the goroutines to the end of
  the process. It puts together the composed service (\<open>Service\<close>), the cache with its refresh loop
  (\<open>Alert_Cache\<close>) and the deferred actions of \<open>run\<close> (\<open>Process\<close>).
\<close>

section \<open>What is shared and what is outside\<close>

text \<open>
  The outside of the components: the pointer through which the cache publishes its snapshots
  (\<open>atomic.Pointer\<close> in \<open>alert_config_cache.go\<close>), the context that \<open>signal.NotifyContext\<close> gives, and the
  rest: network, database, clock.
\<close>

record 'z shared =
  pointer :: alert_config_snapshot
  context_over :: bool
  beyond :: 'z

text \<open>
  What is not in the repository, as functions on the outside; \<open>answer_of\<close> and \<open>dismiss_of\<close> answer the
  messages of the two subscriptions.
\<close>

record ('x, 'b) surroundings =
  js_of :: "'x js_publish"
  nc_of :: "duration \<Rightarrow> string \<Rightarrow> string \<Rightarrow> 'x \<Rightarrow> (string + string) \<times> 'x"
  race_of :: "duration \<Rightarrow> 'x \<Rightarrow> string option \<times> 'x"
  wall_clock :: "'x \<Rightarrow> time \<times> 'x"
  pool_of :: "('x, 'b) db_pool"
  answer_of :: "nats_msg \<Rightarrow> answer \<Rightarrow> 'x \<Rightarrow> string option \<times> 'x"
  dismiss_of :: "nats_msg \<Rightarrow> answer \<Rightarrow> 'x \<Rightarrow> string option \<times> 'x"

section \<open>The components as they are wired\<close>

definition deployed_rr :: "('x, 'b) surroundings \<Rightarrow> 'x rr_client" where
  "deployed_rr E = make_rr (nc_of E) (race_of E)"

definition deployed_cache ::
    "json_codec \<Rightarrow> ('x, 'b) surroundings \<Rightarrow> config \<Rightarrow> 'x alert_config_cache" where
  "deployed_cache J E cfg = make_cache J (deployed_rr E) (wall_clock E) (race_of E) cfg"

definition deployed_ports ::
    "json_codec \<Rightarrow> ('z shared, 'b) surroundings \<Rightarrow> config \<Rightarrow> 'z shared driven_ports" where
  "deployed_ports J E cfg =
     service_ports J (js_of E) (deployed_rr E) (wall_clock E) pointer (AlertConfigDefaultTimeoutMs cfg)"

definition deployed_writer ::
    "('x, 'b) surroundings \<Rightarrow> telemetry_row list \<Rightarrow> 'x \<Rightarrow> go_error option \<times> 'x" where
  "deployed_writer E = Writer_WriteBatch (NewPostgresTelemetryWriter (pool_of E))"

definition deployed_consumer ::
    "json_codec \<Rightarrow> ('z shared, 'b) surroundings \<Rightarrow> config \<Rightarrow> (tracker \<times> 'z shared) telemetry_consumer" where
  "deployed_consumer J E cfg =
     make_consumer (tracker_handler (deployed_ports J E cfg)) (\<lambda>rows. on_outside (deployed_writer E rows))
       (service_answer (answer_of E)) (on_outside (wall_clock E)) cfg"

lemma deployed_consumer_service:
  "deployed_consumer J E cfg =
     service_consumer (deployed_ports J E cfg) (deployed_writer E) (answer_of E) (wall_clock E)
       (NATSConsumerDurableName cfg) telemetryBatchSize telemetryFlushInterval"
  by (simp add: deployed_consumer_def make_consumer_def service_consumer_def)

section \<open>States\<close>

text \<open>
  What happened to the timeouts, newest first: a list of configurations that arrived, a refresh that
  failed, and an alert that went out, with the heartbeat and the clock reading that it rests on.
\<close>

datatype timeout_event =
    List_arrived "alert_config list"
  | Refresh_failed
  | Alert_out gateway_key time time

record 'z deployment =
  srv :: "'z shared service"
  cache :: "'z shared alert_config_cache"
  stage :: run_phase
  ticker_on :: bool
  subscribed :: bool
  news :: "timeout_event list"

definition shared_of :: "'z deployment \<Rightarrow> 'z shared" where
  "shared_of d = ext (cw (core (srv d)))"

text \<open>The service with another tracker and another world, seen by both components.\<close>

definition put_world :: "tracker \<Rightarrow> 'x world \<Rightarrow> 'x service \<Rightarrow> 'x service" where
  "put_world t w s = s\<lparr>core := (core s)\<lparr>ctr := t, cw := w\<rparr>,
     inbox := (inbox s)\<lparr>cs_world := adapter_view (t, w)\<rparr>\<rparr>"

text \<open>
  What a step of the service may do at a stage of the process. Only the cache moves the pointer, only
  the main goroutine closes the dispatch channel and only a signal ends the context; the consumer acts
  only once it is subscribed and sees the end of the context only when there is one; a check starts only
  while the timer is in its loop.
\<close>

definition allowed :: "'z deployment \<Rightarrow> 'z shared service \<Rightarrow> bool" where
  "allowed d s \<longleftrightarrow>
     pointer (ext (cw (core s))) = pointer (shared_of d)
     \<and> context_over (ext (cw (core s))) = context_over (shared_of d)
     \<and> dispatchClosed (ctr (core s)) = dispatchClosed (ctr (core (srv d)))
     \<and> (inbox s = (inbox (srv d))\<lparr>cs_world := cs_world (inbox s)\<rparr> \<or> subscribed d)
     \<and> (cs_done (inbox s) \<longrightarrow> cs_done (inbox (srv d)) \<or> context_over (shared_of d))
     \<and> (pc (core (srv d)) = Tick_idle \<and> pc (core s) \<noteq> Tick_idle \<longrightarrow> ticker_on d)"

text \<open>The alert that a step of the timer publishes, if it does.\<close>

definition alert_between :: "'x csys \<Rightarrow> 'x csys \<Rightarrow> timeout_event list" where
  "alert_between k k' =
     (case (pc k, pc k') of
        (Tick_loop now (e # es), Tick_dispatch now' e' es') \<Rightarrow> [Alert_out (entry_key e) (lastSeen e) now]
      | _ \<Rightarrow> [])"

section \<open>Steps\<close>

text \<open>
  A refresh is one step, taken when the answer is there and the new snapshot is stored; what the request
  does outside before that is a step of the others. As in \<open>Process\<close>, the goroutines go on until the process
  ends, and \<open>d_subscribe_failed\<close> is the telemetry consumer's \<open>Run\<close> returning an error at once.
\<close>

inductive dstep ::
    "json_codec \<Rightarrow> ('z shared, 'b) surroundings \<Rightarrow> config
      \<Rightarrow> ((tracker \<times> 'z shared) world \<Rightarrow> (tracker \<times> 'z shared) world \<Rightarrow> bool)
      \<Rightarrow> 'z deployment \<Rightarrow> 'z deployment \<Rightarrow> bool"
  for J E cfg env
where
  d_service: "alive (stage d)
     \<Longrightarrow> service_step (deployed_ports J E cfg) J (deployed_consumer J E cfg) (dismiss_of E) env (srv d) s
     \<Longrightarrow> allowed d s
     \<Longrightarrow> dstep J E cfg env d (d\<lparr>srv := s, news := alert_between (core (srv d)) (core s) @ news d\<rparr>)"
| d_refreshed: "alive (stage d)
     \<Longrightarrow> cache_rrClient (cache d) (shared_of d) = Ret (Inr configs, x)
     \<Longrightarrow> refresh (cache d) (cw (core (srv d))) = Ret (None, c, w)
     \<Longrightarrow> w' = w\<lparr>ext := (ext w)\<lparr>pointer := snapshot_ptr c, context_over := context_over (shared_of d)\<rparr>\<rparr>
     \<Longrightarrow> env (cs_world (inbox (srv d))) (adapter_view (ctr (core (srv d)), w'))
     \<Longrightarrow> dstep J E cfg env d
           (d\<lparr>srv := put_world (ctr (core (srv d))) w' (srv d), cache := c, news := List_arrived configs # news d\<rparr>)"
| d_refresh_failed: "alive (stage d)
     \<Longrightarrow> refresh (cache d) (cw (core (srv d))) = Ret (Some err, c, w)
     \<Longrightarrow> w' = (with_metrics IncAlertCacheRefreshErrors w)
           \<lparr>ext := (ext w)\<lparr>pointer := snapshot_ptr c, context_over := context_over (shared_of d)\<rparr>\<rparr>
     \<Longrightarrow> env (cs_world (inbox (srv d))) (adapter_view (ctr (core (srv d)), w'))
     \<Longrightarrow> dstep J E cfg env d
           (d\<lparr>srv := put_world (ctr (core (srv d))) w' (srv d), cache := c, news := Refresh_failed # news d\<rparr>)"
| d_telemetry_panic: "alive (stage d) \<Longrightarrow> subscribed d \<Longrightarrow> cs_inflight (inbox (srv d)) = None
     \<Longrightarrow> on_message J (deployed_consumer J E cfg) msg (cs_world (inbox (srv d))) = Panic p
     \<Longrightarrow> dstep J E cfg env d (d\<lparr>stage := Crashed p\<rparr>)"
| d_tick_panic: "alive (stage d) \<Longrightarrow> pc (core (srv d)) = Tick_dispatch now e es
     \<Longrightarrow> dispatchStatusUpdate (offline_update e) (ctr (core (srv d)), cw (core (srv d))) = Panic p
     \<Longrightarrow> dstep J E cfg env d (d\<lparr>stage := Crashed p\<rparr>)"
| d_signal: "alive (stage d)
     \<Longrightarrow> w' = (cw (core (srv d)))\<lparr>ext := (shared_of d)\<lparr>context_over := True\<rparr>\<rparr>
     \<Longrightarrow> env (cs_world (inbox (srv d))) (adapter_view (ctr (core (srv d)), w'))
     \<Longrightarrow> dstep J E cfg env d (d\<lparr>srv := put_world (ctr (core (srv d))) w' (srv d)\<rparr>)"
| d_timer_stops: "alive (stage d) \<Longrightarrow> context_over (shared_of d) \<Longrightarrow> pc (core (srv d)) = Tick_idle
     \<Longrightarrow> dstep J E cfg env d (d\<lparr>ticker_on := False\<rparr>)"
| d_subscribe: "stage d = Serving \<Longrightarrow> \<not> subscribed d \<Longrightarrow> dstep J E cfg env d (d\<lparr>subscribed := True\<rparr>)"
| d_subscribe_failed: "stage d = Serving \<Longrightarrow> \<not> subscribed d
     \<Longrightarrow> dstep J E cfg env d (d\<lparr>stage := Unwinding\<rparr>)"
| d_run_returns: "stage d = Serving \<Longrightarrow> subscribed d \<Longrightarrow> \<not> cs_running (inbox (srv d))
     \<Longrightarrow> dstep J E cfg env d (d\<lparr>stage := Unwinding\<rparr>)"
| d_metrics: "stage d = Unwinding \<Longrightarrow> dstep J E cfg env d (d\<lparr>stage := MetricsDown\<rparr>)"
| d_close: "stage d = MetricsDown \<Longrightarrow> t = close_channel (ctr (core (srv d)))
     \<Longrightarrow> env (cs_world (inbox (srv d))) (adapter_view (t, cw (core (srv d))))
     \<Longrightarrow> dstep J E cfg env d (d\<lparr>stage := Closing, srv := put_world t (cw (core (srv d))) (srv d)\<rparr>)"
| d_closed: "stage d = Closing \<Longrightarrow> worker (ctr (core (srv d))) = Finished
     \<Longrightarrow> dstep J E cfg env d (d\<lparr>stage := TrackerClosed\<rparr>)"
| d_pool: "stage d = TrackerClosed \<Longrightarrow> dstep J E cfg env d (d\<lparr>stage := PoolClosed\<rparr>)"
| d_signals: "stage d = PoolClosed
     \<Longrightarrow> w' = (cw (core (srv d)))\<lparr>ext := (shared_of d)\<lparr>context_over := True\<rparr>\<rparr>
     \<Longrightarrow> env (cs_world (inbox (srv d))) (adapter_view (ctr (core (srv d)), w'))
     \<Longrightarrow> dstep J E cfg env d (d\<lparr>stage := SignalsStopped, srv := put_world (ctr (core (srv d))) w' (srv d)\<rparr>)"
| d_drain: "stage d = SignalsStopped \<Longrightarrow> dstep J E cfg env d (d\<lparr>stage := Exited\<rparr>)"

text \<open>
  The start: a new tracker, a new cache whose empty snapshot is the one published, a consumer that is
  not yet subscribed. As in \<open>Process\<close>, configurations whose tickers panic are left out.
\<close>

inductive dreachable ::
    "json_codec \<Rightarrow> ('z shared, 'b) surroundings \<Rightarrow> config
      \<Rightarrow> ((tracker \<times> 'z shared) world \<Rightarrow> (tracker \<times> 'z shared) world \<Rightarrow> bool)
      \<Rightarrow> (tracker \<times> 'z shared) world \<Rightarrow> 'z deployment \<Rightarrow> bool"
  for J E cfg env w0
where
  d_start: "make_tracker (deployed_ports J E cfg) cfg w = Ret (t, w') \<Longrightarrow> w0 = adapter_view (t, w')
     \<Longrightarrow> tickers_start cfg
     \<Longrightarrow> pointer (ext w') = snapshot_ptr (deployed_cache J E cfg) \<Longrightarrow> \<not> context_over (ext w')
     \<Longrightarrow> dreachable J E cfg env w0
           \<lparr>srv = \<lparr>core = \<lparr>ctr = t, cw = w', pc = Tick_idle, hist = [], offered = [], accepted = [], delivered = []\<rparr>,
              inbox = consumer_start w0, events = []\<rparr>,
            cache = deployed_cache J E cfg, stage = Serving, ticker_on = True, subscribed = False, news = []\<rparr>"
| d_step: "dreachable J E cfg env w0 d \<Longrightarrow> dstep J E cfg env d d' \<Longrightarrow> dreachable J E cfg env w0 d'"

end
