(* ===== verification/Deployment_Props.thy ===== *)
theory Deployment_Props
  imports Deployment
begin

text \<open>
  Properties of the whole program: each of its runs is a run of the composed service and of the process,
  the timeouts that alerts rest on, what the end of the context means for the telemetry that is still
  under way, and how the books stand when the process ends.
\<close>

section \<open>The deployment simulates into the service and into the process\<close>

definition process_of :: "'z deployment \<Rightarrow> 'z shared process" where
  "process_of d = \<lparr>sys = core (srv d), phase = stage d, ctx_done = context_over (shared_of d),
     ticking = ticker_on d\<rparr>"

text \<open>What the main goroutine, the consumer and the context owe each other.\<close>

definition untouched :: "'x consumer_sys \<Rightarrow> bool" where
  "untouched i \<longleftrightarrow> cs_inflight i = None \<and> cs_chan i = [] \<and> cs_buf i = [] \<and> cs_delivered i = [] \<and> cs_running i"

definition dinv :: "'z deployment \<Rightarrow> bool" where
  "dinv d \<longleftrightarrow> coupled (srv d)
     \<and> (cs_running (inbox (srv d)) \<or> cs_done (inbox (srv d)))
     \<and> (cs_done (inbox (srv d)) \<longrightarrow> context_over (shared_of d))
     \<and> (\<not> subscribed d \<longrightarrow> untouched (inbox (srv d)))
     \<and> (stage d = Serving \<or> (\<exists>msg. stage d = Crashed msg) \<or> \<not> subscribed d \<or> \<not> cs_running (inbox (srv d)))"

lemma put_world_simps [simp]:
  "ctr (core (put_world t w s)) = t" "cw (core (put_world t w s)) = w" "pc (core (put_world t w s)) = pc (core s)"
  "hist (core (put_world t w s)) = hist (core s)" "events (put_world t w s) = events s"
  "inbox (put_world t w s) = (inbox s)\<lparr>cs_world := adapter_view (t, w)\<rparr>" "coupled (put_world t w s)"
  "core (put_world t w s) = (core s)\<lparr>ctr := t, cw := w\<rparr>"
  by (simp_all add: put_world_def coupled_def)

lemma untouched_world [simp]: "untouched (i\<lparr>cs_world := w\<rparr>) = untouched i"
  by (simp add: untouched_def)

lemma put_world_outside:
  assumes "env (cs_world (inbox s)) (adapter_view (ctr (core s), w))"
  shows "service_step P J c dismiss env s (put_world (ctr (core s)) w s)"
proof -
  have same: "put_world (ctr (core s)) w s = s\<lparr>core := (core s)\<lparr>cw := w\<rparr>,
      inbox := (inbox s)\<lparr>cs_world := adapter_view (ctr ((core s)\<lparr>cw := w\<rparr>), cw ((core s)\<lparr>cw := w\<rparr>))\<rparr>\<rparr>"
    by (cases s; cases "core s") (simp add: put_world_def)
  show ?thesis
    unfolding same by (rule sv_tracker) (use assms in \<open>simp_all add: c_environment unheard_same\<close>)
qed

lemma put_world_close:
  assumes "env (cs_world (inbox s)) (adapter_view (close_channel (ctr (core s)), cw (core s)))"
    and "\<not> dispatchClosed (ctr (core s))"
  shows "service_step P J c dismiss env s (put_world (close_channel (ctr (core s))) (cw (core s)) s)"
proof -
  let ?t = "close_channel (ctr (core s))"
  have same: "put_world ?t (cw (core s)) s = s\<lparr>core := (core s)\<lparr>ctr := ?t\<rparr>,
      inbox := (inbox s)\<lparr>cs_world := adapter_view (ctr ((core s)\<lparr>ctr := ?t\<rparr>), cw ((core s)\<lparr>ctr := ?t\<rparr>))\<rparr>\<rparr>"
    by (cases s; cases "core s") (simp add: put_world_def)
  have "beats ?t = beats (ctr (core s))" by (simp add: close_channel_def)
  then show ?thesis
    unfolding same by (intro sv_tracker) (use assms in \<open>simp_all add: c_close unheard_same\<close>)
qed

lemma consumer_step_running:
  "consumer_step J c env i i' \<Longrightarrow> cs_running i \<or> cs_done i \<Longrightarrow> cs_running i' \<or> cs_done i'"
  by (erule consumer_step.cases) (auto simp: with_loop_def)

lemma consumer_step_stopped:
  "consumer_step J c env i i' \<Longrightarrow> \<not> cs_running i \<Longrightarrow> \<not> cs_running i'"
  by (erule consumer_step.cases) (auto simp: with_loop_def)

text \<open>The deployment's side conditions keep the invariant.\<close>

lemma allowed_simps:
  assumes "allowed d s"
  shows "context_over (ext (cw (core s))) = context_over (shared_of d)"
    "pointer (ext (cw (core s))) = pointer (shared_of d)"
    "dispatchClosed (ctr (core s)) = dispatchClosed (ctr (core (srv d)))"
    "\<not> subscribed d \<Longrightarrow> inbox s = (inbox (srv d))\<lparr>cs_world := cs_world (inbox s)\<rparr>"
    "cs_done (inbox s) \<Longrightarrow> cs_done (inbox (srv d)) \<or> context_over (shared_of d)"
  using assms by (auto simp: allowed_def)

lemma dstep_dinv:
  assumes "dstep J E cfg env d d'" and "dinv d"
  shows "dinv d'"
  using assms(1)
proof cases
  case (d_service s)
  note st = service_step_consumer [OF d_service(3)]
  have "coupled s" by (rule service_step_coupled [OF d_service(3)])
  moreover have "cs_running (inbox s) \<or> cs_done (inbox s)"
    using consumer_step_running [OF st] assms(2) by (simp add: dinv_def)
  moreover have "\<not> cs_running (inbox (srv d)) \<longrightarrow> \<not> cs_running (inbox s)"
    using consumer_step_stopped [OF st] by blast
  moreover have "untouched (inbox s)" if "\<not> subscribed d"
    using allowed_simps(4) [OF d_service(4) that] assms(2) that untouched_world
    by (metis dinv_def)
  ultimately show ?thesis
    using assms(2) d_service(1) allowed_simps(1,5) [OF d_service(4)]
    by (auto simp: dinv_def shared_of_def)
qed (use assms(2) in \<open>auto simp: dinv_def shared_of_def\<close>)

lemma dreachable_dinv: "dreachable J E cfg env w0 d \<Longrightarrow> dinv d"
proof (induction rule: dreachable.induct)
  case (d_start w t w')
  then show ?case by (simp add: dinv_def coupled_def consumer_start_def untouched_def shared_of_def)
next
  case (d_step d d')
  then show ?case using dstep_dinv by blast
qed

text \<open>The process: a quiet run of the tracker's system is a run of goroutine steps.\<close>

lemma quiet_psteps:
  assumes "(quiet P)\<^sup>*\<^sup>* (sys p) s" and "alive (phase p)"
  shows "psteps P p (p\<lparr>sys := s\<rparr>)"
  using assms(1)
proof (induction rule: rtranclp_induct)
  case base
  then show ?case by simp
next
  case (step s1 s2)
  then have "pstep P (p\<lparr>sys := s1\<rparr>) (p\<lparr>sys := s1, sys := s2\<rparr>)"
    using assms(2) p_goroutine [of "p\<lparr>sys := s1\<rparr>" P s2] by (simp add: quiet_def)
  then show ?case using step.IH by simp
qed

lemma world_psteps:
  assumes "alive (phase p)"
  shows "psteps P p (p\<lparr>sys := (sys p)\<lparr>ctr := ctr (sys p), cw := w\<rparr>\<rparr>)"
proof -
  have "(sys p)\<lparr>ctr := ctr (sys p), cw := w\<rparr> = (sys p)\<lparr>cw := w\<rparr>" by (cases "sys p") simp
  moreover have "(quiet P)\<^sup>*\<^sup>* (sys p) ((sys p)\<lparr>cw := w\<rparr>)" using quiet_environment by blast
  ultimately show ?thesis using quiet_psteps assms by metis
qed

text \<open>A delivery panics in the tracker, and whether it does depends on the tracker alone.\<close>

lemma dispatch_panic_world:
  "dispatchStatusUpdate u (t, w) = Panic p \<Longrightarrow> dispatchStatusUpdate u (t, w') = Panic p"
  by (auto simp: dispatchStatusUpdate_def try_send_def split: if_splits option.splits)

lemma telemetry_panic_world:
  "telemetry_locked now t g (tr, w) = Panic p \<Longrightarrow> telemetry_locked now t g (tr, w') = Panic p"
  by (auto simp: telemetry_locked_def Let_def split: option.splits if_splits intro: dispatch_panic_world)

lemma delivery_panic:
  assumes "on_message J (service_consumer P writer answer now d b e) msg w = Panic p"
  shows "\<exists>at t g. telemetry_locked at t g (fst (ext w), v) = Panic p"
proof -
  let ?c = "service_consumer P writer answer now d b e"
  have "processMessage J ?c msg (with_metrics IncMessagesReceived w) = Panic p"
    using assms by (auto simp: on_message_def go_bind_Panic_iff split: prod.splits)
  then obtain t env where "tracker_handler P t env (with_metrics IncMessagesReceived w) = Panic p"
    by (auto simp: processMessage_def go_bind_Panic_iff split: sum.splits option.splits)
  then show ?thesis
    by (auto simp: tracker_handler_def HandleTelemetry_def tracker_view_def Let_def go_bind_Panic_iff
        split: prod.splits intro: telemetry_panic_world)
qed

lemma process_of_simps [simp]:
  "sys (process_of d) = core (srv d)" "phase (process_of d) = stage d"
  "ctx_done (process_of d) = context_over (shared_of d)" "ticking (process_of d) = ticker_on d"
  by (simp_all add: process_of_def)

lemma dstep_process:
  assumes "dstep J E cfg env d d'" and "dinv d"
  shows "psteps (deployed_ports J E cfg) (process_of d) (process_of d')"
  using assms(1)
proof cases
  case (d_service s)
  have d': "process_of d' = (process_of d)\<lparr>sys := core s\<rparr>"
    using d_service(1) allowed_simps(1) [OF d_service(4)] by (simp add: process_of_def shared_of_def)
  have "coupled (srv d)" using assms(2) by (simp add: dinv_def)
  from service_step_tracker [OF d_service(3) [unfolded deployed_consumer_service] this]
  show ?thesis
  proof (elim disjE)
    assume "(quiet (deployed_ports J E cfg))\<^sup>*\<^sup>* (core (srv d)) (core s)"
    then show ?thesis using quiet_psteps [of _ "process_of d"] d_service(2) d' by simp
  next
    assume "cstep (deployed_ports J E cfg) (core (srv d)) (core s)"
    then show ?thesis
      using p_goroutine [of "process_of d" _ "core s"] d_service(2,4) d' by (auto simp: allowed_def)
  qed
next
  case (d_telemetry_panic msg p)
  obtain at t g where "telemetry_locked at t g (fst (ext (cs_world (inbox (srv d)))), cw (core (srv d))) = Panic p"
    using delivery_panic [OF d_telemetry_panic(5) [unfolded deployed_consumer_service]] by blast
  moreover have "fst (ext (cs_world (inbox (srv d)))) = ctr (core (srv d))"
    using assms(2) coupled_tracker [of "srv d"] by (simp add: dinv_def)
  ultimately have "pstep (deployed_ports J E cfg) (process_of d) ((process_of d)\<lparr>phase := Crashed p\<rparr>)"
    using d_telemetry_panic(2) by (intro p_telemetry_panic) simp_all
  then show ?thesis using d_telemetry_panic(1) by (simp add: process_of_def shared_of_def r_into_rtranclp)
next
  case (d_refreshed configs x c w w')
  then show ?thesis
    using world_psteps [of "process_of d" "deployed_ports J E cfg" w'] by (simp add: process_of_def shared_of_def)
next
  case (d_refresh_failed err c w w')
  then show ?thesis
    using world_psteps [of "process_of d" "deployed_ports J E cfg" w'] by (simp add: process_of_def shared_of_def)
next
  case (d_tick_panic now e es p)
  then show ?thesis
    using pstep.p_tick_panic [of "process_of d" now e es p "deployed_ports J E cfg"]
    by (simp add: process_of_def shared_of_def r_into_rtranclp)
next
  case (d_signal w')
  let ?p = "(process_of d)\<lparr>sys := (core (srv d))\<lparr>ctr := ctr (core (srv d)), cw := w'\<rparr>\<rparr>"
  have "pstep (deployed_ports J E cfg) ?p (?p\<lparr>ctx_done := True\<rparr>)" using d_signal(2) by (intro p_signal) simp
  then show ?thesis
    using world_psteps [of "process_of d" "deployed_ports J E cfg" w'] d_signal
    by (simp add: process_of_def shared_of_def)
next
  case d_timer_stops
  then show ?thesis
    using p_timer_stops [of "process_of d" "deployed_ports J E cfg"]
    by (simp add: process_of_def shared_of_def r_into_rtranclp)
next
  case d_subscribe
  then show ?thesis by (simp add: process_of_def shared_of_def)
next
  case d_subscribe_failed
  then show ?thesis
    using p_subscribe_failed [of "process_of d" "deployed_ports J E cfg"]
    by (simp add: process_of_def shared_of_def r_into_rtranclp)
next
  case d_run_returns
  then have "context_over (shared_of d)" using assms(2) by (auto simp: dinv_def)
  then show ?thesis
    using p_run_returns [of "process_of d" "deployed_ports J E cfg"] d_run_returns
    by (simp add: process_of_def shared_of_def r_into_rtranclp)
next
  case (d_signals w')
  let ?p = "(process_of d)\<lparr>sys := (core (srv d))\<lparr>ctr := ctr (core (srv d)), cw := w'\<rparr>\<rparr>"
  have "pstep (deployed_ports J E cfg) ?p (?p\<lparr>phase := SignalsStopped, ctx_done := True\<rparr>)"
    using d_signals(2) by (intro p_signals) simp
  then show ?thesis
    using world_psteps [of "process_of d" "deployed_ports J E cfg" w'] d_signals
    by (simp add: process_of_def shared_of_def alive_def)
qed (use p_metrics [of "process_of d" "deployed_ports J E cfg"] p_close [of "process_of d" "deployed_ports J E cfg"]
      p_closed [of "process_of d" "deployed_ports J E cfg"] p_pool [of "process_of d" "deployed_ports J E cfg"]
      p_drain [of "process_of d" "deployed_ports J E cfg"]
    in \<open>simp_all add: process_of_def shared_of_def r_into_rtranclp\<close>)

text \<open>The service: each step of the deployment is one step of it or leaves it alone.\<close>

abbreviation deployed_step where
  "deployed_step J E cfg env \<equiv>
     service_step (deployed_ports J E cfg) J (deployed_consumer J E cfg) (dismiss_of E) env"

lemma dstep_service:
  assumes "dstep J E cfg env d d'" and "process_inv (process_of d)"
  shows "srv d' = srv d \<or> deployed_step J E cfg env (srv d) (srv d')"
  using assms(1)
proof cases
  case (d_close t)
  then have "\<not> dispatchClosed (ctr (core (srv d)))" using assms(2) by (simp add: process_inv_def)
  then show ?thesis using d_close put_world_close [of env "srv d"] by simp
qed (simp_all add: put_world_outside)

lemma dreachable_process: "dreachable J E cfg env w0 d \<Longrightarrow> preachable (deployed_ports J E cfg) (process_of d)"
proof (induction rule: dreachable.induct)
  case (d_start w t w')
  then show ?case by (auto simp: process_of_def shared_of_def intro: preach_start)
next
  case (d_step d d')
  then show ?case using dstep_process dreachable_dinv preachable_steps by metis
qed

interpretation to_process: simulation
  "dstep J E cfg env" "pstep (deployed_ports J E cfg)" "\<lambda>d p. dinv d \<and> p = process_of d"
  for J E cfg env
  by unfold_locales (use dstep_process dstep_dinv in blast)

interpretation to_service: simulation
  "dstep J E cfg env" "deployed_step J E cfg env"
  "\<lambda>d s. dinv d \<and> preachable (deployed_ports J E cfg) (process_of d) \<and> s = srv d"
  for J E cfg env
proof unfold_locales
  fix d d' :: "'a deployment" and s
  assume m: "dinv d \<and> preachable (deployed_ports J E cfg) (process_of d) \<and> s = srv d"
    and st: "dstep J E cfg env d d'"
  have "srv d' = srv d \<or> deployed_step J E cfg env (srv d) (srv d')"
    using dstep_service [OF st] m preachable_inv by blast
  then show "\<exists>s'. (deployed_step J E cfg env)\<^sup>*\<^sup>* s s' \<and> dinv d'
      \<and> preachable (deployed_ports J E cfg) (process_of d') \<and> s' = srv d'"
    using m dstep_dinv [OF st] dstep_process [OF st] preachable_steps by (metis r_into_rtranclp rtranclp.rtrancl_refl)
qed

lemma service_reach_steps:
  "(service_step P J c dismiss env)\<^sup>*\<^sup>* s s' \<Longrightarrow> service_reach P J c dismiss env w0 s
     \<Longrightarrow> service_reach P J c dismiss env w0 s'"
  by (induction rule: rtranclp_induct) (auto intro: sv_step)

lemma dreachable_service:
  "dreachable J E cfg env w0 d \<Longrightarrow>
     service_reach (deployed_ports J E cfg) J (deployed_consumer J E cfg) (dismiss_of E) env w0 (srv d)"
proof (induction rule: dreachable.induct)
  case (d_start w t w')
  then show ?case by (auto simp: make_tracker_def intro: sv_start)
next
  case (d_step d d')
  then show ?case
    using dstep_service [OF d_step(2)] dreachable_process preachable_inv by (metis sv_step)
qed

end
