(* ===== verification/Deployment_Demo.thy ===== *)
theory Deployment_Demo
  imports Deployment_Props
begin

text \<open>
  A concrete deployment on which the properties of the whole program are exhibited: a network that
  answers every request with one list of configurations, a database and a JetStream that keep a log, and
  a run in which a list arrives, one gateway is heard, and a check finds it overdue.
\<close>

section \<open>The surroundings\<close>

definition on_beyond :: "('z \<Rightarrow> 'z) \<Rightarrow> 'z shared \<Rightarrow> 'z shared" where
  "on_beyond f x = x\<lparr>beyond := f (beyond x)\<rparr>"

text \<open>Under a context that is done the results of a batch are the error of the context.\<close>

definition deployed_pool :: "(demo_store shared, nat) db_pool" where
  "deployed_pool = \<lparr>
     pool_Exec = (\<lambda>st x. (None, x)),
     pool_SendBatch = (\<lambda>b x. (0, on_beyond (apsnd (\<lambda>log. log @ [Sent b])) x)),
     br_Exec = (\<lambda>br x. let r = (if context_over x then Some ''context canceled'' else None)
        in (r, on_beyond (apsnd (\<lambda>log. log @ [ResultRead r])) x)),
     br_Close = (\<lambda>br x. (None, on_beyond (apsnd (\<lambda>log. log @ [BatchClosed])) x)),
     pool_Close = (\<lambda>x. x)\<rparr>"

definition demo_surroundings :: "(demo_store shared, nat) surroundings" where
  "demo_surroundings = \<lparr>
     js_of = (\<lambda>s data. Pair None),
     nc_of = (\<lambda>d s body. Pair (Inr ''t'')),
     race_of = (\<lambda>d. Pair None),
     wall_clock = Pair 7,
     pool_of = deployed_pool,
     answer_of = (\<lambda>m a x. (None, on_beyond (apfst (\<lambda>as. as @ [(m, a)])) x)),
     dismiss_of = (\<lambda>m a. Pair None)\<rparr>"

abbreviation demo_others :: "(tracker \<times> demo_store shared) world \<Rightarrow> (tracker \<times> demo_store shared) world \<Rightarrow> bool" where
  "demo_others \<equiv> \<lambda>w w'. beyond (snd (ext w')) = beyond (snd (ext w))"

section \<open>The run\<close>

abbreviation (input) demo_ports :: "demo_store shared driven_ports" where
  "demo_ports \<equiv> deployed_ports demo_json demo_surroundings demo_config"

definition demo_nothing :: "demo_store shared" where
  "demo_nothing = \<lparr>pointer = empty_snapshot, context_over = False, beyond = ([], [])\<rparr>"

definition demo_tracker0 :: tracker where
  "demo_tracker0 = \<lparr>startTime = 7, gracePeriod = of_ms (HeartbeatGracePeriodMs demo_config), beats = Map.empty,
     dispatchCap = 1000, dispatchCh = [], dispatchClosed = False, worker = Ready\<rparr>"

definition demo_world00 :: "demo_store shared world" where
  "demo_world00 = \<lparr>mtr = zero_metrics, ext = demo_nothing\<rparr>"

abbreviation demo_dw0 :: "(tracker \<times> demo_store shared) world" where
  "demo_dw0 \<equiv> adapter_view (demo_tracker0, demo_world00)"

abbreviation demo_deployed where
  "demo_deployed \<equiv> dreachable demo_json demo_surroundings demo_config demo_others demo_dw0"

definition demo_d0 :: "demo_store deployment" where
  "demo_d0 = \<lparr>srv = \<lparr>core = \<lparr>ctr = demo_tracker0, cw = demo_world00, pc = Tick_idle, hist = [], offered = [],
         accepted = [], delivered = []\<rparr>, inbox = consumer_start demo_dw0, events = []\<rparr>,
     cache = deployed_cache demo_json demo_surroundings demo_config, stage = Serving, ticker_on = True,
     subscribed = False, news = []\<rparr>"

lemma demo_d0: "demo_deployed demo_d0"
proof -
  have "make_tracker demo_ports demo_config demo_world00 = Ret (demo_tracker0, demo_world00)"
    by (simp add: make_tracker_def NewHeartbeatTracker_def demo_buffer deployed_ports_def service_ports_def
        SystemClock_Now_def outside_def demo_surroundings_def demo_tracker0_def demo_world00_def)
  then show ?thesis
    unfolding demo_d0_def
    by (rule d_start)
      (simp_all add: demo_tickers demo_world00_def demo_nothing_def deployed_cache_def make_cache_def
        NewAlertConfigCache_def)
qed

definition demo_d1 :: "demo_store deployment" where
  "demo_d1 = demo_d0\<lparr>subscribed := True\<rparr>"

lemma demo_d1: "demo_deployed demo_d1"
  unfolding demo_d1_def by (rule d_step [OF demo_d0]) (rule d_subscribe, simp_all add: demo_d0_def)

text \<open>A list arrives.\<close>

definition demo_list :: "alert_config list" where
  "demo_list = [\<lparr>cfg_TenantID = ''t'', cfg_GatewayID = None, cfg_TimeoutMs = 1000\<rparr>]"

definition demo_sh2 :: "demo_store shared" where
  "demo_sh2 = demo_nothing\<lparr>pointer := build_snapshot demo_list 7\<rparr>"

definition demo_w2 :: "demo_store shared world" where
  "demo_w2 = with_metrics (SetAlertCacheLastSuccess (unix_seconds 7)) \<lparr>mtr = zero_metrics, ext = demo_sh2\<rparr>"

definition demo_d2 :: "demo_store deployment" where
  "demo_d2 = demo_d1\<lparr>srv := put_world demo_tracker0 demo_w2 (srv demo_d1),
     cache := (cache demo_d1)\<lparr>snapshot_ptr := build_snapshot demo_list 7\<rparr>, news := [List_arrived demo_list]\<rparr>"

lemma demo_fetch:
  "cache_rrClient (cache demo_d1) x = Ret (Inr demo_list, x)" "cache_now (cache demo_d1) = Pair 7"
  by (simp_all add: demo_d1_def demo_d0_def deployed_cache_def make_cache_def NewAlertConfigCache_def
      FetchAlertConfigs_def deployed_rr_def make_rr_def NewNATSRRClient_def demo_surroundings_def
      requestWithRetry_def retry_loop.simps demo_json_def demo_codec_def demo_list_def)

lemma demo_d2: "demo_deployed demo_d2"
proof -
  let ?w = "with_metrics (SetAlertCacheLastSuccess (unix_seconds 7)) demo_world00"
  have fetched_at: "fetchedAt (build_snapshot demo_list 7) = 7"
    by (simp add: build_snapshot_def demo_list_def store_config_def)
  have cw: "cw (core (srv demo_d1)) = demo_world00" by (simp add: demo_d1_def demo_d0_def)
  have "refresh (cache demo_d1) (cw (core (srv demo_d1))) = Ret (None,
      (cache demo_d1)\<lparr>snapshot_ptr := build_snapshot demo_list 7\<rparr>, ?w)"
    using cw fetched_at by (simp add: refresh_def demo_fetch del: fun_upd_apply)
  from d_refreshed [where env = demo_others and J = demo_json and E = demo_surroundings and cfg = demo_config
      and w' = demo_w2, OF _ demo_fetch(1) this]
  have "dstep demo_json demo_surroundings demo_config demo_others demo_d1 demo_d2"
    by (simp add: demo_d1_def demo_d0_def demo_d2_def demo_w2_def demo_sh2_def demo_world00_def
        shared_of_def demo_nothing_def consumer_start_def)
  then show ?thesis by (rule d_step [OF demo_d1])
qed

text \<open>A telemetry message is delivered.\<close>

abbreviation demo_dconsumer where
  "demo_dconsumer \<equiv> deployed_consumer demo_json demo_surroundings demo_config"

definition demo_heard_t :: tracker where
  "demo_heard_t = demo_tracker0\<lparr>beats := [demo_store_key \<mapsto> demo_store_entry], dispatchCh := [online_job ''g'' 7]\<rparr>"

definition demo_w3 :: "demo_store shared world" where
  "demo_w3 = with_metrics (SetHeartbeatMapSize 1) (with_metrics IncMessagesReceived demo_w2)"

lemma demo_deployed_delivery:
  "on_message demo_json demo_dconsumer demo_good (adapter_view (demo_tracker0, demo_w2))
     = Ret (demo_pending, adapter_view (demo_heard_t, demo_w3))"
  by (simp add: deployed_consumer_service on_message_def processMessage_def extractTenantID_def demo_good_def demo_json_def
      demo_pending_def tracker_handler_def HandleTelemetry_def telemetry_locked_def tracked_def
      dispatchStatusUpdate_def try_send_def deployed_ports_def service_ports_def SystemClock_Now_def outside_def
      demo_surroundings_def demo_tracker0_def demo_heard_t_def demo_w3_def demo_w2_def tracker_view_def adapter_view_def
      demo_store_entry_def demo_envelope_def online_job_def with_metrics_def Let_def)

definition demo_s3 :: "demo_store shared service" where
  "demo_s3 = (srv demo_d2)
     \<lparr>core := heard demo_store_key (core (srv demo_d2)) (adapter_view (demo_heard_t, demo_w3)),
      inbox := (inbox (srv demo_d2))\<lparr>cs_inflight := Some demo_pending,
        cs_world := adapter_view (demo_heard_t, demo_w3), cs_delivered := [demo_good]\<rparr>,
      events := [Heard demo_good]\<rparr>"

definition demo_d3 :: "demo_store deployment" where
  "demo_d3 = demo_d2\<lparr>srv := demo_s3, news := [List_arrived demo_list]\<rparr>"

lemma demo_d2_fields:
  "ctr (core (srv demo_d2)) = demo_tracker0" "cw (core (srv demo_d2)) = demo_w2" "pc (core (srv demo_d2)) = Tick_idle"
  "hist (core (srv demo_d2)) = []" "events (srv demo_d2) = []" "stage demo_d2 = Serving" "subscribed demo_d2"
  "inbox (srv demo_d2) = consumer_start (adapter_view (demo_tracker0, demo_w2))" "news demo_d2 = [List_arrived demo_list]"
  "ticker_on demo_d2" "shared_of demo_d2 = demo_sh2"
  by (simp_all add: demo_d2_def demo_d1_def demo_d0_def consumer_start_def shared_of_def demo_w2_def)

lemma demo_s3_fields:
  "ctr (core demo_s3) = demo_heard_t" "cw (core demo_s3) = demo_w3" "pc (core demo_s3) = Tick_idle"
  "cs_world (inbox demo_s3) = adapter_view (demo_heard_t, demo_w3)" "ext demo_w3 = demo_sh2"
  "inbox demo_s3 = (consumer_start (adapter_view (demo_heard_t, demo_w3)))
     \<lparr>cs_inflight := Some demo_pending, cs_delivered := [demo_good]\<rparr>" "hist (core demo_s3) = [(demo_store_key, Came_online)]"
  by (simp_all add: demo_s3_def heard_def Let_def with_view_def tracker_view_def adapter_view_def demo_d2_fields
      consumer_start_def demo_w3_def demo_w2_def fleet_of_def demo_tracker0_def)

lemma demo_d3: "demo_deployed demo_d3"
proof -
  have "consumer_step demo_json demo_dconsumer (\<lambda>_ _. False) (inbox (srv demo_d2)) (inbox demo_s3)"
    using consumer_step.deliver [of "inbox (srv demo_d2)" demo_json demo_dconsumer demo_good demo_pending
        "adapter_view (demo_heard_t, demo_w3)"] demo_deployed_delivery
    by (simp add: demo_d2_fields demo_s3_fields consumer_start_def)
  then have "deployed_step demo_json demo_surroundings demo_config demo_others (srv demo_d2)
      ((srv demo_d2)\<lparr>core := heard_message demo_json demo_good (core (srv demo_d2)) (cs_world (inbox demo_s3)),
         inbox := inbox demo_s3, events := Heard demo_good # events (srv demo_d2)\<rparr>)"
    by (rule sv_message) (simp add: demo_d2_fields demo_s3_fields consumer_start_def)
  then have "deployed_step demo_json demo_surroundings demo_config demo_others (srv demo_d2) demo_s3"
    by (simp add: demo_s3_def heard_message_def demo_message_key demo_d2_fields)
  moreover have "allowed demo_d2 demo_s3"
    by (simp add: allowed_def demo_d2_fields demo_s3_fields demo_heard_t_def demo_tracker0_def consumer_start_def)
  ultimately have "dstep demo_json demo_surroundings demo_config demo_others demo_d2
      (demo_d2\<lparr>srv := demo_s3, news := alert_between (core (srv demo_d2)) (core demo_s3) @ news demo_d2\<rparr>)"
    by (intro d_service) (simp_all add: demo_d2_fields)
  from d_step [OF demo_d2 this] show ?thesis
    by (simp add: demo_d3_def alert_between_def demo_d2_fields)
qed

text \<open>Much later a check starts, finds the gateway overdue and alerts it.\<close>

definition demo_check :: "tick_pc \<Rightarrow> demo_store shared world \<Rightarrow> (gateway_key \<times> happening) list \<Rightarrow> demo_store shared service" where
  "demo_check p w h = demo_s3\<lparr>core := (core demo_s3)\<lparr>cw := w, pc := p, hist := h\<rparr>,
     inbox := (inbox demo_s3)\<lparr>cs_world := adapter_view (demo_heard_t, w)\<rparr>\<rparr>"

lemma demo_check_fields [simp]:
  "ctr (core (demo_check p w h)) = demo_heard_t" "cw (core (demo_check p w h)) = w" "pc (core (demo_check p w h)) = p"
  "hist (core (demo_check p w h)) = h" "cs_world (inbox (demo_check p w h)) = adapter_view (demo_heard_t, w)"
  "cs_done (inbox (demo_check p w h)) = cs_done (inbox demo_s3)"
  by (simp_all add: demo_check_def demo_s3_fields)

lemma demo_check_core:
  "(core (demo_check p w h))\<lparr>pc := p'\<rparr> = core (demo_check p' w h)"
  "(core (demo_check p w h))\<lparr>cw := w', pc := p', hist := h'\<rparr> = core (demo_check p' w' h')"
  by (cases "core demo_s3"; simp add: demo_check_def)+

lemma demo_check_step:
  assumes "cstep demo_ports (core (demo_check p w h)) (core (demo_check p' w' h'))"
    and "ext w = demo_sh2" and "ext w' = demo_sh2"
    and "demo_deployed (demo_d3\<lparr>srv := demo_check p w h, news := ns\<rparr>)"
  shows "demo_deployed (demo_d3\<lparr>srv := demo_check p' w' h',
    news := alert_between (core (demo_check p w h)) (core (demo_check p' w' h')) @ ns\<rparr>)"
proof -
  let ?s = "demo_check p w h" and ?s' = "demo_check p' w' h'"
  let ?d = "demo_d3\<lparr>srv := ?s, news := ns\<rparr>"
  have same: "?s' = ?s\<lparr>core := core ?s', inbox := (inbox ?s)\<lparr>cs_world := adapter_view (ctr (core ?s'), cw (core ?s'))\<rparr>\<rparr>"
    by (simp add: demo_check_def demo_s3_fields)
  have "deployed_step demo_json demo_surroundings demo_config demo_others ?s
      (?s\<lparr>core := core ?s', inbox := (inbox ?s)\<lparr>cs_world := adapter_view (ctr (core ?s'), cw (core ?s'))\<rparr>\<rparr>)"
    by (rule sv_tracker) (use assms(1-3) in \<open>simp_all add: unheard_same\<close>)
  then have "deployed_step demo_json demo_surroundings demo_config demo_others (srv ?d) ?s'"
    using same by simp
  moreover have "allowed ?d ?s'"
    using assms(2,3) by (simp add: allowed_def shared_of_def demo_d3_def demo_d2_fields)
  ultimately have "dstep demo_json demo_surroundings demo_config demo_others ?d
      (?d\<lparr>srv := ?s', news := alert_between (core (srv ?d)) (core ?s') @ news ?d\<rparr>)"
    by (intro d_service) (simp_all add: demo_d3_def demo_d2_fields)
  from d_step [OF assms(4) this] show ?thesis by simp
qed

definition demo_alert :: timeout_event where
  "demo_alert = Alert_out demo_store_key 7 demo_late"

lemma demo_grace: "sint (of_ms (HeartbeatGracePeriodMs demo_config)) = 120000000000"
  by (simp add: demo_config_def initial_config_def of_ms_def millisecond_def)

lemma demo_fired:
  "\<exists>w'. tick_verdict demo_ports demo_late demo_store_entry demo_w3 = (Fired, w') \<and> ext w' = demo_sh2"
proof -
  have timeout: "TimeoutFor demo_ports ''t'' ''g'' demo_w3 = 1000"
    by (simp add: deployed_ports_def service_ports_def demo_s3_fields demo_sh2_def snapshot_timeout_def
        build_snapshot_def demo_list_def store_config_def)
  have state: "GetGatewayLifecycle demo_ports ''t'' ''g'' w
      = ((LifecycleUnknown, snd (fst (GetGatewayLifecycle demo_ports ''t'' ''g'' w))),
         with_metrics IncLifecycleQueryErrors w)
    \<and> snd (fst (GetGatewayLifecycle demo_ports ''t'' ''g'' w)) \<noteq> None" for w
    by (simp add: deployed_ports_def service_ports_def Provider_GetGatewayLifecycle_def outside_def result_of_def
        RR_GetGatewayLifecycle_def deployed_rr_def make_rr_def NewNATSRRClient_def demo_surroundings_def
        requestWithRetry_def retry_loop.simps demo_json_def demo_codec_def validateGatewayLifecycleResponse_def
        lifecycle_defs)
  have outcome: "Publish demo_ports t a w = (None, with_metrics IncAlertsPublished w)" for t a w
    by (simp add: deployed_ports_def service_ports_def Alert_Publish_def demo_json_def demo_codec_def
        demo_surroundings_def outside_def)
  have "fst (tick_verdict demo_ports demo_late demo_store_entry demo_w3) = Fired
    \<and> ext (snd (tick_verdict demo_ports demo_late demo_store_entry demo_w3)) = ext demo_w3"
    using state [of demo_w3] outcome
    by (auto simp: tick_verdict_def demo_store_entry_def timeout deadline_def demo_late_def time_add_def
        time_before_def of_ms_def millisecond_def Let_def lifecycle_defs split: prod.splits option.splits)
  then show ?thesis by (metis demo_s3_fields(5) prod.collapse)
qed

lemma demo_alert_out:
  "\<exists>d. demo_deployed d \<and> news d = [demo_alert, List_arrived demo_list]
     \<and> (demo_store_key, Alerted) \<in> set (hist (core (srv d)))"
proof -
  let ?h = "hist (core demo_s3)"
  have "demo_check Tick_idle demo_w3 ?h = demo_s3"
    by (cases demo_s3; cases "core demo_s3"; cases "inbox demo_s3") (use demo_s3_fields in \<open>simp add: demo_check_def\<close>)
  then have r0: "demo_deployed (demo_d3\<lparr>srv := demo_check Tick_idle demo_w3 ?h, news := [List_arrived demo_list]\<rparr>)"
    using demo_d3 by (simp add: demo_d3_def)
  let ?loop = "Tick_loop demo_late [demo_store_entry]"
  have snap: "snapshot [demo_store_key] demo_heard_t = [demo_store_entry]"
    by (simp add: snapshot_def demo_heard_t_def List.map_filter_simps)
  have "cstep demo_ports (core (demo_check Tick_idle demo_w3 ?h)) (core (demo_check ?loop demo_w3 ?h))"
    using c_tick_begin [of "core (demo_check Tick_idle demo_w3 ?h)" demo_late "[demo_store_key]" demo_ports demo_late]
    by (simp add: demo_check_core snap iteration_order_def)
      (simp add: demo_heard_t_def demo_tracker0_def demo_late_def demo_grace)
  from demo_check_step [OF this _ _ r0]
  have r1: "demo_deployed (demo_d3\<lparr>srv := demo_check ?loop demo_w3 ?h, news := [List_arrived demo_list]\<rparr>)"
    by (simp add: demo_s3_fields alert_between_def)
  obtain w' where v: "tick_verdict demo_ports demo_late demo_store_entry demo_w3 = (Fired, w')" "ext w' = demo_sh2"
    using demo_fired by blast
  let ?out = "Tick_dispatch demo_late demo_store_entry []" and ?h' = "(entry_key demo_store_entry, Alerted) # ?h"
  have "cstep demo_ports (core (demo_check ?loop demo_w3 ?h)) (core (demo_check ?out w' ?h'))"
    using c_tick_publish [of "core (demo_check ?loop demo_w3 ?h)" demo_late demo_store_entry "[]" demo_ports w'] v(1)
    by (simp add: demo_check_core)
  from demo_check_step [OF this _ v(2) r1]
  have "demo_deployed (demo_d3\<lparr>srv := demo_check ?out w' ?h', news := [demo_alert, List_arrived demo_list]\<rparr>)"
    by (simp add: demo_s3_fields alert_between_def demo_alert_def entry_key_def demo_store_entry_def)
  then show ?thesis
    by (intro exI [of _ "demo_d3\<lparr>srv := demo_check ?out w' ?h', news := [demo_alert, List_arrived demo_list]\<rparr>"])
      (simp add: entry_key_def demo_store_entry_def)
qed

section \<open>The whole program refines its parts\<close>



end
