(* ===== verification/Deployment_Shutdown.thy ===== *)
theory Deployment_Shutdown
  imports Deployment_Demo
begin

text \<open>
  The shutdown of the whole program, seen from the telemetry that is under way: what the end of the
  context does to it, that nothing touches the pool once \<open>run\<close> unwinds, and how the books stand when the
  tracker is closed.
\<close>

section \<open>What the observers see of a step\<close>

text \<open>The consumer's side of a deployment, for observers of the outside.\<close>

abbreviation on_service :: "('x \<Rightarrow> 'a) \<Rightarrow> tracker \<times> 'x \<Rightarrow> 'a" where
  "on_service f \<equiv> \<lambda>x. f (snd x)"

abbreviation deployed_observers ::
    "json_codec \<Rightarrow> ('z shared, 'b) surroundings \<Rightarrow> config
      \<Rightarrow> ((tracker \<times> 'z shared) world \<Rightarrow> (tracker \<times> 'z shared) world \<Rightarrow> bool)
      \<Rightarrow> ('z shared \<Rightarrow> (nats_msg \<times> answer) list) \<Rightarrow> ('z shared \<Rightarrow> db_event list) \<Rightarrow> bool" where
  "deployed_observers J E cfg env acks log \<equiv>
     observed_service (deployed_ports J E cfg) (pool_of E) (answer_of E) (wall_clock E) env acks log"

lemma deployed_observed:
  assumes "deployed_observers J E cfg env acks log"
  shows "observed_consumer (deployed_consumer J E cfg) env (on_service acks) (on_service (\<lambda>x. inserted (log x)))"
  using service_observed [OF assms] by (simp add: deployed_consumer_service deployed_writer_def)

lemma shared_coupled: "dinv d \<Longrightarrow> snd (ext (cs_world (inbox (srv d)))) = shared_of d"
  by (simp add: dinv_def coupled_def shared_of_def)

section \<open>After the end of the context\<close>

text \<open>The pool heeds the context, and reading the clock does not bring it back.\<close>

definition context_respected :: "('z shared, 'b) surroundings \<Rightarrow> bool" where
  "context_respected E \<longleftrightarrow> pool_heeds_context context_over (pool_of E)
     \<and> (\<forall>x. context_over x \<longrightarrow> context_over (snd (wall_clock E x)))"

lemma dstep_context: "dstep J E cfg env d d' \<Longrightarrow> context_over (shared_of d) \<Longrightarrow> context_over (shared_of d')"
  by (erule dstep.cases) (auto simp: shared_of_def allowed_def)

lemma dstep_refused:
  assumes "dstep J E cfg env d d'" and "dinv d" and "process_inv (process_of d)" and "context_over (shared_of d)"
    and "deployed_observers J E cfg env acks log"
    and "context_respected E"
  shows "only_refuses (on_service acks) (on_service (\<lambda>x. inserted (log x)))
    (cs_world (inbox (srv d))) (cs_world (inbox (srv d')))"
proof -
  have heeds: "heeds_context (on_service context_over) (deployed_consumer J E cfg)"
    using service_heeds [of context_over "pool_of E" "wall_clock E"] assms(6)
    by (simp add: context_respected_def deployed_consumer_service deployed_writer_def)
  have over: "on_service context_over (ext (cs_world (inbox (srv d))))"
    using assms(4) shared_coupled [OF assms(2)] by simp
  from dstep_service [OF assms(1,3)] show ?thesis
  proof (elim disjE)
    assume "deployed_step J E cfg env (srv d) (srv d')"
    from consumer_step_refused [OF heeds deployed_observed [OF assms(5)] service_step_consumer [OF this] over]
    show ?thesis .
  qed simp
qed

lemma dsteps_refused:
  assumes "(dstep J E cfg env)\<^sup>*\<^sup>* d d'" and "dreachable J E cfg env w0 d" and "context_over (shared_of d)"
    and "deployed_observers J E cfg env acks log"
    and "context_respected E"
  shows "only_refuses (on_service acks) (on_service (\<lambda>x. inserted (log x)))
      (cs_world (inbox (srv d))) (cs_world (inbox (srv d')))
    \<and> dreachable J E cfg env w0 d' \<and> context_over (shared_of d')"
  using assms(1)
proof (induction rule: rtranclp_induct)
  case base
  then show ?case using assms(2,3) by simp
next
  case (step d1 d2)
  then have d1: "dreachable J E cfg env w0 d1" "context_over (shared_of d1)" by blast+
  have "process_inv (process_of d1)" using preachable_inv [OF dreachable_process [OF d1(1)]] by simp
  from dstep_refused [OF step.hyps(2) dreachable_dinv [OF d1(1)] this d1(2) assms(4,5)]
  show ?case
    using step.IH only_refuses_trans d_step [OF d1(1) step.hyps(2)] dstep_context [OF step.hyps(2) d1(2)] by blast
qed


section \<open>After \<open>run\<close> unwinds\<close>

text \<open>A delivery reads the clock and nothing else of the outside.\<close>

lemma on_message_outside:
  assumes "on_message J (service_consumer P writer answer now d b e) msg w = Ret (pm, v)"
    and "\<And>w. f (ext (snd (clock_Now P w))) = f (ext w)"
  shows "f (snd (ext v)) = f (snd (ext w))"
proof -
  let ?c = "service_consumer P writer answer now d b e" and ?w = "with_metrics IncMessagesReceived w"
  obtain r where r: "processMessage J ?c msg ?w = Ret (r, v)"
    using assms(1) by (auto simp: on_message_def go_bind_Ret_iff)
  then have "v = ?w \<or> (\<exists>t env q. tracker_handler P t env ?w = Ret (q, v))"
    by (fastforce simp: processMessage_def go_bind_Ret_iff split: sum.splits option.splits)
  then show ?thesis
  proof (elim disjE exE)
    fix t env q assume "tracker_handler P t env ?w = Ret (q, v)"
    from tracker_handler_ext [OF this] show ?thesis by (simp add: assms(2) tracker_view_def)
  qed simp
qed

text \<open>A consumer whose loop has stopped, or that never was subscribed, leaves the pool alone.\<close>

lemma consumer_step_idle:
  assumes "consumer_step J (service_consumer P writer answer now d b e) (\<lambda>_ _. False) i i'"
    and "observed_service P pool answer now env acks log"
    and "\<not> cs_running i \<or> untouched i \<and> i' = i\<lparr>cs_world := cs_world i'\<rparr>"
  shows "log (snd (ext (cs_world i'))) = log (snd (ext (cs_world i)))"
  using assms(1)
proof cases
  case (deliver msg pm w)
  have clock: "log (ext (snd (clock_Now P w))) = log (ext w)" for w
    using assms(2) by (simp add: observed_service_def)
  show ?thesis using on_message_outside [where f = log, OF deliver(3) clock] deliver(1) by simp
next
  case (abandon pm)
  then show ?thesis
    using assms(2) by (simp add: abandonPending_def respond_def service_answer_def observed_service_def)
qed (use assms(3) in \<open>auto simp: with_loop_def flush_def untouched_def\<close>)

lemma dstep_log:
  assumes "dstep J E cfg env d d'" and "dinv d" and "process_inv (process_of d)"
    and "deployed_observers J E cfg env acks log" and "stage d \<noteq> Serving"
  shows "log (shared_of d') = log (shared_of d)"
proof -
  have env: "log (snd (ext w')) = log (snd (ext w))" if "env w w'" for w w'
    using assms(4) that by (simp add: observed_service_def)
  have idle: "\<not> cs_running (inbox (srv d)) \<or> \<not> subscribed d" if "alive (stage d)"
    using assms(2,5) that by (auto simp: dinv_def alive_def)
  have step: "log (shared_of d') = log (shared_of d)"
    if same: "srv d' = s" and alive: "alive (stage d)" and ok: "allowed d s"
      and st: "deployed_step J E cfg env (srv d) s" for s
  proof -
    have world: "shared_of d' = snd (ext (cs_world (inbox s)))"
      using service_step_coupled [OF st] same by (simp add: shared_of_def coupled_def)
    have loop: "\<not> cs_running (inbox (srv d)) \<or> untouched (inbox (srv d)) \<and> inbox s = (inbox (srv d))\<lparr>cs_world := cs_world (inbox s)\<rparr>"
      using idle [OF alive] allowed_simps(4) [OF ok] assms(2) by (auto simp: dinv_def)
    have "log (snd (ext (cs_world (inbox s)))) = log (snd (ext (cs_world (inbox (srv d)))))"
      using st
    proof cases
      case (sv_message i msg)
      then show ?thesis
        using consumer_step_idle [OF _ assms(4) loop, of J "deployed_writer E"] by (simp add: deployed_consumer_service)
    next
      case (sv_consumer i)
      then show ?thesis
        using consumer_step_idle [OF _ assms(4) loop, of J "deployed_writer E"] by (simp add: deployed_consumer_service)
    next
      case (sv_decommission v msg)
      then show ?thesis using env by simp
    next
      case (sv_tracker k)
      from env [OF sv_tracker(4)] show ?thesis using sv_tracker(1) by simp
    qed
    then show ?thesis using world shared_coupled [OF assms(2)] by simp
  qed
  have put: "log (shared_of d') = log (shared_of d)"
    if "srv d' = put_world t w' (srv d)" and "env (cs_world (inbox (srv d))) (adapter_view (t, w'))" for t w'
  proof -
    have "shared_of d' = ext w'" using that(1) by (simp add: shared_of_def)
    then show ?thesis using env [OF that(2)] shared_coupled [OF assms(2)] by simp
  qed
  from assms(1) show ?thesis
  proof cases
    case (d_service s)
    then show ?thesis using step by simp
  next
    case (d_refreshed configs x c w w')
    then show ?thesis using put [OF _ d_refreshed(6)] by simp
  next
    case (d_refresh_failed err c w w')
    then show ?thesis using put [OF _ d_refresh_failed(5)] by simp
  next
    case (d_signal w')
    then show ?thesis using put [OF _ d_signal(4)] by simp
  next
    case (d_close t)
    then show ?thesis using put [OF _ d_close(4)] by simp
  next
    case (d_signals w')
    then show ?thesis using put [OF _ d_signals(4)] by simp
  qed (simp_all add: shared_of_def)
qed

lemma dstep_unwinding: "dstep J E cfg env d d' \<Longrightarrow> stage d \<noteq> Serving \<Longrightarrow> stage d' \<noteq> Serving"
  by (erule dstep.cases) auto


section \<open>The books at the exit\<close>

text \<open>
  C9. When the tracker is closed, and so also when the process exits: every status update that was accepted
  has been performed, the rows in the table are those of the acknowledged messages, and of all telemetry
  messages that were ever delivered no more than 201 are still without an answer: those in the channel
  of the consumer and the one in its callback. JetStream will deliver these again.
\<close>

theorem books_at_exit:
  assumes "dreachable J E cfg env w0 d" and "stage d \<in> {TrackerClosed, PoolClosed, SignalsStopped, Exited}"
    and "deployed_observers J E cfg env acks log"
    and "acks (snd (ext w0)) = []" and "log (snd (ext w0)) = []"
  shows "delivered (core (srv d)) = accepted (core (srv d))
    \<and> map Some (inserted (log (shared_of d))) = map (message_row J) (acked (acks (shared_of d)))
    \<and> (\<exists>waiting. length waiting \<le> 201
         \<and> mset (heard_messages (events (srv d))) = mset (map fst (acks (shared_of d))) + mset waiting)"
proof -
  let ?c = "deployed_consumer J E cfg" and ?i = "inbox (srv d)"
  have size: "sint (batchSize ?c) = 100" "chan_cap ?c = 200"
    by (simp_all add: deployed_consumer_service telemetryBatchSize_def chan_cap_def)
  have start: "inserted (log (snd (ext w0))) = []"
    by (simp add: assms(5) inserted_def confirmed_def List.map_filter_simps)
  note svc = dreachable_service [OF assms(1), unfolded deployed_consumer_service]
  have reach: "consumer_reach J ?c env w0 ?i"
    using service_reach_components [OF svc] by (simp add: deployed_consumer_service)
  have "consumer_inv J ?c (on_service acks) (on_service (\<lambda>x. inserted (log x))) ?i"
    using tracker_as_handler.consumer_reach_inv [OF _ deployed_observed [OF assms(3)], of "deployed_ports J E cfg" w0 J ?i]
      reach assms(4) start by (simp add: deployed_consumer_service telemetryBatchSize_def)
  then have inv: "consumer_inv J ?c (on_service acks) (on_service (\<lambda>x. inserted (log x))) ?i" .
  have dinv: "dinv d" by (rule dreachable_dinv [OF assms(1)])
  have "cs_buf ?i = []"
    using dinv inv assms(2) by (auto simp: dinv_def consumer_inv_def untouched_def)
  moreover have "length (cs_chan ?i) \<le> 200"
    using inv size(2) by (simp add: consumer_inv_def)
  ultimately have "length (map pm_msg (unanswered ?i)) \<le> 201"
    by (simp add: unanswered_def split: option.splits)
  moreover have "heard_messages (events (srv d)) = cs_delivered ?i"
    using service_reach_inv [OF svc] by (simp add: service_inv_def)
  moreover have "delivered (core (srv d)) = accepted (core (srv d))"
    using finished_delivered [OF dreachable_process [OF assms(1)]] assms(2) by simp
  ultimately show ?thesis
    using inv shared_coupled [OF dinv] unfolding consumer_inv_def books_def by (metis (no_types, lifting))
qed

section \<open>Witnesses\<close>

text \<open>
  The run of \<open>Deployment_Demo\<close> goes on: the signal comes while the message is on its way to the buffer,
  and the process shuts down.
\<close>

abbreviation demo_dstep where
  "demo_dstep \<equiv> dstep demo_json demo_surroundings demo_config demo_others"

lemma demo_observers:
  "deployed_observers demo_json demo_surroundings demo_config demo_others (\<lambda>x. fst (beyond x)) (\<lambda>x. snd (beyond x))"
  by (simp add: observed_service_def observed_pool_def demo_surroundings_def deployed_pool_def on_beyond_def
      deployed_ports_def service_ports_def SystemClock_Now_def outside_def Let_def)

lemma demo_respected: "context_respected demo_surroundings"
  by (simp add: context_respected_def pool_heeds_context_def demo_surroundings_def deployed_pool_def on_beyond_def Let_def)

lemma demo_dw0_empty: "fst (beyond (snd (ext demo_dw0))) = []" "snd (beyond (snd (ext demo_dw0))) = []"
  by (simp_all add: demo_world00_def demo_nothing_def)

text \<open>A step of the consumer in the demonstration, and a step of the worker.\<close>

lemma demo_consumer_goes:
  assumes "demo_deployed d" and "alive (stage d)" and "subscribed d"
    and "consumer_step demo_json demo_dconsumer (\<lambda>_ _. False) (inbox (srv d)) i"
    and "cs_delivered i = cs_delivered (inbox (srv d))"
    and "pointer (snd (ext (cs_world i))) = pointer (shared_of d)"
    and "context_over (snd (ext (cs_world i))) = context_over (shared_of d)"
    and "cs_done i \<Longrightarrow> cs_done (inbox (srv d)) \<or> context_over (shared_of d)"
  shows "\<exists>d'. demo_dstep d d' \<and> demo_deployed d' \<and> inbox (srv d') = i \<and> shared_of d' = snd (ext (cs_world i))
    \<and> events (srv d') = events (srv d) \<and> stage d' = stage d \<and> subscribed d'
    \<and> ctr (core (srv d')) = ctr (core (srv d)) \<and> pc (core (srv d')) = pc (core (srv d))
    \<and> accepted (core (srv d')) = accepted (core (srv d))"
proof -
  let ?s = "(srv d)\<lparr>core := with_view (core (srv d)) (cs_world i), inbox := i\<rparr>"
  have spares: "spares_tracker demo_dconsumer" by (simp add: deployed_consumer_service service_consumer_spares)
  have "fst (ext (cs_world i)) = ctr (core (srv d))"
    using consumer_step_spares [OF assms(4) spares assms(5)] coupled_tracker [of "srv d"]
      dreachable_dinv [OF assms(1)] by (simp add: dinv_def)
  then have view: "with_view (core (srv d)) (cs_world i) = (core (srv d))\<lparr>cw := snd (tracker_view (cs_world i))\<rparr>"
    by (simp add: with_view_def tracker_view_def)
  have "demo_dstep d (d\<lparr>srv := ?s, news := alert_between (core (srv d)) (core ?s) @ news d\<rparr>)"
  proof (rule d_service [OF assms(2)])
    show "deployed_step demo_json demo_surroundings demo_config demo_others (srv d) ?s"
      by (rule sv_consumer [OF assms(4,5)])
    show "allowed d ?s" using assms(3,6-8) by (simp add: allowed_def view tracker_view_def)
  qed
  then show ?thesis
    using d_step [OF assms(1)] assms(3)
    by (intro exI [of _ "d\<lparr>srv := ?s, news := alert_between (core (srv d)) (core ?s) @ news d\<rparr>"])
      (auto simp: shared_of_def view tracker_view_def)
qed

definition demo_w4 :: "demo_store shared world" where
  "demo_w4 = demo_w3\<lparr>ext := demo_sh2\<lparr>context_over := True\<rparr>\<rparr>"

definition demo_d4 :: "demo_store deployment" where
  "demo_d4 = demo_d3\<lparr>srv := put_world demo_heard_t demo_w4 demo_s3\<rparr>"

lemma demo_accepted: "accepted (core demo_s3) = [online_job ''g'' 7]" "events demo_s3 = [Heard demo_good]"
  by (simp_all add: demo_s3_def heard_def Let_def with_view_def note_offer_def demo_d2_fields fleet_of_def demo_tracker0_def
      demo_heard_t_def demo_store_entry_def can_accept_def demo_d2_def demo_d1_def demo_d0_def)

lemma demo_d4:
  "demo_deployed demo_d4" "stage demo_d4 = Serving" "subscribed demo_d4" "shared_of demo_d4 = demo_sh2\<lparr>context_over := True\<rparr>"
  "inbox (srv demo_d4) = (consumer_start (adapter_view (demo_heard_t, demo_w4)))
     \<lparr>cs_inflight := Some demo_pending, cs_delivered := [demo_good]\<rparr>" "events (srv demo_d4) = [Heard demo_good]"
  "ctr (core (srv demo_d4)) = demo_heard_t" "pc (core (srv demo_d4)) = Tick_idle" "accepted (core (srv demo_d4)) = [online_job ''g'' 7]"
proof -
  have "demo_dstep demo_d3 demo_d4"
    using d_signal [where env = demo_others and J = demo_json and E = demo_surroundings and cfg = demo_config
        and d = demo_d3 and w' = demo_w4]
    by (simp add: demo_d4_def demo_d3_def demo_d2_fields demo_s3_fields shared_of_def demo_w4_def consumer_start_def)
  then show "demo_deployed demo_d4" by (rule d_step [OF demo_d3])
qed (simp_all add: demo_d4_def demo_d3_def demo_d2_fields demo_s3_fields shared_of_def demo_w4_def
      consumer_start_def demo_accepted)

definition demo_refusal :: "(nats_msg \<times> answer) list" where
  "demo_refusal = [(demo_good, NakWithDelay (5 * second))]"

lemma demo_last_flush:
  "flush demo_dconsumer ([demo_pending], adapter_view (demo_heard_t, demo_w4)) = ([], w) \<Longrightarrow>
     snd (ext w) = demo_sh2\<lparr>context_over := True,
       beyond := (demo_refusal, [Sent [row_statement (buildRow ''t'' demo_envelope)],
         ResultRead (Some ''context canceled''), BatchClosed])\<rparr>"
  by (auto simp: deployed_consumer_service flush_def writeBatch_def timed_write_def batch_rows_def settle_def
      respond_def outside_def demo_pending_def demo_w4_def demo_sh2_def demo_nothing_def demo_refusal_def
      deployed_writer_def Writer_WriteBatch_def demo_surroundings_def deployed_pool_def on_beyond_def on_outside_def
      service_answer_def Let_def)

lemma demo_refused:
  "\<exists>d. demo_dstep\<^sup>*\<^sup>* demo_d4 d \<and> demo_deployed d \<and> stage d = Serving \<and> subscribed d \<and> \<not> cs_running (inbox (srv d))
     \<and> fst (beyond (shared_of d)) = demo_refusal \<and> events (srv d) = [Heard demo_good]
     \<and> ctr (core (srv d)) = demo_heard_t \<and> pc (core (srv d)) = Tick_idle \<and> accepted (core (srv d)) = [online_job ''g'' 7]"
proof -
  let ?i5 = "with_loop ((inbox (srv demo_d4))\<lparr>cs_inflight := None\<rparr>)
    (flush_receive demo_dconsumer demo_pending ([], cs_world (inbox (srv demo_d4))))"
  have i5: "?i5 = (consumer_start (adapter_view (demo_heard_t, demo_w4)))\<lparr>cs_buf := [demo_pending], cs_delivered := [demo_good]\<rparr>"
    by (simp add: demo_d4 with_loop_def consumer_start_def flush_receive_def deployed_consumer_service telemetryBatchSize_def)
  have "consumer_step demo_json demo_dconsumer (\<lambda>_ _. False) (inbox (srv demo_d4)) ?i5"
    using consumer_step.hand_over [of "inbox (srv demo_d4)" demo_pending] by (simp add: demo_d4 consumer_start_def)
  from demo_consumer_goes [OF demo_d4(1) _ demo_d4(3) this]
  obtain d5 where d5: "demo_dstep demo_d4 d5" "demo_deployed d5" "inbox (srv d5) = ?i5" "stage d5 = Serving"
    "events (srv d5) = [Heard demo_good]" "shared_of d5 = demo_sh2\<lparr>context_over := True\<rparr>" "subscribed d5"
    "ctr (core (srv d5)) = demo_heard_t" "pc (core (srv d5)) = Tick_idle" "accepted (core (srv d5)) = [online_job ''g'' 7]"
    unfolding i5 by (auto simp: demo_d4 consumer_start_def demo_w4_def)
  let ?i6 = "?i5\<lparr>cs_done := True\<rparr>"
  have "consumer_step demo_json demo_dconsumer (\<lambda>_ _. False) (inbox (srv d5)) ?i6"
    unfolding d5(3) by (rule consumer_step.cancel)
  from demo_consumer_goes [OF d5(2) _ d5(7) this]
  obtain d6 where d6: "demo_dstep d5 d6" "demo_deployed d6" "inbox (srv d6) = ?i6" "stage d6 = Serving"
    "events (srv d6) = [Heard demo_good]" "shared_of d6 = demo_sh2\<lparr>context_over := True\<rparr>" "subscribed d6"
    "ctr (core (srv d6)) = demo_heard_t" "pc (core (srv d6)) = Tick_idle" "accepted (core (srv d6)) = [online_job ''g'' 7]"
    using d5 unfolding i5 by (auto simp: consumer_start_def demo_w4_def)
  obtain w where w: "flush demo_dconsumer ([demo_pending], adapter_view (demo_heard_t, demo_w4)) = ([], w)"
    by (simp add: flush_def)
  let ?i7 = "with_loop (?i6\<lparr>cs_running := False\<rparr>) (flush demo_dconsumer (cs_buf ?i6, cs_world ?i6))"
  have "consumer_step demo_json demo_dconsumer (\<lambda>_ _. False) (inbox (srv d6)) ?i7"
    unfolding d6(3) i5 by (rule consumer_step.stop) (simp_all add: consumer_start_def)
  from demo_consumer_goes [OF d6(2) _ d6(7) this]
  obtain d7 where "demo_dstep d6 d7" "demo_deployed d7" "inbox (srv d7) = ?i7" "stage d7 = Serving"
    "events (srv d7) = [Heard demo_good]" "shared_of d7 = snd (ext w)" "subscribed d7"
    "ctr (core (srv d7)) = demo_heard_t" "pc (core (srv d7)) = Tick_idle" "accepted (core (srv d7)) = [online_job ''g'' 7]"
    using d6 demo_last_flush [OF w] unfolding i5 by (auto simp: consumer_start_def with_loop_def w)
  with d5(1) d6(1) demo_last_flush [OF w] show ?thesis
    unfolding i5 by (intro exI [of _ d7]) (auto simp: with_loop_def w)
qed


lemma demo_unwinding:
  "\<exists>d. demo_deployed d \<and> stage d = MetricsDown \<and> fst (beyond (shared_of d)) = demo_refusal
     \<and> events (srv d) = [Heard demo_good] \<and> ctr (core (srv d)) = demo_heard_t
     \<and> accepted (core (srv d)) = [online_job ''g'' 7]"
proof -
  obtain d where d: "demo_deployed d" "stage d = Serving" "subscribed d" "\<not> cs_running (inbox (srv d))"
    "fst (beyond (shared_of d)) = demo_refusal" "events (srv d) = [Heard demo_good]"
    "ctr (core (srv d)) = demo_heard_t" "accepted (core (srv d)) = [online_job ''g'' 7]"
    using demo_refused by blast
  have "demo_deployed (d\<lparr>stage := Unwinding\<rparr>)" by (rule d_step [OF d(1) d_run_returns [OF d(2-4)]])
  from d_step [OF this d_metrics] have "demo_deployed (d\<lparr>stage := MetricsDown\<rparr>)" by simp
  then show ?thesis
    using d by (intro exI [of _ "d\<lparr>stage := MetricsDown\<rparr>"]) (simp add: shared_of_def)
qed


text \<open>The worker empties the channel, and the tracker is closed.\<close>

lemma demo_core_goes:
  assumes "demo_deployed d" and "alive (stage d)" and "cstep demo_ports (core (srv d)) k" and "unheard (core (srv d)) k"
    and "ext (cw k) = shared_of d" and "dispatchClosed (ctr k) = dispatchClosed (ctr (core (srv d)))"
    and "pc k = pc (core (srv d))"
  shows "\<exists>d'. demo_deployed d' \<and> core (srv d') = k \<and> stage d' = stage d \<and> shared_of d' = shared_of d
    \<and> events (srv d') = events (srv d)"
proof -
  let ?s = "(srv d)\<lparr>core := k, inbox := (inbox (srv d))\<lparr>cs_world := adapter_view (ctr k, cw k)\<rparr>\<rparr>"
  have "beyond (snd (ext (cs_world (inbox (srv d))))) = beyond (ext (cw k))"
    using shared_coupled [OF dreachable_dinv [OF assms(1)]] assms(5) by simp
  then have "deployed_step demo_json demo_surroundings demo_config demo_others (srv d) ?s"
    by (intro sv_tracker [OF assms(3,4)]) simp
  moreover have "allowed d ?s" using assms(5-7) dreachable_dinv [OF assms(1)] by (simp add: allowed_def dinv_def)
  ultimately have "demo_dstep d (d\<lparr>srv := ?s, news := alert_between (core (srv d)) (core ?s) @ news d\<rparr>)"
    by (rule d_service [OF assms(2)])
  from d_step [OF assms(1) this] show ?thesis
    by (intro exI [of _ "d\<lparr>srv := ?s, news := alert_between (core (srv d)) (core ?s) @ news d\<rparr>"])
      (simp add: shared_of_def assms(5) [unfolded shared_of_def])
qed

lemma demo_perform: "worker_perform demo_ports j (t, w) = (t', w') \<Longrightarrow> t' = t\<lparr>worker := Ready\<rparr> \<and> ext w' = ext w"
  by (auto simp: worker_perform_def Let_def deployed_ports_def service_ports_def Updater_UpdateStatus_def outside_def
      result_of_def UpdateGatewayStatus_def deployed_rr_def make_rr_def NewNATSRRClient_def demo_surroundings_def
      requestWithRetry_def retry_loop.simps demo_json_def demo_codec_def split: prod.splits)

theorem books_at_exit_witness:
  "\<exists>d. demo_deployed d \<and> stage d = TrackerClosed \<and> delivered (core (srv d)) = [online_job ''g'' 7]
    \<and> inserted (snd (beyond (shared_of d))) = []"
proof -
  obtain d where d: "demo_deployed d" "stage d = MetricsDown" "fst (beyond (shared_of d)) = demo_refusal"
    "ctr (core (srv d)) = demo_heard_t" "accepted (core (srv d)) = [online_job ''g'' 7]"
    using demo_unwinding by blast
  let ?t = "close_channel demo_heard_t"
  let ?d1 = "d\<lparr>stage := Closing, srv := put_world ?t (cw (core (srv d))) (srv d)\<rparr>"
  have "beyond (snd (ext (cs_world (inbox (srv d))))) = beyond (shared_of d)"
    using shared_coupled [OF dreachable_dinv [OF d(1)]] by simp
  then have "demo_dstep d ?d1" using d(4) by (intro d_close [OF d(2)]) (simp_all add: shared_of_def)
  then have d1: "demo_deployed ?d1" by (rule d_step [OF d(1)])
  have t: "worker ?t = Ready" "dispatchCh ?t = [online_job ''g'' 7]" "dispatchClosed ?t"
    by (simp_all add: close_channel_def demo_heard_t_def demo_tracker0_def)
  let ?k1 = "core (srv ?d1)"
  let ?k2 = "?k1\<lparr>ctr := worker_receive (ctr ?k1)\<rparr>"
  have "cstep demo_ports ?k1 ?k2" by (rule c_receive) (simp add: t)
  from demo_core_goes [OF d1 _ this unheard_worker(1)] obtain d2 where d2: "demo_deployed d2" "core (srv d2) = ?k2" "stage d2 = Closing"
    "shared_of d2 = shared_of d"
    using t by (auto simp: shared_of_def worker_receive_def)
  have got: "ctr (core (srv d2)) = ?t\<lparr>dispatchCh := [], worker := Got (online_job ''g'' 7)\<rparr>"
    using t by (simp add: d2 worker_receive_def)
  obtain t3 w3 where wp: "worker_perform demo_ports (online_job ''g'' 7) (ctr (core (srv d2)), cw (core (srv d2))) = (t3, w3)"
    by fastforce
  note p = demo_perform [OF wp]
  let ?k3 = "(core (srv d2))\<lparr>ctr := t3, cw := w3, delivered := delivered (core (srv d2)) @ [online_job ''g'' 7]\<rparr>"
  have "cstep demo_ports (core (srv d2)) ?k3" using c_perform [OF _ wp] got by simp
  moreover have "unheard (core (srv d2)) ?k3" using p by (intro unheard_same) simp
  ultimately obtain d3 where d3: "demo_deployed d3" "core (srv d3) = ?k3" "stage d3 = Closing"
    "shared_of d3 = shared_of d"
    using demo_core_goes [OF d2(1), of ?k3] p d2 got t(3) by (auto simp: shared_of_def)
  let ?k4 = "(core (srv d3))\<lparr>ctr := worker_receive (ctr (core (srv d3)))\<rparr>"
  have "cstep demo_ports (core (srv d3)) ?k4" by (rule c_receive) (simp add: d3 p)
  from demo_core_goes [OF d3(1) _ this unheard_worker(1)] obtain d4 where d4: "demo_deployed d4" "core (srv d4) = ?k4" "stage d4 = Closing"
    "shared_of d4 = shared_of d"
    using d3 by (auto simp: shared_of_def)
  have "worker (ctr (core (srv d4))) = Finished" using t p got by (simp add: d4 d3 worker_receive_def)
  then have d5: "demo_deployed (d4\<lparr>stage := TrackerClosed\<rparr>)" by (intro d_step [OF d4(1)] d_closed [OF d4(3)])
  have sh: "shared_of (d4\<lparr>stage := TrackerClosed\<rparr>) = shared_of d" using d4(4) by (simp add: shared_of_def)
  from books_at_exit [OF d5 _ demo_observers demo_dw0_empty]
  have "delivered (core (srv d4)) = accepted (core (srv d4)) \<and> inserted (snd (beyond (shared_of d))) = []"
    by (simp add: sh d(3) demo_refusal_def acked_def)
  moreover have "accepted (core (srv d4)) = [online_job ''g'' 7]" using d(5) by (simp add: d4 d3 d2)
  ultimately show ?thesis
    using d5 sh by (intro exI [of _ "d4\<lparr>stage := TrackerClosed\<rparr>"]) simp
qed

end
