(* ===== verification/Spec2Isabelle.thy ===== *)
theory Spec2Isabelle
  imports System_Props Wire_Props Timing Tick_Order Redelivery Deployment_Timeouts Deployment_Shutdown
begin

text \<open>
  A verification development for the NoTIP data consumer.

  The program. The data consumer reads telemetry of gateways from NATS JetStream, stores it in a
  TimescaleDB table and watches that every gateway keeps sending. Telemetry messages arrive on
  \<open>telemetry.data.{tenant}.{gateway}\<close>; each one is a heartbeat of its gateway and a row to be stored.
  A timer checks the heartbeats against timeouts that are configured in a management API; a gateway
  that falls silent is alerted on JetStream and reported offline to the management API, and reported
  online when it comes back. Decommission messages make the service forget a gateway. The code is
  hexagonal: a core (\<open>internal/service\<close>) with ports (\<open>internal/domain/port\<close>), driven adapters that the
  core calls (\<open>internal/adapter/driven\<close>), driving adapters that call the core
  (\<open>internal/adapter/driving\<close>), and the wiring in \<open>cmd/consumer/main.go\<close>.

  Conventions. A Go \<open>int\<close>, \<open>int64\<close> or \<open>time.Duration\<close> is a 64-bit word, so the conversions from
  milliseconds and the doubling of delays wrap as in Go; an instant is an integer of nanoseconds. An
  error is a value of \<open>go_error\<close> that keeps its format, its arguments and its cause; a text is a list of
  bytes. A call that can panic has the result type \<open>go_result\<close>. State is passed explicitly: a world holds the metric handles
  and the outside, whose type is a parameter, and everything that is not in the repository (NATS,
  PostgreSQL, the clock, timers, the embedded files) is a function argument on it. The component
  theories take the JSON coding as an argument too (\<open>json_codec\<close>), and \<open>Wire\<close> defines the one that
  \<open>encoding/json\<close> gives for the types of the service (\<open>go_json\<close>).
  Where a property speaks about what the outside observes, it takes an observer that its hypotheses
  tie to those arguments. A \<open>select\<close> with several ready cases is a choice: of a step, or of a list of
  the choices made. Logging is not modelled.

  The theories, from the bottom up.

  \<^item> \<open>Prelude\<close>: words, durations, errors, panics, \<open>strings.Split\<close> and \<open>Join\<close>, runs over lists.
    \<open>Decimal\<close>: the integers of \<open>strconv\<close>.
  \<^item> \<open>Metrics\<close>: \<open>internal/metrics/metrics.go\<close>. \<open>Domain_Model\<close>: \<open>internal/domain/model/model.go\<close> and
    \<open>internal/domain/port/port.go\<close>.
  \<^item> \<open>Tracker\<close>: \<open>internal/service/heartbeat_tracker.go\<close>, one definition per method; the dispatch
    channel is a bounded queue together with the position of its worker. \<open>Tracker_Lemmas\<close> and
    \<open>Tracker_Tick\<close> hold its invariant and the analysis of \<open>Tick\<close>; \<open>Tracker_Spec\<close> states the abstract
    fleet that it refines; \<open>Tracker_Props\<close> has the properties of single calls and of runs of calls.
  \<^item> \<open>Tracker_Concurrent\<close> and \<open>Tracker_Concurrent_Props\<close>: the same methods cut at their lock
    boundaries and interleaved, with the invariants that hold in every interleaving and the race that
    breaks one of them.
  \<^item> \<open>Tick_Order\<close>: the order in which Go iterates over the heartbeat map does not matter to a tick.
  \<^item> \<open>RR_Client\<close>, \<open>RR_Props\<close>: \<open>internal/adapter/driven/nats_rr_client.go\<close>, its retry schedule and the
    validation of its answers.
  \<^item> \<open>Alert_Cache\<close>, \<open>Alert_Cache_Lemmas\<close>, \<open>Alert_Cache_Props\<close>: \<open>alert_config_cache.go\<close>, with the lookup
    specified on the list of configurations that was fetched. The locale \<open>config_source\<close> is what the
    cache asks of its fetcher; the request-reply client is its interpretation.
  \<^item> \<open>Driven_Adapters\<close>, \<open>Driven_Adapters_Props\<close>: \<open>nats_alert_publisher.go\<close>,
    \<open>nats_gateway_lifecycle_provider.go\<close>, \<open>nats_gateway_status_updater.go\<close>, \<open>clock.go\<close> and
    \<open>postgres_telemetry_writer.go\<close>.
  \<^item> \<open>Telemetry_Consumer\<close>, \<open>Telemetry_Lemmas\<close>, \<open>Telemetry_Props\<close>:
    \<open>internal/adapter/driving/nats_telemetry_consumer.go\<close>, first as functions and then as a system of
    callback, channel and flush loop. The locale \<open>telemetry_handler\<close> is the contract of its handler;
    \<open>Tracker_Service\<close> shows that the tracker meets it.
  \<^item> \<open>Driving_Adapters\<close>, \<open>Driving_Props\<close>: \<open>nats_decommission_consumer.go\<close> and
    \<open>heartbeat_tick_timer.go\<close>.
  \<^item> \<open>Tracker_Metrics\<close>: the locale \<open>metered_ports\<close>, what the ports owe the tracker's metrics, and the
    ports as \<open>run\<close> wires them (\<open>service_ports\<close>), which meet it.
  \<^item> \<open>Config\<close>, \<open>Config_Props\<close>: \<open>internal/config/config.go\<close>, with the parts of \<open>strconv\<close>, \<open>strings\<close> and
    \<open>net/url\<close> that it uses. \<open>Startup\<close>, \<open>Startup_Props\<close>: \<open>migrations/embed.go\<close> and \<open>run\<close> of
    \<open>cmd/consumer/main.go\<close>.
  \<^item> \<open>Json_Text\<close>, \<open>Json\<close>, \<open>Json_Lemmas\<close>: JSON texts as \<open>encoding/json\<close> reads and writes them: UTF-8,
    string literals with their escapes, a lexer over bytes, a parser with Go's limit of nesting, the
    printer, and the proof that a printed value is parsed as itself. \<open>Rfc3339\<close>, \<open>Rfc3339_Lemmas\<close>: the
    calendar and the texts of \<open>time.Time\<close>, with their round trip.
  \<^item> \<open>Wire\<close>: the payloads of \<open>model.go\<close>, by their struct tags and the two methods of \<open>OpaqueBlob\<close>.
    \<open>Wire_Lemmas\<close>: the locale \<open>wire_format\<close>, the contract of a writer with a reader, interpreted for the
    requests, the alert and the envelope. \<open>Wire_Props\<close>: which texts are accepted, what is read back, and
    what an odd text does to the components that get it.
  \<^item> \<open>Process\<close>, \<open>Process_Props\<close>: the process around the components: exit code, HTTP endpoints,
    reconnections, construction from the configuration, and a step relation in which the goroutines on
    the tracker go on while \<open>run\<close> executes its deferred actions.
  \<^item> \<open>Service\<close>, \<open>Service_Props\<close>: the composition of the tracker's system, the telemetry consumer's system
    and the decommission consumer on one world, as \<open>run\<close> starts them side by side. The locale
    \<open>simulation\<close> of \<open>Prelude\<close> is interpreted for the composition and each of its components, so that the
    properties of the components hold in it; the messages of the two subscriptions are answered by two
    functions, as one outcome does not bind the other. \<open>Storage\<close>: the composed service with the telemetry
    writer, on the log of what the connection pool was asked and answered. \<open>Redelivery\<close>: rounds in which one
    message is refused by the database and delivered again.
  \<^item> \<open>Context_End\<close>: what the telemetry consumer can still do once the context is done, for a pool that heeds
    the context.
  \<^item> \<open>Deployment\<close>: the whole program, with all components constructed from one configuration as in \<open>run\<close>:
    the composed service, the cache with its refreshes and its published snapshot, the context, and the
    stage of the deferred actions are one state, \<open>deployment\<close>, with the steps \<open>dstep\<close>. \<open>Deployment_Props\<close>
    interprets \<open>simulation\<close> from it to \<open>Process\<close> and to \<open>Service\<close>; \<open>Deployment_Demo\<close> is a concrete
    run; \<open>Deployment_Timeouts\<close> follows the configured timeouts to the alerts, and
    \<open>Deployment_Shutdown\<close> the telemetry that is under way through the shutdown.
  \<^item> \<open>Timing\<close>: how long requests, ticks and the shutdown take, for an observer of the time that passes.
  \<^item> \<open>System_Props\<close>: further properties that span components.

  What the lemmas show. The tracker refines a fleet in which heartbeats, timeouts and decommissions
  set the status of a gateway; a tick takes offline exactly the gateways that are due, not paused and
  alerted, and never before the timeout that the cache has for them; no outage is alerted twice; status
  updates are delivered in order and drained on shutdown. The consumer answers every delivery at most
  once, acknowledges it only after its row was written and terminates it only if it cannot be decoded.
  The cache serves the last list that arrived; requests, initial fetches and migrations follow their
  schedules and stop; the configuration loads exactly if it is complete; startup releases what it
  acquired. Requests and envelopes are read back as they were written; an envelope is accepted exactly
  if its members have the types of their fields, and then holds valid UTF-8. A shutdown can always be
  completed and delivers every accepted update before NATS is drained, but telemetry that comes in
  after the tracker was closed crashes it. In the composed service the gateways that are watched are
  exactly those heard since they were last decommissioned, and the rows that the database confirmed are
  exactly those of the acknowledged messages. A request takes at most 27 seconds, which bounds a tick
  and a shutdown by the number of gateways and of pending updates; both bounds are long, and a tick
  that takes so long acts on heartbeats that are out of date. In the whole program every alert that went
  out rests on a silence as long as the timeout in the list that was in force when the check read it. From
  the signal on no row is stored and no message acknowledged, so the last batch is always given back; the
  pool is not used any more when it is closed; and at the exit at most 201 deliveries are without an
  answer. A message that the database refuses stays a heartbeat of its gateway for as long as it is
  delivered again.

  Bounds. No definition runs on fuel: the loops are recursive over lists or over a number of attempts
  that is left, the JSON lexer and parser run over bytes and tokens, and \<open>dispatchWorker\<close>, \<open>retry_loop\<close> and \<open>trim_front\<close> terminate by a measure. The loops
  that end only with a context run over the list, or the number, of the choices made until then, which
  is arbitrary. Conversions from milliseconds are exact up to \<open>max_ms\<close>, about 292 years.

  What is not modelled. NATS, pgx, Prometheus and the embedded file system are parameters, and so is
  the offset of the local time zone. Of the errors of \<open>encoding/json\<close> only their kind is kept (not JSON,
  or a value of the wrong type), and errors are not rendered as texts. Of \<open>main.go\<close> the goroutine of the HTTP server is only an action of the
  startup. Logs, tests, the SQL of the migration and the build scripts are left out.
\<close>

end
